(* ===== verification/Prelude.thy ===== *)
theory Prelude
  imports Main
begin

text \<open>
  Shared vocabulary of the development: the SQL statements of the program act on tables, a
  table is the list of its rows, and the statements are list functions. This theory holds
  those functions (\<open>sql_update\<close>, \<open>order_by\<close>, comparisons with a NULL operand), the few
  string operations of Python that the code calls, and the generic lemmas about them that
  the component theories share.
\<close>

named_theorems op_defs "definitions of database operations, unfolded by the refinement proofs"
named_theorems row_intros "facts that one row rewrite follows the life cycle of a copy"

section \<open>Values of the database\<close>

text \<open>
  UUIDs are only compared and generated, so they are numbers; the generator is an argument of
  the operations that call it. A time stamp is a number of microseconds, which is the
  resolution of TIMESTAMPTZ.
\<close>

type_synonym uuid = nat
type_synonym time = int

abbreviation seconds :: "int \<Rightarrow> time" where
  "seconds n \<equiv> n * 1000000"

section \<open>Comparisons with NULL\<close>

text \<open>
  A comparison with NULL is not true, so the row is not selected. These are the comparisons
  in positions where SQL treats "unknown" as "not selected".
\<close>

definition sql_eq :: "'a option \<Rightarrow> 'a option \<Rightarrow> bool" where
  "sql_eq x y \<longleftrightarrow> x \<noteq> None \<and> x = y"

definition null_lt :: "time option \<Rightarrow> time \<Rightarrow> bool" where
  "null_lt x t \<longleftrightarrow> (case x of None \<Rightarrow> False | Some v \<Rightarrow> v < t)"

definition null_le :: "time option \<Rightarrow> time \<Rightarrow> bool" where
  "null_le x t \<longleftrightarrow> (case x of None \<Rightarrow> False | Some v \<Rightarrow> v \<le> t)"

definition null_gt :: "time option \<Rightarrow> time \<Rightarrow> bool" where
  "null_gt x t \<longleftrightarrow> (case x of None \<Rightarrow> False | Some v \<Rightarrow> t < v)"

definition coalesce :: "'a option \<Rightarrow> 'a \<Rightarrow> 'a" where
  "coalesce x d = (case x of None \<Rightarrow> d | Some v \<Rightarrow> v)"

lemma null_cmp_simps [simp]:
  "\<not> null_lt None t" "null_lt (Some v) t = (v < t)"
  "\<not> null_le None t" "null_le (Some v) t = (v \<le> t)"
  "\<not> null_gt None t" "null_gt (Some v) t = (t < v)"
  "coalesce None d = d" "coalesce (Some x) d = x"
  by (simp_all add: null_lt_def null_le_def null_gt_def coalesce_def)

lemma sql_eq_simps [simp]:
  "\<not> sql_eq None y" "\<not> sql_eq x None" "sql_eq (Some a) (Some b) = (a = b)"
  by (auto simp: sql_eq_def)

section \<open>Statements on tables\<close>

definition sql_update :: "('r \<Rightarrow> bool) \<Rightarrow> ('r \<Rightarrow> 'r) \<Rightarrow> 'r list \<Rightarrow> 'r list" where
  "sql_update P f rows = map (\<lambda>r. if P r then f r else r) rows"

definition count_rows :: "('r \<Rightarrow> bool) \<Rightarrow> 'r list \<Rightarrow> int" where
  "count_rows P rows = int (length (filter P rows))"

definition order_by :: "('r \<Rightarrow> 'k::linorder) \<Rightarrow> 'r list \<Rightarrow> 'r list" where
  "order_by k rows = sort_key k rows"

lemma sql_update_simps [simp]:
  "sql_update P f [] = []"
  "sql_update P f (r # rs) = (if P r then f r else r) # sql_update P f rs"
  "length (sql_update P f rows) = length rows"
  "sql_update P f (xs @ ys) = sql_update P f xs @ sql_update P f ys"
  by (simp_all add: sql_update_def)

lemma set_sql_update: "set (sql_update P f rows) = (\<lambda>r. if P r then f r else r) ` set rows"
  by (simp add: sql_update_def)

lemma map_sql_update:
  assumes "\<And>r. r \<in> set rows \<Longrightarrow> P r \<Longrightarrow> key (f r) = key r"
  shows "map key (sql_update P f rows) = map key rows"
  using assms by (auto simp: sql_update_def)

lemma list_all2_sql_update:
  assumes "\<And>r. r \<in> set rows \<Longrightarrow> P r \<Longrightarrow> R r (f r)"
    and "\<And>r. R r r"
  shows "list_all2 R rows (sql_update P f rows)"
  using assms(1) by (induction rows) (simp_all add: assms(2))

lemma sql_update_none [simp]:
  "(\<And>r. r \<in> set rows \<Longrightarrow> \<not> P r) \<Longrightarrow> sql_update P f rows = rows"
  by (induction rows) auto

lemma set_order_by [simp]: "set (order_by k rows) = set rows"
  by (simp add: order_by_def)

lemma length_order_by [simp]: "length (order_by k rows) = length rows"
  by (simp add: order_by_def)

lemma order_by_head_le:
  assumes "order_by k rows = r # rest" and "s \<in> set rows"
  shows "k r \<le> k s"
proof -
  have "sorted (map k (r # rest))"
    using assms(1) sorted_sort_key [of k rows] by (simp add: order_by_def)
  moreover have "s \<in> set (r # rest)"
    using assms set_order_by [of k rows] by simp
  ultimately show ?thesis by auto
qed

lemma count_rows_nonneg [simp]: "0 \<le> count_rows P rows"
  by (simp add: count_rows_def)

lemma count_rows_simps [simp]:
  "count_rows P [] = 0"
  "count_rows P (r # rs) = (if P r then 1 else 0) + count_rows P rs"
  "count_rows P (xs @ ys) = count_rows P xs + count_rows P ys"
  by (simp_all add: count_rows_def)

lemma count_rows_none: "(\<And>r. r \<in> set rows \<Longrightarrow> \<not> P r) \<Longrightarrow> count_rows P rows = 0"
  by (induction rows) auto

lemma count_rows_mono:
  "(\<And>r. r \<in> set rows \<Longrightarrow> P r \<Longrightarrow> Q r) \<Longrightarrow> count_rows P rows \<le> count_rows Q rows"
proof (induction rows)
  case Nil
  then show ?case by simp
next
  case (Cons r rs)
  then have "count_rows P rs \<le> count_rows Q rs" by auto
  with Cons.prems [of r] show ?case by auto
qed

lemma count_rows_rel:
  assumes "list_all2 R xs ys" and "\<And>x y. R x y \<Longrightarrow> P x \<Longrightarrow> Q y"
  shows "count_rows P xs \<le> count_rows Q ys"
  using assms(1)
proof (induction rule: list_all2_induct)
  case Nil
  then show ?case by simp
next
  case (Cons x xs y ys)
  with assms(2) [of x y] show ?case by auto
qed

text \<open>The first row of a result, as \<open>.first()\<close> returns it.\<close>

definition first_row :: "('r \<Rightarrow> bool) \<Rightarrow> 'r list \<Rightarrow> 'r option" where
  "first_row P rows = find P rows"

lemma first_row_simps [simp]:
  "first_row P [] = None"
  "first_row P (r # rs) = (if P r then Some r else first_row P rs)"
  by (simp_all add: first_row_def)

lemma first_row_Some: "first_row P rows = Some r \<Longrightarrow> r \<in> set rows \<and> P r"
  by (induction rows) (auto split: if_splits)

lemma first_row_None: "first_row P rows = None \<longleftrightarrow> (\<forall>r \<in> set rows. \<not> P r)"
  by (induction rows) auto

text \<open>
  A table with a key: a rewrite that leaves the key alone is seen by a lookup of that key,
  and only by it.
\<close>

locale keyed_table =
  fixes key :: "'r \<Rightarrow> 'k"
begin

definition lookup :: "'k \<Rightarrow> 'r list \<Rightarrow> 'r option" where
  "lookup k rows = first_row (\<lambda>r. key r = k) rows"

definition update_at :: "'k \<Rightarrow> ('r \<Rightarrow> 'r) \<Rightarrow> 'r list \<Rightarrow> 'r list" where
  "update_at k f rows = sql_update (\<lambda>r. key r = k) f rows"

lemma lookup_key: "lookup k rows = Some r \<Longrightarrow> key r = k \<and> r \<in> set rows"
  unfolding lookup_def by (auto dest: first_row_Some)

lemma lookup_sql_update:
  assumes "\<And>r. key (f r) = key r"
  shows "lookup k (sql_update P f rows)
    = map_option (\<lambda>r. if P r then f r else r) (lookup k rows)"
  unfolding lookup_def by (induction rows) (simp_all add: assms)

lemma lookup_update_at:
  assumes "\<And>r. key (f r) = key r"
  shows "lookup k (update_at j f rows) = (if k = j then map_option f (lookup k rows) else lookup k rows)"
proof -
  have "lookup k (update_at j f rows)
    = map_option (\<lambda>r. if key r = j then f r else r) (lookup k rows)"
    unfolding update_at_def by (rule lookup_sql_update) (rule assms)
  then show ?thesis by (cases "lookup k rows") (auto dest: lookup_key)
qed

end

section \<open>Strings\<close>

text \<open>
  A Python \<open>str\<close> is a list of code points; \<open>string\<close> holds the code points up to 255. The
  whitespace \<open>str.strip\<close> removes and the digits \<open>str.isdigit\<close> accepts are those of that
  range: besides the ASCII digits, \<open>isdigit\<close> is true of the superscripts 178, 179 and 185.
\<close>

definition is_space :: "char \<Rightarrow> bool" where
  "is_space c \<longleftrightarrow> (let n = (of_char c :: nat) in
     (9 \<le> n \<and> n \<le> 13) \<or> (28 \<le> n \<and> n \<le> 32) \<or> n = 133 \<or> n = 160)"

definition py_strip :: "string \<Rightarrow> string" where
  "py_strip s = rev (dropWhile is_space (rev (dropWhile is_space s)))"

fun py_split :: "char \<Rightarrow> string \<Rightarrow> string list" where
  "py_split c [] = [[]]"
| "py_split c (x # xs) =
     (if x = c then [] # py_split c xs
      else (case py_split c xs of [] \<Rightarrow> [[x]] | s # ss \<Rightarrow> (x # s) # ss))"

lemma py_split_nonempty [simp]: "py_split c s \<noteq> []"
  by (induction s) (auto split: list.splits)

definition is_ascii_digit :: "char \<Rightarrow> bool" where
  "is_ascii_digit c \<longleftrightarrow> (let n = (of_char c :: nat) in 48 \<le> n \<and> n \<le> 57)"

definition is_superscript_digit :: "char \<Rightarrow> bool" where
  "is_superscript_digit c \<longleftrightarrow> (of_char c :: nat) \<in> {178, 179, 185}"

definition py_isdigit :: "string \<Rightarrow> bool" where
  "py_isdigit s \<longleftrightarrow> s \<noteq> [] \<and> list_all (\<lambda>c. is_ascii_digit c \<or> is_superscript_digit c) s"

text \<open>\<open>int(s)\<close> on a string of digits: only decimal digits convert, a superscript raises ValueError.\<close>

definition digit_val :: "char \<Rightarrow> nat" where
  "digit_val c = of_char c - 48"

definition py_int :: "string \<Rightarrow> nat option" where
  "py_int s = (if s \<noteq> [] \<and> list_all is_ascii_digit s
     then Some (foldl (\<lambda>n c. 10 * n + digit_val c) 0 s) else None)"

definition starts_with :: "string \<Rightarrow> string \<Rightarrow> bool" where
  "starts_with s p \<longleftrightarrow> take (length p) s = p"

definition ends_with :: "string \<Rightarrow> string \<Rightarrow> bool" where
  "ends_with s p \<longleftrightarrow> length p \<le> length s \<and> drop (length s - length p) s = p"

fun contains_sub :: "string \<Rightarrow> string \<Rightarrow> bool" where
  "contains_sub [] p = (p = [])"
| "contains_sub (c # s) p = (starts_with (c # s) p \<or> contains_sub s p)"

fun string_less :: "string \<Rightarrow> string \<Rightarrow> bool" where
  "string_less _ [] = False"
| "string_less [] (_ # _) = True"
| "string_less (a # s) (b # t) =
     ((of_char a :: nat) < of_char b \<or> (a = b \<and> string_less s t))"

function show_nat :: "nat \<Rightarrow> string" where
  "show_nat n = (if n < 10 then [char_of (48 + n)] else show_nat (n div 10) @ [char_of (48 + n mod 10)])"
  by pat_completeness auto
termination
  by (relation "measure (\<lambda>n. n)") auto

declare show_nat.simps [simp del]

definition show_int :: "int \<Rightarrow> string" where
  "show_int i = (if i < 0 then ''-'' @ show_nat (nat (- i)) else show_nat (nat i))"

end
