(* ===== verification/Config.thy ===== *)
theory Config
  imports Prelude
begin

text \<open>
  The settings of app/config.py that the modelled code reads. A setting in (fractional)
  seconds is kept as the interval it denotes in microseconds. Every operation takes the
  settings as an argument, so the theorems hold for every configuration.
\<close>

record settings =
  http_timeout_seconds :: time
  claim_lease_seconds :: time
  lease_heartbeat_seconds :: time
  retry_backoff_base_seconds :: time
  retry_backoff_max_seconds :: time
  failure_threshold :: int
  quarantine_seconds :: time
  max_response_body_bytes :: nat
  max_delivery_attempts :: int
  max_requeue_cycles :: int
  receipt_timeout_seconds :: time
  receipt_delivery_grace_seconds :: time
  confirm_timeout_seconds :: time
  confirm_backoff_base_seconds :: time
  confirm_backoff_max_seconds :: time
  ingest_max_age_seconds :: time
  ingest_max_future_skew_seconds :: time
  preview_consent_timeout_seconds_default :: int

definition default_settings :: settings where
  "default_settings =
    \<lparr> http_timeout_seconds = seconds 10,
      claim_lease_seconds = seconds 60,
      lease_heartbeat_seconds = seconds 15,
      retry_backoff_base_seconds = seconds 2,
      retry_backoff_max_seconds = seconds 3600,
      failure_threshold = 5,
      quarantine_seconds = seconds 900,
      max_response_body_bytes = 2048,
      max_delivery_attempts = 10,
      max_requeue_cycles = 3,
      receipt_timeout_seconds = seconds 300,
      receipt_delivery_grace_seconds = seconds 2,
      confirm_timeout_seconds = seconds 300,
      confirm_backoff_base_seconds = seconds 2,
      confirm_backoff_max_seconds = seconds 60,
      ingest_max_age_seconds = seconds 300,
      ingest_max_future_skew_seconds = seconds 60,
      preview_consent_timeout_seconds_default = 86400 \<rparr>"

end
