(* ===== verification/Json.thy ===== *)
theory Json
  imports Complex_Main Prelude
begin

text \<open>
  JSON values as Python holds them after \<open>json.loads\<close> (None, bool, int, float, str, list,
  dict), and \<open>json_equal\<close> of app/subfilters.py. A finite float is the rational it denotes:
  Python compares an int with a float exactly. \<open>json.loads\<close> also accepts NaN and the two
  infinities, so they are values. A dict is the association list of its items in insertion
  order; \<open>wf_json\<close> says that its keys are distinct.
\<close>

datatype pyfloat = Finite rat | PosInf | NegInf | NaN

datatype json =
    JNull
  | JBool bool
  | JInt int
  | JFloat pyfloat
  | JStr string
  | JArr "json list"
  | JObj "(string \<times> json) list"

fun fl_eq :: "pyfloat \<Rightarrow> pyfloat \<Rightarrow> bool" where
  "fl_eq (Finite a) (Finite b) = (a = b)"
| "fl_eq PosInf PosInf = True"
| "fl_eq NegInf NegInf = True"
| "fl_eq _ _ = False"

fun fl_less :: "pyfloat \<Rightarrow> pyfloat \<Rightarrow> bool" where
  "fl_less NaN _ = False"
| "fl_less _ NaN = False"
| "fl_less (Finite a) (Finite b) = (a < b)"
| "fl_less (Finite _) PosInf = True"
| "fl_less NegInf (Finite _) = True"
| "fl_less NegInf PosInf = True"
| "fl_less _ _ = False"

fun num_of :: "json \<Rightarrow> pyfloat option" where
  "num_of (JInt i) = Some (Finite (of_int i))"
| "num_of (JFloat f) = Some f"
| "num_of _ = None"

definition is_number :: "json \<Rightarrow> bool" where
  "is_number v \<longleftrightarrow> num_of v \<noteq> None"

fun is_string :: "json \<Rightarrow> bool" where
  "is_string (JStr _) = True"
| "is_string _ = False"

fun is_dict :: "json \<Rightarrow> bool" where
  "is_dict (JObj _) = True"
| "is_dict _ = False"

lemma size_obj_member [termination_simp]:
  "(k, v) \<in> set kvs \<Longrightarrow> size v < Suc (size_list (\<lambda>x. Suc (size (snd x))) kvs)"
  by (induction kvs) auto

lemma size_obj_lookup [termination_simp]:
  "map_of kvs k = Some v \<Longrightarrow> size v < Suc (size_list (\<lambda>x. Suc (size (snd x))) kvs)"
  by (rule size_obj_member) (rule map_of_SomeD)

lemma size_zip_left [termination_simp]:
  "(a, b) \<in> set (zip l r) \<Longrightarrow> size a < Suc (size_list size l)"
  by (induction l r rule: list_induct2') auto

text \<open>Membership of a key and lookup, as \<open>key in node\<close> and \<open>node.get(key)\<close>.\<close>

abbreviation has_key :: "(string \<times> json) list \<Rightarrow> string \<Rightarrow> bool" where
  "has_key kvs k \<equiv> map_of kvs k \<noteq> None"

fun json_equal :: "json \<Rightarrow> json \<Rightarrow> bool" where
  "json_equal (JBool a) (JBool b) = (a = b)"
| "json_equal (JBool _) _ = False"
| "json_equal _ (JBool _) = False"
| "json_equal (JInt a) (JInt b) = (a = b)"
| "json_equal (JInt a) (JFloat b) = fl_eq (Finite (of_int a)) b"
| "json_equal (JFloat a) (JInt b) = fl_eq a (Finite (of_int b))"
| "json_equal (JFloat a) (JFloat b) = fl_eq a b"
| "json_equal (JObj l) (JObj r) =
     (set (map fst l) = set (map fst r) \<and>
      list_all (\<lambda>(k, v). case map_of r k of None \<Rightarrow> False | Some w \<Rightarrow> json_equal v w) l)"
| "json_equal (JArr l) (JArr r) =
     (length l = length r \<and> list_all (\<lambda>(a, b). json_equal a b) (zip l r))"
| "json_equal (JStr a) (JStr b) = (a = b)"
| "json_equal JNull JNull = True"
| "json_equal _ _ = False"

end
