(* ===== verification/Schema.thy ===== *)
theory Schema
  imports Json
begin

text \<open>
  The tables of app/models.py as records, their CHECK constraints as predicates, and the
  database as the record of its tables. A column that may be NULL is an option; a column
  whose CHECK lists its words is a datatype of those words. Columns carry the prefix of
  their table (the aliases the SQL of the program uses: \<open>d\<close>, \<open>dest\<close>, \<open>e\<close>).
\<close>

section \<open>Vocabularies\<close>

datatype destination_status = Active | Isolated

datatype confirmation_state = Conf_pending | Confirmed

datatype delivery_status =
    Pending | In_flight | Delivered | Cancelled | Superseded | Dead_lettered | Failed
  | Release_denied | Release_expired | Release_voided | Relay_skipped | Deadline_expired

datatype phase = Preview | Body

datatype release_state = Held | Released | Denied | Expired | Voided | Cutoff_expired

datatype reconcile_state = Rec_none | Awaiting | Acknowledged | Receipt_failed | Timed_out

datatype receipt_result = Success | Failure

datatype dead_letter_reason =
    Delivery_attempts_exhausted | Receipt_timeout_exhausted | Receipt_failure_exhausted

datatype relay_skip_reason =
    Skip_dead_letter dead_letter_reason
  | Skip_receipt_failed | Skip_receipt_timeout | Skip_superseded | Skip_deliver_by_expired

datatype void_reason =
    Void_manual | Void_preview_dead_lettered | Void_preview_superseded
  | Void_preview_deadline_expired | Void_deliver_by_expired

section \<open>Tables\<close>

record destination =
  dest_id :: uuid
  dest_url :: string
  dest_status :: destination_status
  dest_failure_count :: int
  dest_next_event_seq :: int
  dest_recoverable_at :: "time option"
  dest_created_at :: time
  dest_confirmation_state :: confirmation_state
  dest_challenge_token :: "string option"
  dest_challenge_expires_at :: "time option"
  dest_confirmed_at :: "time option"
  dest_confirmation_generation :: int
  dest_confirmation_round :: int
  dest_confirmation_attempt_count :: int
  dest_next_probe_at :: time
  dest_observe_only :: bool
  dest_paused_from :: "time option"
  dest_paused_until :: "time option"

text \<open>The CHECK on the pause window: an end needs a start before it.\<close>

definition pause_window_ok :: "time option \<Rightarrow> time option \<Rightarrow> bool" where
  "pause_window_ok start end_at \<longleftrightarrow>
     (case end_at of None \<Rightarrow> True | Some u \<Rightarrow> (case start of None \<Rightarrow> False | Some f \<Rightarrow> f < u))"

definition destination_check :: "destination \<Rightarrow> bool" where
  "destination_check d \<longleftrightarrow>
     0 \<le> dest_failure_count d \<and> 0 \<le> dest_next_event_seq d \<and>
     1 \<le> dest_confirmation_generation d \<and> 1 \<le> dest_confirmation_round d \<and>
     0 \<le> dest_confirmation_attempt_count d \<and>
     pause_window_ok (dest_paused_from d) (dest_paused_until d)"

record delivery =
  d_id :: uuid
  d_event_id :: "uuid option"
  d_destination_id :: uuid
  d_event_type :: "string option"
  d_dedupe_key :: string
  d_payload :: json
  d_destination_seq :: int
  d_status :: delivery_status
  d_attempts :: int
  d_claim_token :: "uuid option"
  d_claimed_at :: "time option"
  d_lease_until :: "time option"
  d_next_attempt_at :: time
  d_not_before :: "time option"
  d_deliver_by :: "time option"
  d_last_error :: "string option"
  d_created_at :: time
  d_updated_at :: time
  d_delivered_at :: "time option"
  d_deliver_by_expired_at :: "time option"
  d_reconcile_state :: reconcile_state
  d_reconcile_deadline :: "time option"
  d_reconciled_at :: "time option"
  d_receipt_result :: "receipt_result option"
  d_receipt_id :: "uuid option"
  d_requeue_count :: int
  d_consecutive_failures :: int
  d_dead_letter_reason :: "dead_letter_reason option"
  d_dead_lettered_at :: "time option"
  d_confirmation_generation :: int
  d_observe_only :: bool
  d_filter_spec :: "json option"
  d_phase :: phase
  d_release_state :: "release_state option"
  d_preview_delivery_id :: "uuid option"
  d_body_delivery_id :: "uuid option"
  d_consent_deadline :: "time option"
  d_consent_timeout_seconds :: "int option"
  d_released_at :: "time option"
  d_voided_at :: "time option"
  d_void_reason :: "void_reason option"
  d_relay_chain_id :: "uuid option"
  d_relay_station_no :: "int option"
  d_relay_skipped_at :: "time option"
  d_relay_skip_reason :: "relay_skip_reason option"
  d_relay_stopped_by_delivery_id :: "uuid option"

text \<open>The table constraints of \<open>deliveries\<close> that relate several columns or bound a number.\<close>

definition delivery_check :: "delivery \<Rightarrow> bool" where
  "delivery_check d \<longleftrightarrow>
     (d_relay_chain_id d = None) = (d_relay_station_no d = None) \<and>
     (case d_relay_station_no d of None \<Rightarrow> True | Some n \<Rightarrow> 1 \<le> n) \<and>
     (d_status d = Relay_skipped) = (d_relay_skip_reason d \<noteq> None) \<and>
     ((d_phase d = Preview \<and> d_body_delivery_id d \<noteq> None \<and> d_preview_delivery_id d = None) \<or>
      (d_phase d = Body \<and> d_body_delivery_id d = None)) \<and>
     0 \<le> d_attempts d \<and> 0 \<le> d_destination_seq d \<and>
     0 \<le> d_requeue_count d \<and> 0 \<le> d_consecutive_failures d \<and>
     (d_status d = Dead_lettered) = (d_dead_letter_reason d \<noteq> None)"

text \<open>The column defaults of an INSERT into \<open>deliveries\<close> made at time \<open>now\<close>.\<close>

definition new_delivery :: "time \<Rightarrow> uuid \<Rightarrow> uuid \<Rightarrow> uuid \<Rightarrow> string \<Rightarrow> string \<Rightarrow> json \<Rightarrow> int \<Rightarrow> delivery" where
  "new_delivery now i event dest type key payload seq =
    \<lparr> d_id = i, d_event_id = Some event, d_destination_id = dest, d_event_type = Some type,
      d_dedupe_key = key, d_payload = payload, d_destination_seq = seq, d_status = Pending,
      d_attempts = 0, d_claim_token = None, d_claimed_at = None, d_lease_until = None,
      d_next_attempt_at = now, d_not_before = None, d_deliver_by = None, d_last_error = None,
      d_created_at = now, d_updated_at = now, d_delivered_at = None,
      d_deliver_by_expired_at = None, d_reconcile_state = Rec_none,
      d_reconcile_deadline = None, d_reconciled_at = None, d_receipt_result = None,
      d_receipt_id = None, d_requeue_count = 0, d_consecutive_failures = 0,
      d_dead_letter_reason = None, d_dead_lettered_at = None, d_confirmation_generation = 1,
      d_observe_only = False, d_filter_spec = None, d_phase = Body, d_release_state = None,
      d_preview_delivery_id = None, d_body_delivery_id = None, d_consent_deadline = None,
      d_consent_timeout_seconds = None, d_released_at = None, d_voided_at = None,
      d_void_reason = None, d_relay_chain_id = None, d_relay_station_no = None,
      d_relay_skipped_at = None, d_relay_skip_reason = None,
      d_relay_stopped_by_delivery_id = None \<rparr>"

record event =
  e_id :: uuid
  e_source_id :: "uuid option"
  e_event_type :: string
  e_dedupe_key :: string
  e_payload :: json
  e_not_before :: "time option"
  e_deliver_by :: "time option"
  e_cancelled_at :: "time option"
  e_created_at :: time
  e_preview_payload :: "json option"
  e_required_ack_count :: "int option"
  e_corrects_event_id :: "uuid option"

definition event_check :: "event \<Rightarrow> bool" where
  "event_check e \<longleftrightarrow> (case e_required_ack_count e of None \<Rightarrow> True | Some n \<Rightarrow> 0 \<le> n)"

record subscription =
  s_destination_id :: uuid
  s_event_type :: string
  s_created_at :: time
  s_filter_spec :: "json option"

record filter_evaluation =
  fe_event_id :: uuid
  fe_destination_id :: uuid
  fe_event_type :: string
  fe_matched :: bool
  fe_filter_spec :: json
  fe_observe_only :: bool

record ack_threshold_row =
  t_event_type :: string
  t_ack_threshold :: int

record preview_policy =
  p_event_type :: string
  p_consent_timeout_seconds :: int

record relay_chain =
  ch_id :: uuid
  ch_event_type :: string
  ch_version :: int
  ch_active :: bool
  ch_created_at :: time

record relay_station =
  st_chain_id :: uuid
  st_station_no :: int
  st_destination_id :: uuid

datatype consent_decision = Approve | Deny

datatype consent_disposition =
    Consent_released | Consent_denied | Consent_duplicate | Consent_late_ignored
  | Consent_conflict | Consent_preview_not_delivered | Consent_not_gated | Consent_orphan

record gate_decision =
  g_destination_id :: uuid
  g_event_id :: uuid
  g_delivery_id :: "uuid option"
  g_decision :: consent_decision
  g_disposition :: consent_disposition

datatype receipt_disposition =
    Receipt_applied | Receipt_duplicate | Receipt_late | Receipt_orphan | Receipt_premature

record receipt =
  r_id :: uuid
  r_destination_id :: uuid
  r_dedupe_key :: string
  r_result :: receipt_result
  r_delivery_id :: "uuid option"
  r_disposition :: receipt_disposition
  r_received_at :: time

record event_source =
  src_id :: uuid
  src_name :: string
  src_secret :: string
  src_key_rotated_at :: time
  src_disabled_at :: "time option"
  src_created_at :: time

datatype ingest_disposition =
    Accepted | Unrouted | Pending_confirmation | Filtered | Duplicate_event
  | Source_unknown | Source_disabled | Bad_signature | Stale_timestamp
  | Future_timestamp | Invalid_timestamp | Invalid_body

record ingestion_attempt =
  ia_source_id :: "uuid option"
  ia_source_name :: "string option"
  ia_event_id :: "uuid option"
  ia_dedupe_key :: "string option"
  ia_event_type :: "string option"
  ia_signed_at :: "time option"
  ia_disposition :: ingest_disposition
  ia_received_at :: time

record delivery_attempt =
  a_delivery_id :: uuid
  a_event_id :: "uuid option"
  a_destination_id :: uuid
  a_attempt_no :: int
  a_started_at :: time
  a_finished_at :: time
  a_success :: bool
  a_status_code :: "int option"
  a_error :: "string option"
  a_lost_lease :: bool

datatype confirmation_kind = Kind_challenge | Kind_echo | Kind_expired

datatype confirmation_result =
    Result_sent | Result_confirmed | Result_failed | Result_invalid | Result_expired

record confirmation_attempt =
  ca_destination_id :: uuid
  ca_confirmation_round :: int
  ca_kind :: confirmation_kind
  ca_result :: confirmation_result

record database =
  destinations :: "destination list"
  deliveries :: "delivery list"
  events :: "event list"
  destination_subscriptions :: "subscription list"
  subscription_filter_evaluations :: "filter_evaluation list"
  event_type_ack_thresholds :: "ack_threshold_row list"
  event_type_preview_policies :: "preview_policy list"
  relay_chains :: "relay_chain list"
  relay_chain_stations :: "relay_station list"
  release_gate_decisions :: "gate_decision list"
  receipts :: "receipt list"
  event_sources :: "event_source list"
  ingestion_attempts :: "ingestion_attempt list"
  delivery_attempts :: "delivery_attempt list"
  confirmation_attempts :: "confirmation_attempt list"

definition empty_database :: database where
  "empty_database =
    \<lparr> destinations = [], deliveries = [], events = [], destination_subscriptions = [],
      subscription_filter_evaluations = [], event_type_ack_thresholds = [],
      event_type_preview_policies = [], relay_chains = [], relay_chain_stations = [],
      release_gate_decisions = [], receipts = [], event_sources = [],
      ingestion_attempts = [], delivery_attempts = [], confirmation_attempts = [] \<rparr>"

section \<open>Rows by their primary key\<close>

interpretation delivery_table: keyed_table d_id .

interpretation destination_table: keyed_table dest_id .

definition find_delivery :: "database \<Rightarrow> uuid \<Rightarrow> delivery option" where
  "find_delivery db i = first_row (\<lambda>d. d_id d = i) (deliveries db)"

definition find_destination :: "database \<Rightarrow> uuid \<Rightarrow> destination option" where
  "find_destination db i = first_row (\<lambda>d. dest_id d = i) (destinations db)"

definition find_event :: "database \<Rightarrow> uuid \<Rightarrow> event option" where
  "find_event db i = first_row (\<lambda>e. e_id e = i) (events db)"

text \<open>UPDATE deliveries SET f WHERE P, and the same for one destination or event.\<close>

definition update_deliveries :: "(delivery \<Rightarrow> bool) \<Rightarrow> (delivery \<Rightarrow> delivery) \<Rightarrow> database \<Rightarrow> database" where
  "update_deliveries P f db = db\<lparr>deliveries := sql_update P f (deliveries db)\<rparr>"

definition update_destination_row :: "uuid \<Rightarrow> (destination \<Rightarrow> destination) \<Rightarrow> database \<Rightarrow> database" where
  "update_destination_row i f db =
     db\<lparr>destinations := sql_update (\<lambda>d. dest_id d = i) f (destinations db)\<rparr>"

definition update_event_row :: "uuid \<Rightarrow> (event \<Rightarrow> event) \<Rightarrow> database \<Rightarrow> database" where
  "update_event_row i f db = db\<lparr>events := sql_update (\<lambda>e. e_id e = i) f (events db)\<rparr>"

lemma find_delivery_lookup: "find_delivery db i = delivery_table.lookup i (deliveries db)"
  by (simp add: find_delivery_def delivery_table.lookup_def)

lemma find_delivery_key: "find_delivery db i = Some d \<Longrightarrow> d_id d = i \<and> d \<in> set (deliveries db)"
  unfolding find_delivery_lookup by (rule delivery_table.lookup_key)

lemma find_destination_key:
  "find_destination db i = Some d \<Longrightarrow> dest_id d = i \<and> d \<in> set (destinations db)"
  unfolding find_destination_def by (auto dest: first_row_Some)

lemma find_event_key: "find_event db i = Some e \<Longrightarrow> e_id e = i \<and> e \<in> set (events db)"
  unfolding find_event_def by (auto dest: first_row_Some)

lemma find_delivery_update:
  assumes "\<And>d. d_id (f d) = d_id d"
  shows "find_delivery (update_deliveries P f db) i
    = map_option (\<lambda>d. if P d then f d else d) (find_delivery db i)"
  unfolding find_delivery_lookup update_deliveries_def
  by (simp add: delivery_table.lookup_sql_update assms)

lemma update_deliveries_simps [simp]:
  "destinations (update_deliveries P f db) = destinations db"
  "events (update_deliveries P f db) = events db"
  "relay_chains (update_deliveries P f db) = relay_chains db"
  "event_type_preview_policies (update_deliveries P f db) = event_type_preview_policies db"
  "deliveries (update_deliveries P f db) = sql_update P f (deliveries db)"
  by (simp_all add: update_deliveries_def)

lemma update_destination_row_simps [simp]:
  "deliveries (update_destination_row i g db) = deliveries db"
  "events (update_destination_row i g db) = events db"
  "relay_chains (update_destination_row i g db) = relay_chains db"
  "event_type_preview_policies (update_destination_row i g db) = event_type_preview_policies db"
  by (simp_all add: update_destination_row_def)

lemma update_event_row_simps [simp]:
  "deliveries (update_event_row i g db) = deliveries db"
  "destinations (update_event_row i g db) = destinations db"
  "relay_chains (update_event_row i g db) = relay_chains db"
  "event_type_preview_policies (update_event_row i g db) = event_type_preview_policies db"
  by (simp_all add: update_event_row_def)

end
