(* ===== verification/Lifecycle.thy ===== *)
theory Lifecycle
  imports Schema
begin

text \<open>
  The contract of one delivery copy. \<open>copy\<close> is what the design documents talk about (status,
  reconciliation, release gate, phase, whether it ever went out, why it was parked or
  skipped); \<open>lifecycle\<close> is the state machine of a copy. The component theories show that
  every operation of the program rewrites each delivery row along this machine
  (\<open>row_evolves\<close>, \<open>evolves\<close>) and inserts only fresh rows; what holds of the machine
  (\<open>copy_ok\<close>, permanence of an acknowledgement and of a closed copy, the snapshots) then holds
  of the whole program through the locale \<open>delivery_operation\<close>.
\<close>

section \<open>The abstract copy\<close>

record copy =
  c_status :: delivery_status
  c_reconcile :: reconcile_state
  c_release :: "release_state option"
  c_phase :: phase
  c_sent :: bool
  c_dead :: "dead_letter_reason option"
  c_skip :: "relay_skip_reason option"

definition copy_of :: "delivery \<Rightarrow> copy" where
  "copy_of d = \<lparr> c_status = d_status d, c_reconcile = d_reconcile_state d,
     c_release = d_release_state d, c_phase = d_phase d, c_sent = (d_delivered_at d \<noteq> None),
     c_dead = d_dead_letter_reason d, c_skip = d_relay_skip_reason d \<rparr>"

lemma copy_of_simps [simp]:
  "c_status (copy_of d) = d_status d"
  "c_reconcile (copy_of d) = d_reconcile_state d"
  "c_release (copy_of d) = d_release_state d"
  "c_phase (copy_of d) = d_phase d"
  "c_sent (copy_of d) = (d_delivered_at d \<noteq> None)"
  "c_dead (copy_of d) = d_dead_letter_reason d"
  "c_skip (copy_of d) = d_relay_skip_reason d"
  by (simp_all add: copy_of_def)

definition gate_open :: "release_state option \<Rightarrow> bool" where
  "gate_open r \<longleftrightarrow> r = None \<or> r = Some Released"

definition void_status :: "delivery_status \<Rightarrow> bool" where
  "void_status s \<longleftrightarrow> s \<in> {Release_denied, Release_expired, Release_voided, Deadline_expired}"

text \<open>Statuses of a copy that is over without transport (or, for a requeued copy, over again).\<close>

definition closed_status :: "delivery_status \<Rightarrow> bool" where
  "closed_status s \<longleftrightarrow> s \<in> {Cancelled, Superseded, Failed, Release_denied, Release_expired,
     Release_voided, Relay_skipped, Deadline_expired}"

definition cutoff_release :: "phase \<Rightarrow> release_state option \<Rightarrow> release_state option" where
  "cutoff_release p r = (if p = Body \<and> (r = Some Held \<or> r = Some Released) then Some Cutoff_expired else r)"

section \<open>The state machine\<close>

text \<open>
  The edges of the machine but one: a copy is taken out of the queue only by the worker's claim,
  which is the relation \<open>claimed_row\<close> below, so every other operation stays within \<open>lifecycle\<close>
  and can neither put a copy in flight nor mark one sent that was not.
\<close>

inductive lifecycle :: "copy \<Rightarrow> copy \<Rightarrow> bool" where
  stay: "lifecycle c c"
| handoff_body: "c_status c = In_flight \<Longrightarrow> c_phase c = Body \<Longrightarrow>
    lifecycle c (c\<lparr>c_status := Delivered, c_sent := True, c_reconcile := Awaiting\<rparr>)"
| handoff_preview: "c_status c = In_flight \<Longrightarrow> c_phase c = Preview \<Longrightarrow>
    lifecycle c (c\<lparr>c_status := Delivered, c_sent := True\<rparr>)"
| back_to_queue: "c_status c = In_flight \<Longrightarrow> lifecycle c (c\<lparr>c_status := Pending\<rparr>)"
| park_transport: "c_status c = In_flight \<Longrightarrow>
    lifecycle c (c\<lparr>c_status := Dead_lettered, c_dead := Some Delivery_attempts_exhausted\<rparr>)"
| supersede: "c_status c \<in> {Pending, In_flight} \<Longrightarrow> lifecycle c (c\<lparr>c_status := Superseded\<rparr>)"
| correction_failed: "c_status c = In_flight \<Longrightarrow> lifecycle c (c\<lparr>c_status := Failed\<rparr>)"
| receipt: "c_reconcile c = Awaiting \<or> (c_reconcile c = Rec_none \<and> c_status c = Delivered) \<Longrightarrow>
    s \<in> {Acknowledged, Receipt_failed} \<Longrightarrow> lifecycle c (c\<lparr>c_reconcile := s\<rparr>)"
| time_out: "c_reconcile c = Awaiting \<Longrightarrow> lifecycle c (c\<lparr>c_reconcile := Timed_out\<rparr>)"
| park_receipt: "c_status c = Delivered \<Longrightarrow> c_reconcile c = Receipt_failed \<Longrightarrow>
    lifecycle c (c\<lparr>c_status := Dead_lettered, c_dead := Some Receipt_failure_exhausted\<rparr>)"
| park_time_out: "c_reconcile c = Awaiting \<Longrightarrow>
    lifecycle c (c\<lparr>c_reconcile := Timed_out, c_status := Dead_lettered,
      c_dead := Some Receipt_timeout_exhausted\<rparr>)"
| requeue: "c_status c = Delivered \<Longrightarrow> c_reconcile c \<in> {Timed_out, Receipt_failed} \<Longrightarrow>
    lifecycle c (c\<lparr>c_status := Pending, c_reconcile := Rec_none\<rparr>)"
| revive: "c_status c = Dead_lettered \<Longrightarrow>
    lifecycle c (c\<lparr>c_status := Pending, c_reconcile := Rec_none, c_dead := None\<rparr>)"
| cancel: "c_status c = Pending \<Longrightarrow>
    lifecycle c (c\<lparr>c_status := Cancelled,
      c_release := (if c_release c = Some Held then Some Voided else c_release c)\<rparr>)"
| skip: "c_status c = Pending \<Longrightarrow> lifecycle c (c\<lparr>c_status := Relay_skipped, c_skip := Some r\<rparr>)"
| miss_cutoff: "c_status c \<in> {Pending, In_flight} \<Longrightarrow>
    lifecycle c (c\<lparr>c_status := Deadline_expired, c_release := cutoff_release (c_phase c) (c_release c)\<rparr>)"
| release: "c_status c = Pending \<Longrightarrow> c_release c = Some Held \<Longrightarrow> lifecycle c (c\<lparr>c_release := Some Released\<rparr>)"
| deny: "c_status c = Pending \<Longrightarrow> c_release c = Some Held \<Longrightarrow>
    lifecycle c (c\<lparr>c_status := Release_denied, c_release := Some Denied\<rparr>)"
| gate_expired: "c_status c = Pending \<Longrightarrow> c_release c = Some Held \<Longrightarrow>
    lifecycle c (c\<lparr>c_status := Release_expired, c_release := Some Expired\<rparr>)"
| gate_voided: "c_status c = Pending \<Longrightarrow> c_release c = Some Held \<Longrightarrow>
    lifecycle c (c\<lparr>c_status := Release_voided, c_release := Some Voided\<rparr>)"
| manual_void: "c_phase c = Body \<Longrightarrow> c_release c \<noteq> None \<Longrightarrow> c_status c \<notin> {In_flight, Delivered} \<Longrightarrow>
    c_dead c = None \<Longrightarrow> c_skip c = None \<Longrightarrow>
    lifecycle c (c\<lparr>c_status := Release_voided, c_release := Some Voided\<rparr>)"

inductive_cases lifecycle_from: "lifecycle c c'"

text \<open>
  What the columns of a copy say about each other in every state the program reaches: for
  each status the reconciliation states, the "has gone out" flag and the gate states that go
  with it, and the two reasons that are set exactly in their own terminal status.
\<close>

fun status_ok :: "delivery_status \<Rightarrow> reconcile_state \<Rightarrow> bool \<Rightarrow> release_state option \<Rightarrow> bool" where
  "status_ok Pending rec sent r = (rec = Rec_none \<and> r \<in> {None, Some Held, Some Released})"
| "status_ok In_flight rec sent r = (rec = Rec_none \<and> gate_open r)"
| "status_ok Delivered rec sent r = (sent \<and> gate_open r)"
| "status_ok Dead_lettered rec sent r = (rec \<in> {Rec_none, Receipt_failed, Timed_out} \<and> gate_open r)"
| "status_ok Failed rec sent r = (rec = Rec_none \<and> gate_open r)"
| "status_ok Cancelled rec sent r = (rec = Rec_none \<and> r \<in> {None, Some Released, Some Voided})"
| "status_ok Superseded rec sent r = (rec = Rec_none \<and> r \<in> {None, Some Held, Some Released})"
| "status_ok Relay_skipped rec sent r = (rec = Rec_none \<and> r \<in> {None, Some Held, Some Released})"
| "status_ok Deadline_expired rec sent r = (rec = Rec_none \<and> r \<in> {None, Some Cutoff_expired})"
| "status_ok Release_denied rec sent r = (rec = Rec_none \<and> r = Some Denied)"
| "status_ok Release_expired rec sent r = (rec = Rec_none \<and> r = Some Expired)"
| "status_ok Release_voided rec sent r = (rec = Rec_none \<and> r = Some Voided)"

definition copy_ok :: "copy \<Rightarrow> bool" where
  "copy_ok c \<longleftrightarrow>
     (c_status c = Dead_lettered) = (c_dead c \<noteq> None) \<and>
     (c_status c = Relay_skipped) = (c_skip c \<noteq> None) \<and>
     status_ok (c_status c) (c_reconcile c) (c_sent c) (c_release c) \<and>
     (c_phase c = Preview \<longrightarrow> c_release c = None)"

lemma status_ok_receipt_states:
  "status_ok s rec sent r \<Longrightarrow> rec \<in> {Awaiting, Acknowledged} \<Longrightarrow> s = Delivered"
  "status_ok s rec sent r \<Longrightarrow> rec \<noteq> Rec_none \<Longrightarrow> s = Delivered \<or> s = Dead_lettered"
  by (cases s, auto)+

lemma status_ok_gate:
  "status_ok s rec sent r \<Longrightarrow> s \<in> {In_flight, Delivered, Dead_lettered, Failed} \<Longrightarrow> gate_open r"
  by (cases s; simp)

lemma lifecycle_copy_ok:
  assumes "lifecycle c c'" and "copy_ok c"
  shows "copy_ok c'"
  using assms
proof (cases rule: lifecycle.cases)
  case (receipt s)
  with assms(2) show ?thesis
    by (cases "c_status c") (auto simp: copy_ok_def dest: status_ok_receipt_states)
next
  case time_out
  with assms(2) have "c_status c = Delivered"
    by (auto simp: copy_ok_def dest: status_ok_receipt_states)
  with time_out assms(2) show ?thesis by (simp add: copy_ok_def)
next
  case park_time_out
  with assms(2) have "c_status c = Delivered"
    by (auto simp: copy_ok_def dest: status_ok_receipt_states)
  with park_time_out assms(2) show ?thesis by (simp add: copy_ok_def)
next
  case miss_cutoff
  with assms(2) show ?thesis
    by (cases "c_phase c") (auto simp: copy_ok_def cutoff_release_def gate_open_def)
next
  case manual_void
  with assms(2) show ?thesis
    by (cases "c_status c") (auto simp: copy_ok_def)
qed (use assms(2) in \<open>auto simp: copy_ok_def gate_open_def\<close>)

lemma lifecycle_acknowledged:
  assumes "lifecycle c c'" and "copy_ok c" and "c_reconcile c = Acknowledged"
  shows "c_reconcile c' = Acknowledged \<and> c_status c' = Delivered"
proof -
  from assms(2,3) have "c_status c = Delivered"
    by (auto simp: copy_ok_def dest: status_ok_receipt_states)
  with assms(1,3) show ?thesis by (cases rule: lifecycle.cases) auto
qed

lemma lifecycle_sent: "lifecycle c c' \<Longrightarrow> c_sent c \<Longrightarrow> c_sent c'"
  by (cases rule: lifecycle.cases) auto

lemma lifecycle_phase: "lifecycle c c' \<Longrightarrow> c_phase c' = c_phase c"
  by (cases rule: lifecycle.cases) auto

lemma closed_status_reconcile:
  "copy_ok c \<Longrightarrow> closed_status (c_status c) \<Longrightarrow> c_reconcile c = Rec_none"
  by (cases "c_status c") (simp_all add: copy_ok_def closed_status_def)

lemma lifecycle_closed:
  assumes "lifecycle c c'" and "copy_ok c" and "closed_status (c_status c)"
  shows "closed_status (c_status c') \<and> (c_sent c' = c_sent c) \<and>
    (c_status c' = c_status c \<or> c_status c' = Release_voided)"
proof -
  have "c_reconcile c = Rec_none"
    using assms(2,3) by (rule closed_status_reconcile)
  with assms(1,3) show ?thesis
    by (cases rule: lifecycle.cases) (auto simp: closed_status_def)
qed

lemma lifecycle_ungated:
  assumes "lifecycle c c'"
  shows "(c_release c' = None) = (c_release c = None)"
  using assms by (cases rule: lifecycle.cases) (auto simp: cutoff_release_def)

lemma lifecycle_in_flight: "lifecycle c c' \<Longrightarrow> c_status c' = In_flight \<Longrightarrow> c_status c = In_flight"
  by (cases rule: lifecycle.cases) auto

lemma lifecycle_sent_from: "lifecycle c c' \<Longrightarrow> c_sent c' \<Longrightarrow> c_sent c \<or> c_status c = In_flight"
  by (cases rule: lifecycle.cases) auto

text \<open>Several steps: one transaction may take a copy along more than one edge.\<close>

abbreviation lifecycles :: "copy \<Rightarrow> copy \<Rightarrow> bool" where
  "lifecycles \<equiv> lifecycle\<^sup>*\<^sup>*"

lemma lifecycles_copy_ok: "lifecycles c c' \<Longrightarrow> copy_ok c \<Longrightarrow> copy_ok c'"
  by (induction rule: rtranclp_induct) (auto intro: lifecycle_copy_ok)

lemma lifecycles_acknowledged:
  assumes "lifecycles c c'" and "copy_ok c" and "c_reconcile c = Acknowledged"
  shows "c_reconcile c' = Acknowledged \<and> c_status c' = Delivered"
  using assms
proof (induction rule: rtranclp_induct)
  case base
  then show ?case by (auto simp: copy_ok_def dest: status_ok_receipt_states)
next
  case (step c1 c2)
  then have "copy_ok c1" by (blast intro: lifecycles_copy_ok)
  with step show ?case by (blast dest: lifecycle_acknowledged)
qed

lemma lifecycles_sent: "lifecycles c c' \<Longrightarrow> c_sent c \<Longrightarrow> c_sent c'"
  by (induction rule: rtranclp_induct) (auto intro: lifecycle_sent)

lemma lifecycles_closed:
  assumes "lifecycles c c'" and "copy_ok c" and "closed_status (c_status c)"
  shows "closed_status (c_status c') \<and> (c_sent c' = c_sent c) \<and>
    (c_status c' = c_status c \<or> c_status c' = Release_voided)"
  using assms
proof (induction rule: rtranclp_induct)
  case base
  then show ?case by simp
next
  case (step c1 c2)
  then have "copy_ok c1" by (blast intro: lifecycles_copy_ok)
  with step lifecycle_closed [of c1 c2] show ?case by auto
qed

lemma lifecycles_ungated: "lifecycles c c' \<Longrightarrow> (c_release c' = None) = (c_release c = None)"
  by (induction rule: rtranclp_induct) (auto simp: lifecycle_ungated)

lemma lifecycles_in_flight: "lifecycles c c' \<Longrightarrow> c_status c' = In_flight \<Longrightarrow> c_status c = In_flight"
  by (induction rule: rtranclp_induct) (auto dest: lifecycle_in_flight)

lemma lifecycles_sent_from: "lifecycles c c' \<Longrightarrow> c_sent c' \<Longrightarrow> c_sent c \<or> c_status c = In_flight"
  by (induction rule: rtranclp_induct) (auto dest: lifecycle_sent_from lifecycles_in_flight)

section \<open>Rows and whole tables\<close>

text \<open>The columns a copy is born with; nothing rewrites them.\<close>

definition same_snapshot :: "delivery \<Rightarrow> delivery \<Rightarrow> bool" where
  "same_snapshot d d' \<longleftrightarrow>
     d_id d' = d_id d \<and> d_event_id d' = d_event_id d \<and> d_destination_id d' = d_destination_id d \<and>
     d_event_type d' = d_event_type d \<and> d_dedupe_key d' = d_dedupe_key d \<and>
     d_payload d' = d_payload d \<and> d_destination_seq d' = d_destination_seq d \<and>
     d_confirmation_generation d' = d_confirmation_generation d \<and>
     d_observe_only d' = d_observe_only d \<and> d_filter_spec d' = d_filter_spec d \<and>
     d_phase d' = d_phase d \<and> d_consent_timeout_seconds d' = d_consent_timeout_seconds d \<and>
     d_preview_delivery_id d' = d_preview_delivery_id d \<and>
     d_body_delivery_id d' = d_body_delivery_id d \<and>
     d_relay_chain_id d' = d_relay_chain_id d \<and> d_relay_station_no d' = d_relay_station_no d \<and>
     d_created_at d' = d_created_at d"

definition counters_grow :: "delivery \<Rightarrow> delivery \<Rightarrow> bool" where
  "counters_grow d d' \<longleftrightarrow> d_attempts d \<le> d_attempts d' \<and>
     (0 \<le> d_requeue_count d \<longrightarrow> 0 \<le> d_requeue_count d') \<and>
     (0 \<le> d_consecutive_failures d \<longrightarrow> 0 \<le> d_consecutive_failures d')"

definition row_evolves :: "delivery \<Rightarrow> delivery \<Rightarrow> bool" where
  "row_evolves d d' \<longleftrightarrow> same_snapshot d d' \<and> counters_grow d d' \<and> lifecycles (copy_of d) (copy_of d')"

lemma same_snapshot_refl [simp]: "same_snapshot d d"
  by (simp add: same_snapshot_def)

lemma same_snapshot_trans: "same_snapshot d1 d2 \<Longrightarrow> same_snapshot d2 d3 \<Longrightarrow> same_snapshot d1 d3"
  by (simp add: same_snapshot_def)

lemma row_evolves_refl [simp]: "row_evolves d d"
  by (simp add: row_evolves_def counters_grow_def)

lemma row_evolves_trans: "row_evolves d1 d2 \<Longrightarrow> row_evolves d2 d3 \<Longrightarrow> row_evolves d1 d3"
  by (auto simp: row_evolves_def counters_grow_def intro: same_snapshot_trans)

text \<open>One rewrite of a row along one edge of the machine.\<close>

lemma row_evolves_step:
  "same_snapshot d d' \<Longrightarrow> counters_grow d d' \<Longrightarrow> lifecycle (copy_of d) (copy_of d') \<Longrightarrow> row_evolves d d'"
  by (auto simp: row_evolves_def)

lemma row_evolves_edge:
  "lifecycle (copy_of d) c' \<Longrightarrow> copy_of d' = c' \<Longrightarrow> same_snapshot d d' \<Longrightarrow> counters_grow d d' \<Longrightarrow>
   row_evolves d d'"
  by (auto simp: row_evolves_def)

lemma row_evolves_stay:
  "copy_of d' = copy_of d \<Longrightarrow> same_snapshot d d' \<Longrightarrow> counters_grow d d' \<Longrightarrow> row_evolves d d'"
  by (rule row_evolves_edge [OF lifecycle.stay])

text \<open>
  The three shapes of a copy: ordinary, one of a gated pair (a body points at its preview exactly
  when it has a gate), or a relay station.
\<close>

definition copy_shape :: "delivery \<Rightarrow> bool" where
  "copy_shape d \<longleftrightarrow> (d_release_state d = None) = (d_preview_delivery_id d = None) \<and>
     (d_relay_chain_id d = None \<or> (d_phase d = Body \<and> d_preview_delivery_id d = None))"

text \<open>A row as an INSERT of this program leaves it: queued, never sent, and of one of three shapes.\<close>

definition fresh_row :: "delivery \<Rightarrow> bool" where
  "fresh_row d \<longleftrightarrow> d_status d = Pending \<and> d_reconcile_state d = Rec_none \<and>
     d_delivered_at d = None \<and> d_dead_letter_reason d = None \<and> d_relay_skip_reason d = None \<and>
     (d_release_state d = None \<or> d_release_state d = Some Held \<and> d_phase d = Body) \<and>
     delivery_check d \<and> copy_shape d"

lemma fresh_row_copy_ok: "fresh_row d \<Longrightarrow> copy_ok (copy_of d)"
  by (auto simp: fresh_row_def copy_ok_def)

text \<open>
  A transaction rewrites the rows that were there, each along the machine, and appends rows
  it inserted (which it may have rewritten before it ended).
\<close>

definition born :: "delivery \<Rightarrow> bool" where
  "born d \<longleftrightarrow> (\<exists>d0. fresh_row d0 \<and> row_evolves d0 d)"

definition evolves :: "database \<Rightarrow> database \<Rightarrow> bool" where
  "evolves db db' \<longleftrightarrow> (\<exists>rows new. deliveries db' = rows @ new \<and>
     list_all2 row_evolves (deliveries db) rows \<and> list_all born new)"

lemma born_fresh: "fresh_row d \<Longrightarrow> born d"
  unfolding born_def using row_evolves_refl by blast

lemma born_evolves: "born d \<Longrightarrow> row_evolves d d' \<Longrightarrow> born d'"
  unfolding born_def using row_evolves_trans by blast

lemma list_all2_row_evolves_refl [simp]: "list_all2 row_evolves rows rows"
  by (simp add: list_all2_same)

lemma evolves_same [simp]: "deliveries db' = deliveries db \<Longrightarrow> evolves db db'"
  unfolding evolves_def by (rule exI [of _ "deliveries db"], rule exI [of _ "[]"]) simp

lemma evolves_refl: "evolves db db"
  by simp

lemma list_all_born_evolves: "list_all2 row_evolves rows rows' \<Longrightarrow> list_all born rows \<Longrightarrow> list_all born rows'"
  by (induction rule: list_all2_induct) (auto intro: born_evolves)

lemma evolves_trans:
  assumes "evolves db1 db2" and "evolves db2 db3"
  shows "evolves db1 db3"
proof -
  from assms(1) obtain rows new where 1: "deliveries db2 = rows @ new"
    "list_all2 row_evolves (deliveries db1) rows" "list_all born new"
    by (auto simp: evolves_def)
  from assms(2) obtain rows2 new2 where 2: "deliveries db3 = rows2 @ new2"
    "list_all2 row_evolves (rows @ new) rows2" "list_all born new2"
    by (auto simp: evolves_def 1(1))
  from 2(2) obtain r n where split: "rows2 = r @ n" "list_all2 row_evolves rows r"
    "list_all2 row_evolves new n"
    by (auto simp: list_all2_append1)
  have "list_all2 row_evolves (deliveries db1) r"
    by (rule list_all2_trans [OF row_evolves_trans 1(2) split(2)])
  moreover have "list_all born (n @ new2)"
    using list_all_born_evolves [OF split(3) 1(3)] 2(3) by simp
  ultimately show ?thesis
    unfolding evolves_def using 2(1) split(1) by (metis append.assoc)
qed

lemma evolves_update:
  assumes "\<And>d. d \<in> set (deliveries db) \<Longrightarrow> P d \<Longrightarrow> row_evolves d (f d)"
    and "deliveries db' = sql_update P f (deliveries db)"
  shows "evolves db db'"
proof -
  have "list_all2 row_evolves (deliveries db) (sql_update P f (deliveries db))"
    by (rule list_all2_sql_update) (simp_all add: assms(1))
  then show ?thesis
    unfolding evolves_def assms(2)
    by (intro exI [of _ "sql_update P f (deliveries db)"] exI [of _ "[]"]) simp
qed

lemma evolves_insert:
  assumes "list_all fresh_row new" and "deliveries db' = deliveries db @ new"
  shows "evolves db db'"
proof -
  have "list_all born new"
    using assms(1) by (auto simp: list_all_iff intro: born_fresh)
  with assms(2) show ?thesis
    unfolding evolves_def using list_all2_row_evolves_refl by blast
qed

text \<open>The two ways a row of the later table came about.\<close>

lemma evolves_row_cases:
  assumes "evolves db db'" and "d' \<in> set (deliveries db')"
  obtains (old) d where "d \<in> set (deliveries db)" "row_evolves d d'" | (new) "born d'"
proof -
  from assms(1) obtain rows new where 1: "deliveries db' = rows @ new"
    "list_all2 row_evolves (deliveries db) rows" "list_all born new"
    by (auto simp: evolves_def)
  from assms(2) 1(1) consider "d' \<in> set rows" | "d' \<in> set new" by auto
  then show thesis
  proof cases
    case 1
    then obtain i where i: "i < length rows" "d' = rows ! i"
      by (auto simp: in_set_conv_nth)
    with \<open>list_all2 row_evolves (deliveries db) rows\<close>
    have "deliveries db ! i \<in> set (deliveries db)" "row_evolves (deliveries db ! i) d'"
      by (simp_all add: list_all2_conv_all_nth)
    then show thesis by (rule old)
  next
    case 2
    with 1(3) show thesis by (auto simp: list_all_iff intro: new)
  qed
qed

lemma evolves_row_forward:
  assumes "evolves db db'" and "d \<in> set (deliveries db)"
  obtains d' where "d' \<in> set (deliveries db')" "row_evolves d d'"
proof -
  from assms(1) obtain rows new where "deliveries db' = rows @ new"
    "list_all2 row_evolves (deliveries db) rows"
    by (auto simp: evolves_def)
  with assms(2) that show thesis
    by (fastforce simp: in_set_conv_nth list_all2_conv_all_nth nth_append)
qed

definition row_ok :: "delivery \<Rightarrow> bool" where
  "row_ok d \<longleftrightarrow> delivery_check d \<and> copy_ok (copy_of d) \<and> copy_shape d"

definition copies_ok :: "database \<Rightarrow> bool" where
  "copies_ok db \<longleftrightarrow> (\<forall>d \<in> set (deliveries db). row_ok d)"

lemma row_ok_in: "copies_ok db \<Longrightarrow> d \<in> set (deliveries db) \<Longrightarrow> row_ok d"
  by (simp add: copies_ok_def)

lemma row_ok_gated_body: "row_ok d \<Longrightarrow> d_release_state d \<noteq> None \<Longrightarrow> d_phase d = Body"
  by (cases "d_phase d") (auto simp: row_ok_def copy_ok_def)

lemma row_evolves_ok: "row_evolves d d' \<Longrightarrow> row_ok d \<Longrightarrow> row_ok d'"
proof -
  assume ev: "row_evolves d d'" and ok: "row_ok d"
  then have c: "copy_ok (copy_of d')"
    by (auto simp: row_evolves_def row_ok_def intro: lifecycles_copy_ok)
  have "(d_status d' = Relay_skipped) = (d_relay_skip_reason d' \<noteq> None)"
    and "(d_status d' = Dead_lettered) = (d_dead_letter_reason d' \<noteq> None)"
    using c by (simp_all add: copy_ok_def)
  moreover have "copy_shape d'"
    using ev ok lifecycles_ungated [of "copy_of d" "copy_of d'"]
    by (auto simp: copy_shape_def row_ok_def row_evolves_def same_snapshot_def)
  ultimately show "row_ok d'"
    using ev ok c
    by (auto simp: row_ok_def delivery_check_def row_evolves_def same_snapshot_def counters_grow_def)
qed

lemma fresh_row_ok: "fresh_row d \<Longrightarrow> row_ok d"
  by (simp add: row_ok_def fresh_row_copy_ok) (simp add: fresh_row_def)

lemma evolves_copies_ok: "evolves db db' \<Longrightarrow> copies_ok db \<Longrightarrow> copies_ok db'"
  unfolding copies_ok_def
proof
  fix d'
  assume ev: "evolves db db'" and ok: "\<forall>d \<in> set (deliveries db). row_ok d"
    and d': "d' \<in> set (deliveries db')"
  show "row_ok d'"
  proof (rule evolves_row_cases [OF ev d'])
    fix d assume "d \<in> set (deliveries db)" "row_evolves d d'"
    with ok show ?thesis by (blast intro: row_evolves_ok)
  next
    assume "born d'"
    then show ?thesis by (auto simp: born_def intro: row_evolves_ok fresh_row_ok)
  qed
qed

text \<open>No row is in flight, or marked sent, that was not in flight before (or sent before).\<close>

lemma row_evolves_in_flight: "row_evolves d d' \<Longrightarrow> d_status d' = In_flight \<Longrightarrow> d_status d = In_flight"
  by (auto simp: row_evolves_def dest: lifecycles_in_flight)

lemma row_evolves_sent_from:
  "row_evolves d d' \<Longrightarrow> d_delivered_at d' \<noteq> None \<Longrightarrow> d_delivered_at d \<noteq> None \<or> d_status d = In_flight"
  using lifecycles_sent_from [of "copy_of d" "copy_of d'"] by (auto simp: row_evolves_def)

lemma row_evolves_acknowledged:
  "row_evolves d d' \<Longrightarrow> row_ok d \<Longrightarrow> d_reconcile_state d = Acknowledged \<Longrightarrow>
   d_reconcile_state d' = Acknowledged \<and> d_status d' = Delivered"
  using lifecycles_acknowledged [of "copy_of d" "copy_of d'"]
  by (auto simp: row_evolves_def row_ok_def)

lemma row_evolves_snapshot: "row_evolves d d' \<Longrightarrow> same_snapshot d d'"
  by (simp add: row_evolves_def)

lemma born_not_sent: "born d \<Longrightarrow> d_status d \<noteq> In_flight \<and> d_delivered_at d = None"
  using row_evolves_sent_from row_evolves_in_flight by (fastforce simp: born_def fresh_row_def)

section \<open>The claim\<close>

text \<open>The one edge into \<open>in_flight\<close>: a queued copy whose gate is open.\<close>

definition claimed_row :: "delivery \<Rightarrow> delivery \<Rightarrow> bool" where
  "claimed_row d d' \<longleftrightarrow> same_snapshot d d' \<and> counters_grow d d' \<and>
     d_status d = Pending \<and> gate_open (d_release_state d) \<and> d_status d' = In_flight \<and>
     d_reconcile_state d' = d_reconcile_state d \<and> d_release_state d' = d_release_state d \<and>
     d_delivered_at d' = d_delivered_at d \<and> d_dead_letter_reason d' = d_dead_letter_reason d \<and>
     d_relay_skip_reason d' = d_relay_skip_reason d"

lemma claimed_row_ok:
  assumes "claimed_row d d'" and "row_ok d"
  shows "row_ok d'"
proof -
  have "copy_ok (copy_of d')"
    using assms
    by (auto simp: claimed_row_def same_snapshot_def row_ok_def copy_ok_def)
  moreover have "delivery_check d'"
    using assms
    by (auto simp: claimed_row_def row_ok_def delivery_check_def same_snapshot_def counters_grow_def)
  moreover have "copy_shape d'"
    using assms by (simp add: claimed_row_def row_ok_def copy_shape_def same_snapshot_def)
  ultimately show ?thesis by (simp add: row_ok_def)
qed

section \<open>The interface of an operation\<close>

definition destinations_ok :: "database \<Rightarrow> bool" where
  "destinations_ok db \<longleftrightarrow> (\<forall>d \<in> set (destinations db). destination_check d)"

text \<open>PRIMARY KEY (id), UNIQUE (destination_id, destination_seq), UNIQUE (destination_id, dedupe_key).\<close>

definition keys_ok :: "database \<Rightarrow> bool" where
  "keys_ok db \<longleftrightarrow> distinct (map d_id (deliveries db)) \<and>
     distinct (map (\<lambda>d. (d_destination_id d, d_destination_seq d)) (deliveries db)) \<and>
     distinct (map (\<lambda>d. (d_destination_id d, d_dedupe_key d)) (deliveries db))"

definition db_ok :: "database \<Rightarrow> bool" where
  "db_ok db \<longleftrightarrow> copies_ok db \<and> destinations_ok db \<and> keys_ok db"

lemma db_okD [dest]: "db_ok db \<Longrightarrow> copies_ok db" "db_ok db \<Longrightarrow> destinations_ok db" "db_ok db \<Longrightarrow> keys_ok db"
  by (simp_all add: db_ok_def)

lemmas db_ok_copies = db_okD(1) and db_ok_destinations = db_okD(2) and db_ok_keys = db_okD(3)

lemma keys_ok_id:
  "keys_ok db \<Longrightarrow> d \<in> set (deliveries db) \<Longrightarrow> d' \<in> set (deliveries db) \<Longrightarrow> d_id d = d_id d' \<Longrightarrow> d = d'"
  by (auto simp: keys_ok_def distinct_map inj_on_def)

text \<open>A row selected by the ids of some rows of the table is one of them.\<close>

lemma keys_ok_member:
  assumes "keys_ok db" and "set rows \<subseteq> set (deliveries db)" and "d \<in> set (deliveries db)"
    and "d_id d \<in> set (map d_id rows)"
  shows "d \<in> set rows"
proof -
  from assms(4) obtain x where x: "x \<in> set rows" "d_id x = d_id d" by auto
  then have "x = d"
    using keys_ok_id [OF assms(1)] assms(2,3) by blast
  with x show ?thesis by simp
qed

lemma find_delivery_in:
  assumes "keys_ok db" and "d \<in> set (deliveries db)"
  shows "find_delivery db (d_id d) = Some d"
proof (cases "find_delivery db (d_id d)")
  case None
  with assms(2) show ?thesis by (auto simp: find_delivery_def first_row_None)
next
  case (Some d')
  with assms show ?thesis
    by (auto dest!: find_delivery_key intro: keys_ok_id [OF assms(1), symmetric])
qed

lemma keys_ok_rows:
  assumes "list_all2 same_snapshot (deliveries db) rows" and "deliveries db' = rows" and "keys_ok db"
  shows "keys_ok db'"
proof -
  have "map d_id rows = map d_id (deliveries db)"
    and "map (\<lambda>d. (d_destination_id d, d_destination_seq d)) rows
      = map (\<lambda>d. (d_destination_id d, d_destination_seq d)) (deliveries db)"
    and "map (\<lambda>d. (d_destination_id d, d_dedupe_key d)) rows
      = map (\<lambda>d. (d_destination_id d, d_dedupe_key d)) (deliveries db)"
    using assms(1) by (induction rule: list_all2_induct) (simp_all add: same_snapshot_def)
  with assms(2,3) show ?thesis by (simp add: keys_ok_def)
qed

lemma destinations_ok_same: "destinations db' = destinations db \<Longrightarrow> destinations_ok db \<Longrightarrow> destinations_ok db'"
  by (simp add: destinations_ok_def)

lemma destinations_ok_sql_update:
  assumes "\<And>d. destination_check d \<Longrightarrow> P d \<Longrightarrow> destination_check (f d)"
    and "destinations db' = sql_update P f (destinations db)" and "destinations_ok db"
  shows "destinations_ok db'"
  using assms by (auto simp: destinations_ok_def set_sql_update)

lemma destinations_ok_row_update:
  assumes "\<And>d. destination_check d \<Longrightarrow> destination_check (f d)" and "destinations_ok db"
  shows "destinations_ok (update_destination_row i f db)"
  by (rule destinations_ok_sql_update [OF _ _ assms(2), where f = f])
    (simp_all add: assms(1) update_destination_row_def)

text \<open>
  A transaction keeps the tables when the copies evolve and the destinations satisfy their
  CHECK constraints. \<open>keeps\<close> composes, so a handler is proved statement by statement.
\<close>

definition keeps :: "database \<Rightarrow> database \<Rightarrow> bool" where
  "keeps db db' \<longleftrightarrow> evolves db db' \<and> (destinations_ok db \<longrightarrow> destinations_ok db') \<and>
     (keys_ok db \<longrightarrow> keys_ok db')"

lemma keeps_refl [simp]: "keeps db db"
  by (simp add: keeps_def)

lemma keeps_trans [trans]: "keeps db1 db2 \<Longrightarrow> keeps db2 db3 \<Longrightarrow> keeps db1 db3"
  by (auto simp: keeps_def intro: evolves_trans)

lemma keeps_db_ok: "keeps db db' \<Longrightarrow> db_ok db \<Longrightarrow> db_ok db'"
  by (auto simp: keeps_def db_ok_def intro: evolves_copies_ok)

lemma keeps_same:
  "deliveries db' = deliveries db \<Longrightarrow> destinations db' = destinations db \<Longrightarrow> keeps db db'"
  by (simp add: keeps_def destinations_ok_def keys_ok_def)

lemma keeps_update_deliveries:
  assumes "\<And>d. d \<in> set (deliveries db) \<Longrightarrow> P d \<Longrightarrow> row_evolves d (f d)"
  shows "keeps db (update_deliveries P f db)"
proof -
  have "list_all2 same_snapshot (deliveries db) (sql_update P f (deliveries db))"
    by (rule list_all2_sql_update) (simp_all add: assms row_evolves_snapshot)
  then have "keys_ok db \<longrightarrow> keys_ok (update_deliveries P f db)"
    using keys_ok_rows by auto
  moreover have "evolves db (update_deliveries P f db)"
    by (rule evolves_update [where P = P and f = f]) (simp_all add: assms)
  ultimately show ?thesis
    by (simp add: keeps_def destinations_ok_def)
qed

lemma keeps_update_destination:
  assumes "\<And>d. destination_check d \<Longrightarrow> destination_check (f d)"
  shows "keeps db (update_destination_row i f db)"
  by (simp add: keeps_def assms destinations_ok_row_update keys_ok_def)

lemma keeps_update_event: "keeps db (update_event_row i f db)"
  by (rule keeps_same) simp_all

lemma keeps_fold:
  assumes "\<And>x db. keeps db (f x db)"
  shows "keeps db (fold f xs db)"
proof (induction xs arbitrary: db)
  case Nil
  then show ?case by simp
next
  case (Cons x xs)
  show ?case
    by (simp, rule keeps_trans [OF assms Cons.IH])
qed

text \<open>Rows an INSERT accepted: the table constraints were checked against every row.\<close>

definition delivery_unique :: "delivery \<Rightarrow> delivery list \<Rightarrow> bool" where
  "delivery_unique d rows \<longleftrightarrow> (\<forall>r \<in> set rows. d_id r \<noteq> d_id d \<and>
     (d_destination_id r = d_destination_id d \<longrightarrow>
       d_destination_seq r \<noteq> d_destination_seq d \<and> d_dedupe_key r \<noteq> d_dedupe_key d))"

lemma keys_ok_insert:
  assumes "deliveries db' = deliveries db @ [d]" and "delivery_unique d (deliveries db)" and "keys_ok db"
  shows "keys_ok db'"
  using assms by (auto simp: keys_ok_def delivery_unique_def)

text \<open>
  What every operation on the database promises: on a well-formed database it keeps the
  tables. The invariant, the permanence of an acknowledged and of a closed copy, and the
  immutability of the snapshots follow for each operation that keeps the promise.
\<close>

locale delivery_operation =
  fixes run :: "database \<Rightarrow> database"
  assumes run_keeps: "db_ok db \<Longrightarrow> keeps db (run db)"
begin

lemma keeps_ok: "db_ok db \<Longrightarrow> db_ok (run db)"
  by (blast intro: run_keeps keeps_db_ok)

lemma run_evolves: "db_ok db \<Longrightarrow> evolves db (run db)"
  using run_keeps by (simp add: keeps_def)

lemma keeps_row:
  assumes "db_ok db" and "d \<in> set (deliveries db)"
  obtains d' where "d' \<in> set (deliveries (run db))" "row_evolves d d'"
  using evolves_row_forward [OF run_evolves [OF assms(1)] assms(2)] by blast

lemma keeps_acknowledged:
  assumes "db_ok db" and "d \<in> set (deliveries db)" and "d_reconcile_state d = Acknowledged"
  shows "\<exists>d' \<in> set (deliveries (run db)). same_snapshot d d' \<and> d_reconcile_state d' = Acknowledged
    \<and> d_status d' = Delivered"
proof -
  from assms(1,2) have "row_ok d" by (simp add: db_ok_def copies_ok_def)
  moreover obtain d' where "d' \<in> set (deliveries (run db))" "row_evolves d d'"
    using keeps_row [OF assms(1,2)] by blast
  ultimately show ?thesis
    using assms(3) row_evolves_acknowledged row_evolves_snapshot by blast
qed

lemma keeps_closed:
  assumes "db_ok db" and "d \<in> set (deliveries db)" and "closed_status (d_status d)"
  shows "\<exists>d' \<in> set (deliveries (run db)). same_snapshot d d' \<and> closed_status (d_status d')"
proof -
  from assms(1,2) have "copy_ok (copy_of d)" by (simp add: db_ok_def copies_ok_def row_ok_def)
  moreover obtain d' where "d' \<in> set (deliveries (run db))" "row_evolves d d'"
    using keeps_row [OF assms(1,2)] by blast
  ultimately show ?thesis
    using assms(3) lifecycles_closed [of "copy_of d" "copy_of d'"]
    by (auto simp: row_evolves_def)
qed

end

section \<open>Requests\<close>

text \<open>
  What a request handler can end in: an HTTP error with its status code, or an error of the
  database that the handler does not catch (a constraint violation, a bad cast, a row that \<open>.one()\<close> did not find, a non-ASCII operand of \<open>compare_digest\<close>), which the
  framework turns into a 500. Either way the transaction is rolled back: \<open>committed\<close> is the
  database a request leaves behind.
\<close>

datatype api_error = Http int | Constraint_violation | Bad_cast | No_result | Type_error

definition committed :: "('e + 'r \<times> database) \<Rightarrow> database \<Rightarrow> database" where
  "committed outcome db = (case outcome of Inl _ \<Rightarrow> db | Inr (_, db') \<Rightarrow> db')"

lemma committed_simps [simp]:
  "committed (Inl err) db = db" "committed (Inr (r, db')) db = db'"
  by (simp_all add: committed_def)

text \<open>A request as an operation: what it commits keeps the tables.\<close>

lemma keeps_committed:
  assumes "\<And>r db'. outcome = Inr (r, db') \<Longrightarrow> keeps db db'"
  shows "keeps db (committed outcome db)"
proof (cases outcome)
  case (Inr p)
  then show ?thesis using assms by (cases p) simp
qed simp

end
