(* ===== verification/Subfilters.thy ===== *)
theory Subfilters
  imports Json
begin

text \<open>
  app/subfilters.py: subscription conditions. \<open>evaluate\<close> is the evaluator (None: it raises),
  \<open>validate_filter_spec\<close> the check at write time (None: FilterSpecError) with its canonical form.
\<close>

section \<open>Evaluation\<close>

definition leaf_ops :: "string list" where
  "leaf_ops = [''eq'', ''ne'', ''gt'', ''gte'', ''lt'', ''lte'', ''in'', ''exists'',
     ''starts_with'', ''ends_with'', ''contains'']"

definition ordering_ops :: "string list" where
  "ordering_ops = [''gt'', ''gte'', ''lt'', ''lte'']"

definition string_ops :: "string list" where
  "string_ops = [''starts_with'', ''ends_with'', ''contains'']"

datatype resolved = Raises | Missing | Found json

fun resolve_segments :: "json \<Rightarrow> string list \<Rightarrow> resolved" where
  "resolve_segments current [] = Found current"
| "resolve_segments (JObj fs) (s # rest) =
     (case map_of fs s of None \<Rightarrow> Missing | Some v \<Rightarrow> resolve_segments v rest)"
| "resolve_segments (JArr xs) (s # rest) =
     (if py_isdigit s
      then (case py_int s of None \<Rightarrow> Raises
            | Some i \<Rightarrow> if length xs \<le> i then Missing else resolve_segments (xs ! i) rest)
      else Missing)"
| "resolve_segments _ (s # rest) = Missing"

definition resolve_path :: "json \<Rightarrow> string \<Rightarrow> resolved" where
  "resolve_path payload path = resolve_segments payload (py_split CHR ''.'' path)"

text \<open>Python's order on two numbers or two strings.\<close>

fun py_less :: "json \<Rightarrow> json \<Rightarrow> bool" where
  "py_less (JStr a) (JStr b) = string_less a b"
| "py_less a b = (case (num_of a, num_of b) of (Some x, Some y) \<Rightarrow> fl_less x y | _ \<Rightarrow> False)"

fun py_same :: "json \<Rightarrow> json \<Rightarrow> bool" where
  "py_same (JStr a) (JStr b) = (a = b)"
| "py_same a b = (case (num_of a, num_of b) of (Some x, Some y) \<Rightarrow> fl_eq x y | _ \<Rightarrow> False)"

definition comparable :: "json \<Rightarrow> json \<Rightarrow> bool" where
  "comparable a b \<longleftrightarrow> (is_number a \<and> is_number b) \<or> (is_string a \<and> is_string b)"

definition ordering_holds :: "string \<Rightarrow> json \<Rightarrow> json \<Rightarrow> bool" where
  "ordering_holds op a b =
     (if op = ''gt'' then py_less b a
      else if op = ''gte'' then py_less b a \<or> py_same a b
      else if op = ''lt'' then py_less a b
      else py_less a b \<or> py_same a b)"

text \<open>Iterating the operand of \<open>in\<close>: a list, the characters of a string, the keys of a dict.\<close>

fun py_members :: "json \<Rightarrow> json list option" where
  "py_members (JArr xs) = Some xs"
| "py_members (JStr s) = Some (map (\<lambda>c. JStr [c]) s)"
| "py_members (JObj fs) = Some (map (JStr \<circ> fst) fs)"
| "py_members _ = None"

fun string_holds :: "string \<Rightarrow> json \<Rightarrow> json \<Rightarrow> bool" where
  "string_holds op (JStr a) (JStr b) =
     (if op = ''starts_with'' then starts_with a b
      else if op = ''ends_with'' then ends_with a b
      else contains_sub a b)"
| "string_holds op _ _ = False"

definition leaf_matches :: "string \<Rightarrow> string \<Rightarrow> json \<Rightarrow> json \<Rightarrow> bool option" where
  "leaf_matches op path operand payload =
     (case resolve_path payload path of
        Raises \<Rightarrow> None
      | Missing \<Rightarrow> Some False
      | Found actual \<Rightarrow>
          if op = ''exists'' then Some True
          else if op = ''eq'' then Some (json_equal actual operand)
          else if op = ''ne'' then Some (\<not> json_equal actual operand)
          else if op \<in> set ordering_ops
            then Some (comparable actual operand \<and> ordering_holds op actual operand)
          else if op = ''in'' then map_option (list_ex (json_equal actual)) (py_members operand)
          else Some (string_holds op actual operand))"

definition field :: "(string \<times> json) list \<Rightarrow> string \<Rightarrow> json" where
  "field fs k = (case map_of fs k of None \<Rightarrow> JNull | Some v \<Rightarrow> v)"

fun evaluate_leaf :: "(string \<times> json) list \<Rightarrow> json \<Rightarrow> bool option" where
  "evaluate_leaf fs payload =
     (case field fs ''op'' of
        JArr _ \<Rightarrow> None
      | JObj _ \<Rightarrow> None
      | JStr op \<Rightarrow>
          (case field fs ''path'' of
             JStr path \<Rightarrow> if op \<in> set leaf_ops then leaf_matches op path (field fs ''value'') payload
                          else Some False
           | _ \<Rightarrow> Some False)
      | _ \<Rightarrow> Some False)"

lemma size_list_member [termination_simp]:
  "map_of fs k = Some (JArr ms) \<Longrightarrow> size_list size ms < Suc (size_list (\<lambda>x. Suc (size (snd x))) fs)"
  using size_obj_lookup [of fs k "JArr ms"] by simp

fun evaluate :: "json \<Rightarrow> json \<Rightarrow> bool option"
and evaluate_all :: "json list \<Rightarrow> json \<Rightarrow> bool option"
and evaluate_any :: "json list \<Rightarrow> json \<Rightarrow> bool option" where
  "evaluate (JObj fs) payload =
     (case map_of fs ''all'' of
        Some (JArr ms) \<Rightarrow> evaluate_all ms payload
      | Some _ \<Rightarrow> Some False
      | None \<Rightarrow>
        (case map_of fs ''any'' of
           Some (JArr ms) \<Rightarrow> evaluate_any ms payload
         | Some _ \<Rightarrow> Some False
         | None \<Rightarrow>
           (case map_of fs ''not'' of
              Some inner \<Rightarrow> if is_dict inner then map_option Not (evaluate inner payload) else Some False
            | None \<Rightarrow> evaluate_leaf fs payload)))"
| "evaluate _ payload = Some False"
| "evaluate_all [] payload = Some True"
| "evaluate_all (m # ms) payload =
     (if \<not> is_dict m then Some False
      else (case evaluate m payload of
              None \<Rightarrow> None | Some False \<Rightarrow> Some False | Some True \<Rightarrow> evaluate_all ms payload))"
| "evaluate_any [] payload = Some False"
| "evaluate_any (m # ms) payload =
     (if \<not> is_dict m then evaluate_any ms payload
      else (case evaluate m payload of
              None \<Rightarrow> None | Some True \<Rightarrow> Some True | Some False \<Rightarrow> evaluate_any ms payload))"

section \<open>Validation\<close>

definition max_nesting_depth :: nat where "max_nesting_depth = 8"
definition max_nodes :: nat where "max_nodes = 100"
definition max_path_length :: nat where "max_path_length = 512"
definition max_in_list :: nat where "max_in_list = 100"
definition max_string_operand_length :: nat where "max_string_operand_length = 4096"

fun finite_json :: "json \<Rightarrow> bool" where
  "finite_json (JFloat (Finite _)) = True"
| "finite_json (JFloat _) = False"
| "finite_json (JArr xs) = list_all finite_json xs"
| "finite_json (JObj fs) = list_all (\<lambda>(_, v). finite_json v) fs"
| "finite_json _ = True"

definition operand_ok :: "string \<Rightarrow> json \<Rightarrow> bool" where
  "operand_ok op value =
     (if op = ''eq'' \<or> op = ''ne'' then finite_json value
      else if op \<in> set ordering_ops then is_number value \<or> is_string value
      else if op = ''in'' then
        (case value of JArr xs \<Rightarrow> xs \<noteq> [] \<and> length xs \<le> max_in_list \<and> list_all finite_json xs | _ \<Rightarrow> False)
      else (case value of JStr s \<Rightarrow> length s \<le> max_string_operand_length | _ \<Rightarrow> False))"

definition path_ok :: "string \<Rightarrow> bool" where
  "path_ok path \<longleftrightarrow> py_strip path \<noteq> [] \<and> length path \<le> max_path_length \<and> [] \<notin> set (py_split CHR ''.'' path)"

definition only_keys :: "string list \<Rightarrow> (string \<times> json) list \<Rightarrow> bool" where
  "only_keys ks fs \<longleftrightarrow> list_all (\<lambda>(k, _). k \<in> set ks) fs"

definition validate_leaf :: "(string \<times> json) list \<Rightarrow> json option" where
  "validate_leaf fs =
     (if \<not> only_keys [''path'', ''op'', ''value''] fs then None
      else (case (field fs ''path'', field fs ''op'') of
              (JStr path, JStr op) \<Rightarrow>
                if \<not> path_ok path \<or> op \<notin> set leaf_ops then None
                else if op = ''exists'' then Some (JObj [(''path'', JStr path), (''op'', JStr op)])
                else (case map_of fs ''value'' of
                        None \<Rightarrow> None
                      | Some value \<Rightarrow>
                          if operand_ok op value
                          then Some (JObj [(''path'', JStr path), (''op'', JStr op), (''value'', value)])
                          else None)
            | _ \<Rightarrow> None))"

definition combinators :: "(string \<times> json) list \<Rightarrow> string list" where
  "combinators fs = filter (\<lambda>k. has_key fs k) [''all'', ''any'', ''not'']"

text \<open>\<open>walk\<close> threads \<open>node_count\<close>; \<open>walk_members\<close> is its loop over the members of a combinator.\<close>

fun walk :: "json \<Rightarrow> nat \<Rightarrow> nat \<Rightarrow> (json \<times> nat) option"
and walk_members :: "json list \<Rightarrow> nat \<Rightarrow> nat \<Rightarrow> (json list \<times> nat) option" where
  "walk (JObj fs) depth count =
    (let n = count + 1; is_leaf = (has_key fs ''op'' \<or> has_key fs ''path'') in
     if n > max_nodes \<or> depth > max_nesting_depth then None
     else if is_leaf
       then (if combinators fs \<noteq> [] then None else map_option (\<lambda>v. (v, n)) (validate_leaf fs))
     else (case combinators fs of
             [key] \<Rightarrow>
               (case map_of fs key of
                  None \<Rightarrow> None
                | Some inner \<Rightarrow>
                    if key = ''not''
                    then (if \<not> is_dict inner \<or> \<not> only_keys [''not''] fs then None
                          else map_option (\<lambda>(v, m). (JObj [(''not'', v)], m)) (walk inner (depth + 1) n))
                    else (case inner of
                            JArr ms \<Rightarrow>
                              if ms = [] \<or> \<not> only_keys [key] fs then None
                              else map_option (\<lambda>(vs, m). (JObj [(key, JArr vs)], m))
                                     (walk_members ms (depth + 1) n)
                          | _ \<Rightarrow> None))
           | _ \<Rightarrow> None))"
| "walk _ depth count = None"
| "walk_members [] depth count = Some ([], count)"
| "walk_members (m # ms) depth count =
     (case walk m depth count of
        None \<Rightarrow> None
      | Some (v, n) \<Rightarrow> map_option (\<lambda>(vs, k). (v # vs, k)) (walk_members ms depth n))"

definition validate_filter_spec :: "json \<Rightarrow> json option" where
  "validate_filter_spec spec = map_option fst (walk spec 1 0)"

section \<open>The canonical form means the same\<close>

lemma combinators_Nil: "combinators fs = [] \<longleftrightarrow> map_of fs ''all'' = None \<and> map_of fs ''any'' = None \<and> map_of fs ''not'' = None"
  by (auto simp: combinators_def)

lemma combinators_single:
  "combinators fs = [key] \<longleftrightarrow>
     (key = ''all'' \<and> map_of fs ''all'' \<noteq> None \<and> map_of fs ''any'' = None \<and> map_of fs ''not'' = None) \<or>
     (key = ''any'' \<and> map_of fs ''any'' \<noteq> None \<and> map_of fs ''all'' = None \<and> map_of fs ''not'' = None) \<or>
     (key = ''not'' \<and> map_of fs ''not'' \<noteq> None \<and> map_of fs ''all'' = None \<and> map_of fs ''any'' = None)"
  by (auto simp: combinators_def)

text \<open>What a successful walk of an object found.\<close>

lemma walk_JObj_cases:
  assumes "walk (JObj fs) depth count = Some (v, n)"
  obtains (leaf) "combinators fs = []" "validate_leaf fs = Some v" "n = count + 1"
      "count + 1 \<le> max_nodes" "depth \<le> max_nesting_depth" "has_key fs ''op'' \<or> has_key fs ''path''"
  | (neg) inner v' where "combinators fs = [''not'']" "map_of fs ''not'' = Some inner" "is_dict inner"
      "walk inner (depth + 1) (count + 1) = Some (v', n)" "v = JObj [(''not'', v')]"
      "count + 1 \<le> max_nodes" "depth \<le> max_nesting_depth"
  | (list) key ms vs where "combinators fs = [key]" "key = ''all'' \<or> key = ''any''"
      "map_of fs key = Some (JArr ms)" "ms \<noteq> []"
      "walk_members ms (depth + 1) (count + 1) = Some (vs, n)" "v = JObj [(key, JArr vs)]"
      "count + 1 \<le> max_nodes" "depth \<le> max_nesting_depth"
proof -
  have bounds: "count + 1 \<le> max_nodes" "depth \<le> max_nesting_depth"
    using assms by (auto simp: Let_def split: if_splits)
  show thesis
  proof (cases "has_key fs ''op'' \<or> has_key fs ''path''")
    case True
    with assms bounds show thesis
      by (intro leaf) (auto simp: Let_def split: if_splits)
  next
    case False
    with assms bounds obtain key inner where key: "combinators fs = [key]" and inner: "map_of fs key = Some inner"
      by (auto simp: Let_def split: list.splits option.splits)
    show thesis
    proof (cases "key = ''not''")
      case True
      with assms False bounds key inner obtain v' where "is_dict inner"
          "walk inner (depth + 1) (count + 1) = Some (v', n)" "v = JObj [(''not'', v')]"
        by (auto simp: Let_def split: if_splits)
      with True key inner bounds show thesis by (intro neg) auto
    next
      case other: False
      with key have "key = ''all'' \<or> key = ''any''" by (auto simp: combinators_single)
      moreover obtain ms vs where "inner = JArr ms" "ms \<noteq> []"
          "walk_members ms (depth + 1) (count + 1) = Some (vs, n)" "v = JObj [(key, JArr vs)]"
        using assms False other bounds key inner by (auto simp: Let_def split: json.splits if_splits)
      ultimately show thesis
        using key inner bounds by (intro list) auto
    qed
  qed
qed

lemma walk_is_dict: "walk node depth count = Some (v, n) \<Longrightarrow> is_dict node"
  by (cases node) simp_all

text \<open>A validated leaf and its canonical form.\<close>

lemma validate_leaf_cases:
  assumes "validate_leaf fs = Some v"
  obtains (existence) path where "field fs ''path'' = JStr path" "field fs ''op'' = JStr ''exists''" "path_ok path"
      "v = JObj [(''path'', JStr path), (''op'', JStr ''exists'')]"
  | (comparison) path op operand where "field fs ''path'' = JStr path" "field fs ''op'' = JStr op" "path_ok path"
      "op \<in> set leaf_ops" "op \<noteq> ''exists''" "map_of fs ''value'' = Some operand" "operand_ok op operand"
      "v = JObj [(''path'', JStr path), (''op'', JStr op), (''value'', operand)]"
  using assms unfolding validate_leaf_def
  by (auto split: json.splits option.splits if_splits)

lemma evaluate_leaf_canonical:
  assumes "validate_leaf fs = Some v" and "combinators fs = []"
  shows "evaluate v payload = evaluate (JObj fs) payload"
  using assms(1)
proof (cases rule: validate_leaf_cases)
  case (existence path)
  with assms(2) show ?thesis
    by (simp add: combinators_Nil field_def leaf_matches_def split: option.splits resolved.splits)
next
  case (comparison path op operand)
  with assms(2) show ?thesis
    by (simp add: combinators_Nil field_def split: option.splits)
qed

lemma walk_members_Cons:
  assumes "walk_members (m # ms) depth count = Some (us, n)"
  obtains v k vs where "walk m depth count = Some (v, k)" "walk_members ms depth k = Some (vs, n)" "us = v # vs"
  using assms by (auto split: option.splits)

lemma evaluate_members:
  assumes "\<And>m v d c k. m \<in> set ms \<Longrightarrow> walk m d c = Some (v, k) \<Longrightarrow> is_dict v \<and> evaluate v payload = evaluate m payload"
    and "walk_members ms depth count = Some (vs, n)"
  shows "evaluate_all vs payload = evaluate_all ms payload \<and> evaluate_any vs payload = evaluate_any ms payload"
  using assms
proof (induction ms arbitrary: count vs)
  case Nil
  then show ?case by simp
next
  case (Cons m ms)
  from Cons.prems(2) obtain v k ws where w: "walk m depth count = Some (v, k)"
    and ws: "walk_members ms depth k = Some (ws, n)" and vs: "vs = v # ws"
    by (rule walk_members_Cons)
  have "is_dict v \<and> evaluate v payload = evaluate m payload"
    using Cons.prems(1) w by (meson list.set_intros(1))
  moreover have "evaluate_all ws payload = evaluate_all ms payload \<and> evaluate_any ws payload = evaluate_any ms payload"
    by (rule Cons.IH [OF _ ws]) (meson Cons.prems(1) list.set_intros(2))
  moreover have "is_dict m" using w by (rule walk_is_dict)
  ultimately show ?case by (simp add: vs split: option.split bool.split)
qed

lemma size_field: "map_of fs key = Some v \<Longrightarrow> size v < size (JObj fs)"
  by (induction fs) (auto split: if_splits)

lemma size_member: "m \<in> set ms \<Longrightarrow> map_of fs key = Some (JArr ms) \<Longrightarrow> size m < size (JObj fs)"
  using size_field [of fs key "JArr ms"] size_list_estimation' [of m ms "size m" size] by simp

lemma evaluate_walk:
  "walk node depth count = Some (v, n) \<Longrightarrow> is_dict v \<and> evaluate v payload = evaluate node payload"
proof (induction node arbitrary: depth count v n rule: measure_induct_rule [where f = size])
  case (less node)
  obtain fs where node: "node = JObj fs"
    using walk_is_dict [OF less.prems] by (cases node) simp_all
  from less.prems [unfolded node] show ?case
  proof (cases rule: walk_JObj_cases)
    case leaf
    then have "is_dict v" by (cases rule: validate_leaf_cases [OF leaf(2)]) simp_all
    with leaf show ?thesis by (simp only: evaluate_leaf_canonical node)
  next
    case (neg inner v')
    then have "is_dict v' \<and> evaluate v' payload = evaluate inner payload"
      using less.IH [of inner] size_field [of fs "''not''" inner] by (simp add: node)
    with neg show ?thesis by (simp add: node combinators_single)
  next
    case (list key ms vs)
    have "evaluate_all vs payload = evaluate_all ms payload \<and> evaluate_any vs payload = evaluate_any ms payload"
    proof (rule evaluate_members [OF _ list(5)])
      fix m v d c k
      assume m: "m \<in> set ms" and w: "walk m d c = Some (v, k)"
      show "is_dict v \<and> evaluate v payload = evaluate m payload"
        using less.IH [OF _ w] size_member [OF m list(3)] by (simp add: node)
    qed
    with list show ?thesis by (auto simp: node combinators_single)
  qed
qed

text \<open>The canonical form is a fixed point of validation, and counts as many nodes.\<close>

lemma walk_members_fixed:
  assumes "\<And>m v d c k. m \<in> set ms \<Longrightarrow> walk m d c = Some (v, k) \<Longrightarrow> walk v d c = Some (v, k)"
    and "walk_members ms depth count = Some (vs, n)"
  shows "walk_members vs depth count = Some (vs, n)"
  using assms
proof (induction ms arbitrary: count vs)
  case Nil
  then show ?case by simp
next
  case (Cons m ms)
  from Cons.prems(2) obtain v k ws where w: "walk m depth count = Some (v, k)"
    and ws: "walk_members ms depth k = Some (ws, n)" and vs: "vs = v # ws"
    by (rule walk_members_Cons)
  have "walk v depth count = Some (v, k)"
    using Cons.prems(1) w by (meson list.set_intros(1))
  moreover have "walk_members ws depth k = Some (ws, n)"
    by (rule Cons.IH [OF _ ws]) (meson Cons.prems(1) list.set_intros(2))
  ultimately show ?case by (simp add: vs)
qed

lemma walk_members_length: "walk_members ms depth count = Some (vs, n) \<Longrightarrow> length vs = length ms"
  by (induction ms arbitrary: count vs) (auto split: option.splits)

lemma validate_leaf_fixed:
  assumes "validate_leaf fs = Some v" and "count + 1 \<le> max_nodes" and "depth \<le> max_nesting_depth"
  shows "walk v depth count = Some (v, count + 1)"
  using assms(1)
proof (cases rule: validate_leaf_cases)
  case (existence path)
  with assms(2,3) show ?thesis
    by (simp add: combinators_def validate_leaf_def only_keys_def field_def leaf_ops_def)
next
  case (comparison path op operand)
  with assms(2,3) show ?thesis
    by (simp add: combinators_def validate_leaf_def only_keys_def field_def)
qed

lemma walk_fixed: "walk node depth count = Some (v, n) \<Longrightarrow> walk v depth count = Some (v, n)"
proof (induction node arbitrary: depth count v n rule: measure_induct_rule [where f = size])
  case (less node)
  obtain fs where node: "node = JObj fs"
    using walk_is_dict [OF less.prems] by (cases node) simp_all
  from less.prems [unfolded node] show ?case
  proof (cases rule: walk_JObj_cases)
    case leaf
    then show ?thesis by (simp only: validate_leaf_fixed)
  next
    case (neg inner v')
    have fixed: "walk v' (depth + 1) (count + 1) = Some (v', n)"
      by (rule less.IH [OF _ neg(4)]) (simp only: node size_field [OF neg(2)])
    have "walk (JObj [(''not'', v')]) depth count = Some (JObj [(''not'', v')], n)"
      using fixed walk_is_dict [OF fixed] neg(6,7)
      by (simp del: walk.simps(2) add: combinators_def only_keys_def)
    then show ?thesis by (simp only: neg(5))
  next
    case (list key ms vs)
    have fixed: "walk_members vs (depth + 1) (count + 1) = Some (vs, n)"
    proof (rule walk_members_fixed [OF _ list(5)])
      fix m v d c k
      assume m: "m \<in> set ms" and w: "walk m d c = Some (v, k)"
      show "walk v d c = Some (v, k)"
        using less.IH [OF _ w] size_member [OF m list(3)] by (simp add: node)
    qed
    have "vs \<noteq> []" using walk_members_length [OF list(5)] list(4) by auto
    then have "walk (JObj [(key, JArr vs)]) depth count = Some (JObj [(key, JArr vs)], n)"
      using fixed list(2,6-) by (auto simp: combinators_def only_keys_def)
    then show ?thesis by (simp only: list)
  qed
qed

section \<open>When the evaluator returns\<close>

text \<open>The paths a condition reads, and the segments Python can index a list with.\<close>

lemma size_obj_list_member [termination_simp]:
  "map_of fs (k :: string) = Some (JArr ms) \<Longrightarrow> m \<in> set ms \<Longrightarrow> size m < Suc (size_list (\<lambda>x. Suc (size (snd x))) fs)"
  using size_member [of m ms fs k] size_obj_lookup [of fs k "JArr ms"] size_list_estimation' [of m ms "size m" size]
  by simp

fun leaf_paths :: "json \<Rightarrow> string list" where
  "leaf_paths (JObj fs) =
     (case map_of fs ''not'' of Some inner \<Rightarrow> leaf_paths inner | None \<Rightarrow> []) @
     (case map_of fs ''all'' of Some (JArr ms) \<Rightarrow> concat (map leaf_paths ms) | _ \<Rightarrow> []) @
     (case map_of fs ''any'' of Some (JArr ms) \<Rightarrow> concat (map leaf_paths ms) | _ \<Rightarrow> []) @
     (case map_of fs ''path'' of Some (JStr path) \<Rightarrow> [path] | _ \<Rightarrow> [])"
| "leaf_paths _ = []"

definition plain_path :: "string \<Rightarrow> bool" where
  "plain_path path \<longleftrightarrow> list_all (\<lambda>s. py_isdigit s \<longrightarrow> py_int s \<noteq> None) (py_split CHR ''.'' path)"

lemma resolve_segments_plain:
  "list_all (\<lambda>s. py_isdigit s \<longrightarrow> py_int s \<noteq> None) ss \<Longrightarrow> resolve_segments v ss \<noteq> Raises"
  by (induction v ss rule: resolve_segments.induct) (auto split: option.splits)

lemma leaf_matches_returns:
  assumes "plain_path path" and "op = ''in'' \<longrightarrow> py_members operand \<noteq> None"
  shows "leaf_matches op path operand payload \<noteq> None"
proof -
  have "resolve_path payload path \<noteq> Raises"
    using assms(1) unfolding plain_path_def resolve_path_def by (rule resolve_segments_plain)
  moreover have "\<exists>ms. py_members operand = Some ms" if "op = ''in''" using assms(2) that by auto
  ultimately show ?thesis unfolding leaf_matches_def by (cases "resolve_path payload path") auto
qed

lemma evaluate_members_return:
  assumes "\<And>m v d c k. m \<in> set ms \<Longrightarrow> walk m d c = Some (v, k) \<Longrightarrow> evaluate m payload \<noteq> None"
    and "walk_members ms depth count = Some (vs, n)"
  shows "evaluate_all ms payload \<noteq> None \<and> evaluate_any ms payload \<noteq> None"
  using assms
proof (induction ms arbitrary: count vs)
  case Nil
  then show ?case by simp
next
  case (Cons m ms)
  from Cons.prems(2) obtain v k ws where w: "walk m depth count = Some (v, k)"
    and ws: "walk_members ms depth k = Some (ws, n)" and vs: "vs = v # ws"
    by (rule walk_members_Cons)
  have "evaluate m payload \<noteq> None"
    using Cons.prems(1) w by (meson list.set_intros(1))
  moreover have "evaluate_all ms payload \<noteq> None \<and> evaluate_any ms payload \<noteq> None"
    by (rule Cons.IH [OF _ ws]) (meson Cons.prems(1) list.set_intros(2))
  ultimately show ?case by (auto split: bool.splits)
qed

lemma evaluate_leaf_reads:
  assumes "combinators fs = []" and "field fs ''path'' = JStr path" and "field fs ''op'' = JStr op" and "op \<in> set leaf_ops"
  shows "evaluate (JObj fs) payload = leaf_matches op path (field fs ''value'') payload"
  using assms by (simp add: combinators_Nil)

lemma operand_ok_in: "operand_ok ''in'' v \<Longrightarrow> py_members v \<noteq> None"
  by (cases v) (auto simp: operand_ok_def ordering_ops_def)

lemma evaluate_returns:
  "walk node depth count = Some (v, n) \<Longrightarrow> list_all plain_path (leaf_paths node) \<Longrightarrow> evaluate node payload \<noteq> None"
proof (induction node arbitrary: depth count v n rule: measure_induct_rule [where f = size])
  case (less node)
  obtain fs where node: "node = JObj fs"
    using walk_is_dict [OF less.prems(1)] by (cases node) simp_all
  from less.prems(1) [unfolded node] show ?case
  proof (cases rule: walk_JObj_cases)
    case leaf
    from leaf(2) show ?thesis
    proof (cases rule: validate_leaf_cases)
      case (existence path)
      moreover have "plain_path path"
        using existence leaf(1) less.prems(2) by (auto simp: node combinators_Nil field_def split: option.splits)
      ultimately show ?thesis
        using leaf_matches_returns [of path "''exists''"] evaluate_leaf_reads [OF leaf(1)] by (simp add: node leaf_ops_def)
    next
      case (comparison path op operand)
      moreover have "plain_path path"
        using comparison leaf(1) less.prems(2) by (auto simp: node combinators_Nil field_def split: option.splits)
      moreover have "op = ''in'' \<longrightarrow> py_members operand \<noteq> None"
        using comparison(7) operand_ok_in by blast
      ultimately show ?thesis
        using leaf_matches_returns [of path op operand] evaluate_leaf_reads [OF leaf(1)] by (simp add: node field_def)
    qed
  next
    case (neg inner v')
    then have "evaluate inner payload \<noteq> None"
      using less.IH [of inner] less.prems(2) size_field [of fs "''not''" inner]
      by (simp add: node)
    with neg show ?thesis by (simp add: node combinators_single)
  next
    case (list key ms vs)
    have "evaluate_all ms payload \<noteq> None \<and> evaluate_any ms payload \<noteq> None"
    proof (rule evaluate_members_return [OF _ list(5)])
      fix m v d c k
      assume m: "m \<in> set ms" and w: "walk m d c = Some (v, k)"
      have "list_all plain_path (leaf_paths m)"
        using less.prems(2) list(1-3) m unfolding node combinators_single by (fastforce simp: list_all_iff)
      then show "evaluate m payload \<noteq> None"
        using less.IH [OF _ w] size_member [OF m list(3)] by (simp add: node)
    qed
    with list show ?thesis by (auto simp: node combinators_single)
  qed
qed

end
