(* ===== verification/Ingest_Auth.thy ===== *)
theory Ingest_Auth
  imports Config Lifecycle Subfilters
begin

text \<open>
  app/ingest_auth.py: admission control for inbound events. A rejected push is an error value
  together with the database its transaction left behind, because every rejection but one
  commits a row of \<open>ingestion_attempts\<close> before it raises.

  What the standard library and the driver compute on the raw request (float(), the HMAC,
  json.loads, the UUID parsers, datetime) is the record \<open>runtime\<close>, an argument of the
  operations: the theorems hold whatever these functions return. A parsed datetime is aware of
  its offset or naive.
\<close>

section \<open>Values of the request\<close>

datatype wall_clock = Aware time | Naive time

record runtime =
  rt_float :: "string \<Rightarrow> pyfloat option"
  rt_datetime :: "pyfloat \<Rightarrow> time option"
  rt_hmac :: "string \<Rightarrow> string \<Rightarrow> string"
  rt_loads :: "string \<Rightarrow> json option"
  rt_is_uuid :: "string \<Rightarrow> bool"
  rt_cast_uuid :: "string \<Rightarrow> uuid option"
  rt_iso_datetime :: "json \<Rightarrow> wall_clock option"
  rt_text_column :: "json \<Rightarrow> string option"

datatype refusal = Refused int ingest_disposition | Crashed api_error

type_synonym 'a admission = "(refusal + 'a) \<times> database"

record request =
  rq_source_id :: "string option"
  rq_signed_at :: "string option"
  rq_signature :: "string option"
  rq_body :: string

section \<open>Signatures\<close>

definition is_ascii :: "string \<Rightarrow> bool" where
  "is_ascii s \<longleftrightarrow> list_all (\<lambda>c. (of_char c :: nat) < 128) s"

definition compute_signature :: "runtime \<Rightarrow> string \<Rightarrow> string \<Rightarrow> string \<Rightarrow> string" where
  "compute_signature rt secret signed_at body = rt_hmac rt secret (signed_at @ ''.'' @ body)"

definition remove_prefix :: "string \<Rightarrow> string \<Rightarrow> string" where
  "remove_prefix p s = (if starts_with s p then drop (length p) s else s)"

text \<open>
  None: an exception (\<open>encode("ascii")\<close> of the send time, or \<open>compare_digest\<close> of a signature
  that is not ASCII).
\<close>

definition signature_matches :: "runtime \<Rightarrow> string \<Rightarrow> string \<Rightarrow> string \<Rightarrow> string \<Rightarrow> bool option" where
  "signature_matches rt secret signed_at body signature =
     (let provided = py_strip (remove_prefix ''sha256='' signature) in
      if \<not> is_ascii signed_at \<or> \<not> is_ascii provided then None
      else Some (provided = compute_signature rt secret signed_at body))"

section \<open>The log of attempts\<close>

definition log_attempt ::
  "time \<Rightarrow> ingest_disposition \<Rightarrow> uuid option \<Rightarrow> string option \<Rightarrow> uuid option \<Rightarrow> string option \<Rightarrow>
   string option \<Rightarrow> time option \<Rightarrow> database \<Rightarrow> database" where
  "log_attempt now disposition source name event key type signed_at db =
     db\<lparr>ingestion_attempts := ingestion_attempts db @
       [\<lparr> ia_source_id = source, ia_source_name = name, ia_event_id = event, ia_dedupe_key = key,
          ia_event_type = type, ia_signed_at = signed_at, ia_disposition = disposition,
          ia_received_at = now \<rparr>]\<rparr>"

section \<open>Authentication\<close>

definition find_source :: "database \<Rightarrow> uuid \<Rightarrow> event_source option" where
  "find_source db i = first_row (\<lambda>s. src_id s = i) (event_sources db)"

definition header_value :: "string option \<Rightarrow> string" where
  "header_value h = py_strip (coalesce h [])"

text \<open>The send time: None when the header is empty, and the two ways parsing it can raise.\<close>

definition parse_signed_at :: "runtime \<Rightarrow> string \<Rightarrow> refusal + time" where
  "parse_signed_at rt raw =
     (case rt_float rt raw of
        None \<Rightarrow> Inl (Refused 401 Invalid_timestamp)
      | Some f \<Rightarrow> (case rt_datetime rt f of None \<Rightarrow> Inl (Crashed Bad_cast) | Some t \<Rightarrow> Inr t))"

definition reject ::
  "time \<Rightarrow> uuid option \<Rightarrow> event_source option \<Rightarrow> time option \<Rightarrow> ingest_disposition \<Rightarrow> int \<Rightarrow>
   database \<Rightarrow> 'a admission" where
  "reject now source_id source signed_at disposition code db =
     (Inl (Refused code disposition),
      log_attempt now disposition source_id (map_option src_name source) None None None signed_at db)"

text \<open>
  The checks after the source was looked up and the send time parsed. \<open>clock\<close> is
  \<open>datetime.now()\<close> of the process, \<open>now\<close> the database clock that stamps the logged row.
\<close>

definition admit ::
  "runtime \<Rightarrow> settings \<Rightarrow> time \<Rightarrow> time \<Rightarrow> uuid option \<Rightarrow> event_source option \<Rightarrow> string \<Rightarrow> time option \<Rightarrow>
   string \<Rightarrow> string \<Rightarrow> database \<Rightarrow> (event_source \<times> time) admission" where
  "admit rt cfg clock now source_id source raw signed_at signature body db =
     (let refuse = (\<lambda>code disposition. reject now source_id source signed_at disposition code db) in
      if source_id = None then refuse 401 Source_unknown
      else case signed_at of
        None \<Rightarrow> refuse 401 Invalid_timestamp
      | Some t \<Rightarrow>
          if signature = [] then refuse 401 Bad_signature
          else case source of
            None \<Rightarrow> refuse 401 Source_unknown
          | Some s \<Rightarrow>
              (case signature_matches rt (src_secret s) raw body signature of
                 None \<Rightarrow> (Inl (Crashed Type_error), db)
               | Some False \<Rightarrow> refuse 401 Bad_signature
               | Some True \<Rightarrow>
                   if clock - t > ingest_max_age_seconds cfg then refuse 401 Stale_timestamp
                   else if t - clock > ingest_max_future_skew_seconds cfg then refuse 401 Future_timestamp
                   else if src_disabled_at s \<noteq> None then refuse 403 Source_disabled
                   else (Inr (s, t), db)))"

text \<open>
  A source id that Python reads as a UUID is looked up with a CAST in the statement, which can
  refuse it.
\<close>

definition authenticate ::
  "runtime \<Rightarrow> settings \<Rightarrow> time \<Rightarrow> time \<Rightarrow> request \<Rightarrow> database \<Rightarrow> (event_source \<times> time) admission" where
  "authenticate rt cfg clock now rq db =
     (let source_header = header_value (rq_source_id rq);
          raw = header_value (rq_signed_at rq);
          signature = header_value (rq_signature rq);
          known = rt_is_uuid rt source_header;
          source_id = (if known then rt_cast_uuid rt source_header else None)
      in if known \<and> source_id = None then (Inl (Crashed Bad_cast), db)
         else
           let source = (case source_id of None \<Rightarrow> None | Some i \<Rightarrow> find_source db i)
           in if raw = []
              then admit rt cfg clock now source_id source raw None signature (rq_body rq) db
              else (case parse_signed_at rt raw of
                      Inl err \<Rightarrow> (Inl err, db)
                    | Inr t \<Rightarrow> admit rt cfg clock now source_id source raw (Some t) signature (rq_body rq) db))"

section \<open>The body\<close>

definition parse_event_body ::
  "runtime \<Rightarrow> time \<Rightarrow> event_source \<Rightarrow> time \<Rightarrow> string \<Rightarrow> database \<Rightarrow> (string \<times> json) list admission" where
  "parse_event_body rt now source signed_at body db =
     (let refuse = (Inl (Refused 422 Invalid_body),
            log_attempt now Invalid_body (Some (src_id source)) (Some (src_name source)) None None None
              (Some signed_at) db)
      in case rt_loads rt body of
           Some (JObj fs) \<Rightarrow> (Inr fs, db)
         | _ \<Rightarrow> refuse)"

section \<open>What admission guarantees\<close>

text \<open>A rejection adds at most one row to the log and touches nothing else.\<close>

definition only_logged :: "database \<Rightarrow> database \<Rightarrow> bool" where
  "only_logged db db' \<longleftrightarrow> (\<exists>rows. db' = db\<lparr>ingestion_attempts := ingestion_attempts db @ rows\<rparr>)"

definition logged :: "ingest_disposition \<Rightarrow> database \<Rightarrow> database \<Rightarrow> bool" where
  "logged disposition db db' \<longleftrightarrow>
     (\<exists>row. db' = db\<lparr>ingestion_attempts := ingestion_attempts db @ [row]\<rparr> \<and> ia_disposition row = disposition \<and>
        ia_event_id row = None)"

lemma only_logged_refl [simp]: "only_logged db db"
  unfolding only_logged_def by (intro exI [of _ "[]"]) simp

lemma logged_only: "logged disposition db db' \<Longrightarrow> only_logged db db'"
  by (auto simp: logged_def only_logged_def)

lemma only_logged_trans: "only_logged db1 db2 \<Longrightarrow> only_logged db2 db3 \<Longrightarrow> only_logged db1 db3"
  by (auto simp: only_logged_def)

lemma log_attempt_only: "only_logged db (log_attempt now disposition source name event key type signed_at db)"
  by (auto simp: log_attempt_def only_logged_def)

lemma log_attempt_logged: "logged disposition db (log_attempt now disposition source name None key type signed_at db)"
  by (auto simp: log_attempt_def logged_def)

lemma only_logged_simps:
  assumes "only_logged db db'"
  shows "deliveries db' = deliveries db" "events db' = events db" "destinations db' = destinations db"
    "event_sources db' = event_sources db"
    "subscription_filter_evaluations db' = subscription_filter_evaluations db"
    "destination_subscriptions db' = destination_subscriptions db"
  using assms by (auto simp: only_logged_def)

lemma only_logged_keeps: "only_logged db db' \<Longrightarrow> keeps db db'"
  by (rule keeps_same) (simp_all add: only_logged_simps)

lemma reject_logged: "reject now source_id source signed_at disposition code db = (r, db') \<Longrightarrow>
  r = Inl (Refused code disposition) \<and> logged disposition db db'"
  by (auto simp: reject_def log_attempt_logged)

lemma reject_not_accepted [simp]: "reject now source_id source signed_at disposition code db \<noteq> (Inr x, db')"
  by (simp add: reject_def)

text \<open>The checks a request passed when it was admitted.\<close>

definition admissible :: "runtime \<Rightarrow> settings \<Rightarrow> time \<Rightarrow> string \<Rightarrow> string \<Rightarrow> string \<Rightarrow> event_source \<Rightarrow> time \<Rightarrow> bool" where
  "admissible rt cfg clock raw body signature s t \<longleftrightarrow>
     is_ascii raw \<and>
     py_strip (remove_prefix ''sha256='' signature) = rt_hmac rt (src_secret s) (raw @ ''.'' @ body) \<and>
     clock - t \<le> ingest_max_age_seconds cfg \<and> t - clock \<le> ingest_max_future_skew_seconds cfg \<and>
     src_disabled_at s = None"

lemma admit_accepts:
  assumes "admit rt cfg clock now source_id source raw signed_at signature body db = (Inr (s, t), db')"
  shows "source_id \<noteq> None \<and> source = Some s \<and> signed_at = Some t \<and> signature \<noteq> [] \<and>
    admissible rt cfg clock raw body signature s t \<and> db' = db"
  using assms
  by (auto simp: admit_def admissible_def signature_matches_def compute_signature_def Let_def
      split: if_splits option.splits bool.splits)

lemma admit_refuses:
  assumes "admit rt cfg clock now source_id source raw signed_at signature body db = (Inl (Refused code disposition), db')"
  shows "logged disposition db db' \<and> (code = (if disposition = Source_disabled then 403 else 401))"
  using assms
  by (auto simp: admit_def reject_def log_attempt_logged Let_def split: if_splits option.splits bool.splits)

lemma admit_crashes:
  "admit rt cfg clock now source_id source raw signed_at signature body db = (Inl (Crashed err), db') \<Longrightarrow>
   db' = db \<and> (\<not> is_ascii raw \<or> \<not> is_ascii (py_strip (remove_prefix ''sha256='' signature)))"
  by (auto simp: admit_def reject_def signature_matches_def Let_def split: if_splits option.splits bool.splits)

lemma authenticate_accepts:
  assumes "authenticate rt cfg clock now rq db = (Inr (s, t), db')"
  shows "s \<in> set (event_sources db) \<and> rt_cast_uuid rt (header_value (rq_source_id rq)) = Some (src_id s) \<and>
    parse_signed_at rt (header_value (rq_signed_at rq)) = Inr t \<and>
    admissible rt cfg clock (header_value (rq_signed_at rq)) (rq_body rq) (header_value (rq_signature rq)) s t \<and>
    db' = db"
  using assms
  by (auto simp: authenticate_def Let_def find_source_def split: if_splits option.splits sum.splits
      dest!: admit_accepts first_row_Some)

lemma authenticate_refuses:
  assumes "authenticate rt cfg clock now rq db = (Inl (Refused code disposition), db')"
  shows "logged disposition db db' \<or>
    (disposition = Invalid_timestamp \<and> db' = db \<and> rt_float rt (header_value (rq_signed_at rq)) = None)"
  using assms
  by (auto simp: authenticate_def Let_def parse_signed_at_def split: if_splits option.splits sum.splits
      dest!: admit_refuses)

lemma authenticate_only_logs: "authenticate rt cfg clock now rq db = (r, db') \<Longrightarrow> only_logged db db'"
proof (cases r)
  case (Inl err)
  assume "authenticate rt cfg clock now rq db = (r, db')"
  with Inl show ?thesis
    by (cases err; auto simp: authenticate_def Let_def split: if_splits option.splits sum.splits
        dest!: authenticate_refuses admit_refuses admit_crashes intro: logged_only)
next
  case (Inr p)
  assume "authenticate rt cfg clock now rq db = (r, db')"
  with Inr show ?thesis
    by (cases p) (auto dest!: authenticate_accepts)
qed

lemma parse_event_body_only_logs: "parse_event_body rt now s t body db = (r, db') \<Longrightarrow> only_logged db db'"
  by (auto simp: parse_event_body_def Let_def log_attempt_only split: option.splits json.splits)

end
