(* ===== verification/Subscriptions.thy ===== *)
theory Subscriptions
  imports Lifecycle Subfilters
begin

text \<open>
  The subscriptions of a destination: the helpers of app/main.py that read, check and write
  \<open>destination_subscriptions\<close>, and the normalization of event types by app/schemas.py. A
  filters map is the association list of its items; a null value clears a condition.
\<close>

section \<open>Event types\<close>

definition max_event_type_length :: nat where "max_event_type_length = 128"
definition max_event_types_per_destination :: nat where "max_event_types_per_destination = 100"

text \<open>None: the validator raises.\<close>

definition normalize_event_type :: "string \<Rightarrow> string option" where
  "normalize_event_type value =
     (let type = py_strip value in
      if type = [] \<or> length type > max_event_type_length then None else Some type)"

fun collect_event_types :: "string list \<Rightarrow> string list \<Rightarrow> string list option" where
  "collect_event_types normalized [] = Some normalized"
| "collect_event_types normalized (item # items) =
     (case normalize_event_type item of
        None \<Rightarrow> None
      | Some type \<Rightarrow>
          collect_event_types (if type \<in> set normalized then normalized else normalized @ [type]) items)"

definition normalize_event_types :: "string list \<Rightarrow> string list option" where
  "normalize_event_types items =
     (case collect_event_types [] items of
        None \<Rightarrow> None
      | Some types \<Rightarrow> if length types > max_event_types_per_destination then None else Some types)"

section \<open>Conditions of a request\<close>

type_synonym filters = "(string \<times> json option) list"

text \<open>Assignment to a key of a dict: in place when the key exists, else at the end.\<close>

fun dict_set :: "'k \<Rightarrow> 'v \<Rightarrow> ('k \<times> 'v) list \<Rightarrow> ('k \<times> 'v) list" where
  "dict_set k v [] = [(k, v)]"
| "dict_set k v (p # ps) = (if fst p = k then (k, v) # ps else p # dict_set k v ps)"

fun validate_entries :: "filters \<Rightarrow> filters \<Rightarrow> api_error + filters" where
  "validate_entries canonical [] = Inr canonical"
| "validate_entries canonical ((type, spec) # rest) =
     (case normalize_event_type type of
        None \<Rightarrow> Inl (Http 422)
      | Some normalized \<Rightarrow>
          (case spec of
             None \<Rightarrow> validate_entries (dict_set normalized None canonical) rest
           | Some s \<Rightarrow>
               (case validate_filter_spec s of
                  None \<Rightarrow> Inl (Http 422)
                | Some v \<Rightarrow> validate_entries (dict_set normalized (Some v) canonical) rest)))"

definition validate_filters :: "filters option \<Rightarrow> api_error + filters" where
  "validate_filters fs = (case fs of None \<Rightarrow> Inr [] | Some entries \<Rightarrow> validate_entries [] entries)"

definition assert_filter_keys_subscribed :: "filters \<Rightarrow> string set \<Rightarrow> api_error + unit" where
  "assert_filter_keys_subscribed fs subscribed =
     (if list_all (\<lambda>(k, _). k \<in> subscribed) fs then Inr () else Inl (Http 422))"

section \<open>The table\<close>

definition subscriptions_of :: "database \<Rightarrow> uuid \<Rightarrow> subscription list" where
  "subscriptions_of db dest = filter (\<lambda>s. s_destination_id s = dest) (destination_subscriptions db)"

definition fetch_event_types :: "database \<Rightarrow> uuid \<Rightarrow> string set" where
  "fetch_event_types db dest = set (map s_event_type (subscriptions_of db dest))"

definition fetch_filters :: "database \<Rightarrow> uuid \<Rightarrow> string \<Rightarrow> json option" where
  "fetch_filters db dest type =
     (case first_row (\<lambda>s. s_event_type s = type) (subscriptions_of db dest) of
        None \<Rightarrow> None | Some s \<Rightarrow> s_filter_spec s)"

definition filter_of :: "filters \<Rightarrow> string \<Rightarrow> json option" where
  "filter_of fs type = (case map_of fs type of None \<Rightarrow> None | Some v \<Rightarrow> v)"

definition insert_subscription :: "time \<Rightarrow> uuid \<Rightarrow> json option \<Rightarrow> string \<Rightarrow> subscription list \<Rightarrow> subscription list" where
  "insert_subscription now dest spec type rows =
     (if list_ex (\<lambda>s. s_destination_id s = dest \<and> s_event_type s = type) rows then rows
      else rows @ [\<lparr>s_destination_id = dest, s_event_type = type, s_created_at = now, s_filter_spec = spec\<rparr>])"

definition replace_subscriptions :: "time \<Rightarrow> uuid \<Rightarrow> string list \<Rightarrow> filters \<Rightarrow> database \<Rightarrow> database" where
  "replace_subscriptions now dest types fs db =
     db\<lparr>destination_subscriptions :=
       fold (\<lambda>type. insert_subscription now dest (filter_of fs type) type) types
         (filter (\<lambda>s. s_destination_id s \<noteq> dest) (destination_subscriptions db))\<rparr>"

definition patch_subscription_filters :: "uuid \<Rightarrow> filters \<Rightarrow> database \<Rightarrow> database" where
  "patch_subscription_filters dest fs db =
     db\<lparr>destination_subscriptions :=
       fold (\<lambda>(type, spec). sql_update (\<lambda>s. s_destination_id s = dest \<and> s_event_type s = type)
               (\<lambda>s. s\<lparr>s_filter_spec := spec\<rparr>)) fs (destination_subscriptions db)\<rparr>"

section \<open>Lemmas\<close>

lemma replace_subscriptions_simps [simp]:
  "deliveries (replace_subscriptions now dest types fs db) = deliveries db"
  "destinations (replace_subscriptions now dest types fs db) = destinations db"
  "events (replace_subscriptions now dest types fs db) = events db"
  by (simp_all add: replace_subscriptions_def)

lemma patch_subscription_filters_simps [simp]:
  "deliveries (patch_subscription_filters dest fs db) = deliveries db"
  "destinations (patch_subscription_filters dest fs db) = destinations db"
  "events (patch_subscription_filters dest fs db) = events db"
  by (simp_all add: patch_subscription_filters_def)

definition event_types_ok :: "string list \<Rightarrow> bool" where
  "event_types_ok types \<longleftrightarrow> distinct types \<and>
     (\<forall>t \<in> set types. t \<noteq> [] \<and> length t \<le> max_event_type_length)"

lemma normalize_event_type_ok:
  "normalize_event_type item = Some type \<Longrightarrow> type \<noteq> [] \<and> length type \<le> max_event_type_length"
  by (auto simp: normalize_event_type_def Let_def split: if_splits)

lemma collect_event_types_ok:
  "collect_event_types acc items = Some types \<Longrightarrow> event_types_ok acc \<Longrightarrow> event_types_ok types"
proof (induction items arbitrary: acc)
  case Nil
  then show ?case by simp
next
  case (Cons item items)
  from Cons.prems(1) obtain type where type: "normalize_event_type item = Some type"
    and rest: "collect_event_types (if type \<in> set acc then acc else acc @ [type]) items = Some types"
    by (auto split: option.splits)
  have "event_types_ok (if type \<in> set acc then acc else acc @ [type])"
    using Cons.prems(2) normalize_event_type_ok [OF type] by (auto simp: event_types_ok_def)
  with rest show ?case by (rule Cons.IH)
qed

lemma normalize_event_types_ok:
  "normalize_event_types items = Some types \<Longrightarrow>
   event_types_ok types \<and> length types \<le> max_event_types_per_destination"
  using collect_event_types_ok [of "[]" items types]
  by (auto simp: normalize_event_types_def event_types_ok_def split: option.splits if_splits)

text \<open>The PRIMARY KEY (destination_id, event_type), and conditions that are valid canonical forms.\<close>

definition subscription_keys :: "subscription list \<Rightarrow> bool" where
  "subscription_keys rows \<longleftrightarrow> distinct (map (\<lambda>s. (s_destination_id s, s_event_type s)) rows)"

lemma insert_subscription_keys: "subscription_keys rows \<Longrightarrow> subscription_keys (insert_subscription now dest spec type rows)"
  by (auto simp: subscription_keys_def insert_subscription_def list_ex_iff)

lemma fold_insert_keys:
  "subscription_keys rows \<Longrightarrow>
   subscription_keys (fold (\<lambda>type. insert_subscription now dest (f type) type) types rows)"
  by (induction types arbitrary: rows) (simp_all add: insert_subscription_keys)

lemma replace_subscriptions_keys:
  assumes "subscription_keys (destination_subscriptions db)"
  shows "subscription_keys (destination_subscriptions (replace_subscriptions now dest types fs db))"
proof -
  have "subscription_keys (filter (\<lambda>s. s_destination_id s \<noteq> dest) (destination_subscriptions db))"
    using assms by (simp add: subscription_keys_def distinct_map_filter)
  then show ?thesis
    by (simp add: replace_subscriptions_def fold_insert_keys)
qed

lemma insert_subscription_types:
  "set (map s_event_type (filter (\<lambda>s. s_destination_id s = dest) (insert_subscription now dest spec type rows)))
   = insert type (set (map s_event_type (filter (\<lambda>s. s_destination_id s = dest) rows)))"
proof (cases "list_ex (\<lambda>s. s_destination_id s = dest \<and> s_event_type s = type) rows")
  case True
  then have "type \<in> set (map s_event_type (filter (\<lambda>s. s_destination_id s = dest) rows))"
    by (auto simp: list_ex_iff)
  then show ?thesis
    unfolding insert_subscription_def by (simp only: True if_True) auto
next
  case False
  then show ?thesis by (simp add: insert_subscription_def)
qed

lemma fold_insert_types:
  "set (map s_event_type (filter (\<lambda>s. s_destination_id s = dest)
      (fold (\<lambda>type. insert_subscription now dest (f type) type) types rows)))
   = set types \<union> set (map s_event_type (filter (\<lambda>s. s_destination_id s = dest) rows))"
proof (induction types arbitrary: rows)
  case Nil
  then show ?case by simp
next
  case (Cons type types)
  show ?case
    unfolding fold_simps(2) Cons.IH insert_subscription_types by auto
qed

lemma replace_subscriptions_types:
  "fetch_event_types (replace_subscriptions now dest types fs db) dest = set types"
proof -
  have "filter (\<lambda>s. s_destination_id s = dest)
      (filter (\<lambda>s. s_destination_id s \<noteq> dest) (destination_subscriptions db)) = []"
    by (simp add: filter_empty_conv)
  then show ?thesis
    using fold_insert_types [of dest now "filter_of fs" types
        "filter (\<lambda>s. s_destination_id s \<noteq> dest) (destination_subscriptions db)"]
    by (simp add: fetch_event_types_def subscriptions_of_def replace_subscriptions_def)
qed

lemma fold_insert_others:
  "dest' \<noteq> dest \<Longrightarrow> filter (\<lambda>s. s_destination_id s = dest')
      (fold (\<lambda>type. insert_subscription now dest (f type) type) types rows)
   = filter (\<lambda>s. s_destination_id s = dest') rows"
  by (induction types arbitrary: rows) (auto simp: insert_subscription_def)

lemma replace_subscriptions_others:
  assumes "dest' \<noteq> dest"
  shows "subscriptions_of (replace_subscriptions now dest types fs db) dest' = subscriptions_of db dest'"
proof -
  have "filter (\<lambda>s. s_destination_id s = dest')
      (filter (\<lambda>s. s_destination_id s \<noteq> dest) rows) = filter (\<lambda>s. s_destination_id s = dest') rows" for rows
    using assms by (induction rows) auto
  then show ?thesis
    by (simp add: subscriptions_of_def replace_subscriptions_def fold_insert_others [OF assms])
qed

end
