(* ===== verification/Relay.thy ===== *)
theory Relay
  imports Lifecycle Config
begin

text \<open>
  app/relay.py: relay chains. A chain version is a row of \<open>relay_chains\<close> with its stations;
  an event of a chained type gets one copy per station, and a station that stops closes the
  stations behind it (\<open>cascade_after_stop\<close>). \<open>relay_open\<close> is the gate the worker and the
  deadline sweep put before a station: the station in front has acknowledged.
\<close>

section \<open>Chain definition\<close>

definition active_chain_row :: "database \<Rightarrow> string \<Rightarrow> relay_chain option" where
  "active_chain_row db type = first_row (\<lambda>c. ch_event_type c = type \<and> ch_active c) (relay_chains db)"

definition chain_stations :: "database \<Rightarrow> uuid \<Rightarrow> relay_station list" where
  "chain_stations db chain =
     order_by st_station_no (filter (\<lambda>s. st_chain_id s = chain) (relay_chain_stations db))"

definition get_active_chain :: "database \<Rightarrow> string \<Rightarrow> (relay_chain \<times> relay_station list) option" where
  "get_active_chain db type =
     (case active_chain_row db type of None \<Rightarrow> None
      | Some c \<Rightarrow> Some (c, chain_stations db (ch_id c)))"

definition deactivate_chains :: "string \<Rightarrow> database \<Rightarrow> database" where
  "deactivate_chains type db = db\<lparr>relay_chains :=
     sql_update (\<lambda>c. ch_event_type c = type \<and> ch_active c) (\<lambda>c. c\<lparr>ch_active := False\<rparr>)
       (relay_chains db)\<rparr>"

definition next_version :: "database \<Rightarrow> string \<Rightarrow> int" where
  "next_version db type =
     fold max (map ch_version (filter (\<lambda>c. ch_event_type c = type) (relay_chains db))) 0 + 1"

fun number_from :: "int \<Rightarrow> uuid \<Rightarrow> uuid list \<Rightarrow> relay_station list" where
  "number_from n chain [] = []"
| "number_from n chain (d # ds) =
     \<lparr>st_chain_id = chain, st_station_no = n, st_destination_id = d\<rparr> # number_from (n + 1) chain ds"

definition has_policy :: "database \<Rightarrow> string \<Rightarrow> bool" where
  "has_policy db type \<longleftrightarrow> (\<exists>p \<in> set (event_type_preview_policies db). p_event_type p = type)"

definition define_chain :: "time \<Rightarrow> uuid \<Rightarrow> string \<Rightarrow> uuid list \<Rightarrow> database \<Rightarrow> api_error + relay_chain \<times> database" where
  "define_chain now new_id type ids db =
     (if ids = [] then Inl (Http 422)
      else if \<not> distinct ids then Inl (Http 422)
      else if \<not> (\<forall>i \<in> set ids. find_destination db i \<noteq> None) then Inl (Http 404)
      else if has_policy db type then Inl (Http 409)
      else
        let db1 = deactivate_chains type db;
            row = \<lparr>ch_id = new_id, ch_event_type = type, ch_version = next_version db1 type,
                   ch_active = True, ch_created_at = now\<rparr>
        in Inr (row, db1\<lparr>relay_chains := relay_chains db1 @ [row],
                    relay_chain_stations := relay_chain_stations db1 @ number_from 1 new_id ids\<rparr>))"

definition delete_active_chain :: "string \<Rightarrow> database \<Rightarrow> bool \<times> database" where
  "delete_active_chain type db =
     ((\<exists>c \<in> set (relay_chains db). ch_event_type c = type \<and> ch_active c), deactivate_chains type db)"

section \<open>The gate of a station\<close>

definition relay_open :: "delivery list \<Rightarrow> delivery \<Rightarrow> bool" where
  "relay_open rows e \<longleftrightarrow>
     d_relay_chain_id e = None \<or> d_relay_station_no e = Some 1 \<or>
     (\<exists>prev \<in> set rows. sql_eq (d_event_id prev) (d_event_id e) \<and>
        sql_eq (d_relay_chain_id prev) (d_relay_chain_id e) \<and>
        sql_eq (d_relay_station_no prev) (map_option (\<lambda>n. n - 1) (d_relay_station_no e)) \<and>
        d_reconcile_state prev = Acknowledged)"

section \<open>Fan-out along a chain\<close>

definition bumped :: "destination \<Rightarrow> destination" where
  "bumped d = d\<lparr>dest_next_event_seq := dest_next_event_seq d + 1\<rparr>"

definition bump_seq :: "uuid \<Rightarrow> database \<Rightarrow> database" where
  "bump_seq dest db = update_destination_row dest bumped db"

text \<open>The columns an inserted row takes from the destination row.\<close>

definition numbered :: "(destination \<Rightarrow> delivery) \<Rightarrow> destination \<Rightarrow> delivery" where
  "numbered row d = (row d)\<lparr>d_destination_seq := dest_next_event_seq d,
     d_confirmation_generation := dest_confirmation_generation d\<rparr>"

definition append_delivery :: "delivery \<Rightarrow> database \<Rightarrow> database" where
  "append_delivery d db = db\<lparr>deliveries := deliveries db @ [d]\<rparr>"

text \<open>
  One \<open>WITH bumped AS (UPDATE destinations ...) INSERT INTO deliveries\<close> statement: the new row
  takes the bumped sequence number and the generation of the destination, and nothing is
  inserted when no destination row was updated.
\<close>

definition insert_copy ::
  "(destination \<Rightarrow> bool) \<Rightarrow> uuid \<Rightarrow> (destination \<Rightarrow> delivery) \<Rightarrow> database \<Rightarrow> api_error + database" where
  "insert_copy guard dest row db =
     (case find_destination db dest of
        None \<Rightarrow> Inr db
      | Some d0 \<Rightarrow>
          if \<not> guard d0 then Inr db
          else
            let new = numbered row (bumped d0)
            in if delivery_unique new (deliveries db)
               then Inr (append_delivery new (bump_seq dest db))
               else Inl Constraint_violation)"

definition relay_copy ::
  "time \<Rightarrow> uuid \<Rightarrow> uuid \<Rightarrow> relay_chain \<Rightarrow> int \<Rightarrow> string \<Rightarrow> json \<Rightarrow> time option \<Rightarrow> time option \<Rightarrow>
   destination \<Rightarrow> delivery" where
  "relay_copy now i event chain station key payload not_before deliver_by dest =
     (new_delivery now i event (dest_id dest) (ch_event_type chain) key payload 0)
       \<lparr> d_not_before := not_before, d_deliver_by := deliver_by, d_observe_only := False,
         d_relay_chain_id := Some (ch_id chain), d_relay_station_no := Some station \<rparr>"

text \<open>The loop over the stations; \<open>gen\<close> supplies the id of the row for each station.\<close>

fun fan_out_stations ::
  "time \<Rightarrow> (int \<Rightarrow> uuid) \<Rightarrow> uuid \<Rightarrow> relay_chain \<Rightarrow> string \<Rightarrow> json \<Rightarrow> time option \<Rightarrow> time option \<Rightarrow>
   int \<Rightarrow> uuid list \<Rightarrow> database \<Rightarrow> api_error + database" where
  "fan_out_stations now gen event chain key payload nb dby n [] db = Inr db"
| "fan_out_stations now gen event chain key payload nb dby n (dest # ds) db =
     (case insert_copy (\<lambda>_. True) dest
             (relay_copy now (gen n) event chain n key payload nb dby) db of
        Inl e \<Rightarrow> Inl e
      | Inr db' \<Rightarrow> fan_out_stations now gen event chain key payload nb dby (n + 1) ds db')"

definition fan_out_relay_event ::
  "time \<Rightarrow> (int \<Rightarrow> uuid) \<Rightarrow> uuid \<Rightarrow> relay_chain \<times> relay_station list \<Rightarrow> string \<Rightarrow> json \<Rightarrow>
   time option \<Rightarrow> time option \<Rightarrow> database \<Rightarrow> api_error + database" where
  "fan_out_relay_event now gen event chain key payload nb dby db =
     fan_out_stations now gen event (fst chain) key payload nb dby 1
       (map st_destination_id (snd chain)) db"

section \<open>Stopping a run\<close>

definition stop_reason :: "delivery \<Rightarrow> relay_skip_reason option" where
  "stop_reason d =
     (if d_status d = Dead_lettered then map_option Skip_dead_letter (d_dead_letter_reason d)
      else if d_status d = Superseded then Some Skip_superseded
      else if d_status d = Deadline_expired then Some Skip_deliver_by_expired
      else if d_reconcile_state d = Receipt_failed then Some Skip_receipt_failed
      else if d_reconcile_state d = Timed_out then Some Skip_receipt_timeout
      else None)"

definition skipped_by :: "delivery \<Rightarrow> delivery \<Rightarrow> bool" where
  "skipped_by t later \<longleftrightarrow>
     d_relay_chain_id t \<noteq> None \<and> stop_reason t \<noteq> None \<and>
     sql_eq (d_event_id later) (d_event_id t) \<and>
     sql_eq (d_relay_chain_id later) (d_relay_chain_id t) \<and>
     (case (d_relay_station_no later, d_relay_station_no t) of
        (Some n, Some m) \<Rightarrow> m < n | _ \<Rightarrow> False) \<and>
     d_status later = Pending"

definition skip_row :: "time \<Rightarrow> delivery \<Rightarrow> delivery \<Rightarrow> delivery" where
  "skip_row now t later = later
     \<lparr> d_status := Relay_skipped, d_relay_skipped_at := Some now,
       d_relay_skip_reason := stop_reason t, d_relay_stopped_by_delivery_id := Some (d_id t),
       d_claim_token := None, d_claimed_at := None, d_lease_until := None,
       d_next_attempt_at := now, d_updated_at := now \<rparr>"

definition cascade_after_stop :: "time \<Rightarrow> uuid \<Rightarrow> database \<Rightarrow> database" where
  "cascade_after_stop now i db =
     (case find_delivery db i of
        None \<Rightarrow> db
      | Some t \<Rightarrow> update_deliveries (skipped_by t) (skip_row now t) db)"

definition cascade_all :: "time \<Rightarrow> uuid list \<Rightarrow> database \<Rightarrow> database" where
  "cascade_all now ids db = fold (cascade_after_stop now) ids db"

definition cascade_superseded_destination :: "time \<Rightarrow> uuid \<Rightarrow> database \<Rightarrow> database" where
  "cascade_superseded_destination now dest db =
     cascade_all now
       (map d_id (order_by (\<lambda>d. coalesce (d_event_id d) 0)
          (order_by (\<lambda>d. coalesce (d_relay_station_no d) 0)
            (filter (\<lambda>d. d_destination_id d = dest \<and> d_relay_chain_id d \<noteq> None \<and>
                         d_status d = Superseded) (deliveries db))))) db"

section \<open>The run view of an event\<close>

definition stop_state :: "delivery \<Rightarrow> bool" where
  "stop_state d \<longleftrightarrow> d_status d \<in> {Dead_lettered, Superseded, Deadline_expired} \<or>
     d_reconcile_state d \<in> {Receipt_failed, Timed_out}"

definition reason_of :: "delivery \<Rightarrow> relay_skip_reason option" where
  "reason_of d =
     (if d_status d = Superseded then Some Skip_superseded
      else if d_status d = Deadline_expired then Some Skip_deliver_by_expired
      else if d_status d = Dead_lettered
        then Some (Skip_dead_letter (coalesce (d_dead_letter_reason d) Delivery_attempts_exhausted))
      else if d_reconcile_state d = Receipt_failed then Some Skip_receipt_failed
      else if d_reconcile_state d = Timed_out then Some Skip_receipt_timeout
      else None)"

definition reached :: "delivery \<Rightarrow> bool" where
  "reached d \<longleftrightarrow> d_delivered_at d \<noteq> None \<or> d_status d \<in> {In_flight, Dead_lettered, Superseded} \<or>
     d_reconcile_state d \<in> {Awaiting, Receipt_failed, Timed_out, Acknowledged}"

record relay_run =
  run_station_count :: int
  run_acknowledged_count :: int
  run_delivered_count :: int
  run_skipped_count :: int
  run_current_station_no :: "int option"
  run_stopped :: bool
  run_stopped_at_station_no :: "int option"
  run_stop_reason :: "relay_skip_reason option"
  run_completed :: bool
  run_reached :: "bool list"

definition run_rows :: "database \<Rightarrow> uuid \<Rightarrow> delivery list" where
  "run_rows db event = order_by (\<lambda>d. coalesce (d_relay_station_no d) 0)
     (filter (\<lambda>d. d_event_id d = Some event \<and> d_relay_chain_id d \<noteq> None \<and> d_phase d = Body)
       (deliveries db))"

definition build_event_relay :: "database \<Rightarrow> uuid \<Rightarrow> relay_run option" where
  "build_event_relay db event =
    (let rows = run_rows db event in
     if rows = [] then None else
     let total = int (length rows);
         acknowledged = count_rows (\<lambda>d. d_reconcile_state d = Acknowledged) rows;
         stop = first_row stop_state rows;
         waiting = first_row (\<lambda>d. d_reconcile_state d \<noteq> Acknowledged) rows;
         completed = (acknowledged \<ge> total \<and> total > 0);
         stopped = (stop \<noteq> None \<and> \<not> completed);
         station = (\<lambda>r. case r of None \<Rightarrow> None | Some d \<Rightarrow> d_relay_station_no d)
     in Some
      \<lparr> run_station_count = total,
        run_acknowledged_count = acknowledged,
        run_delivered_count = count_rows (\<lambda>d. d_delivered_at d \<noteq> None) rows,
        run_skipped_count = count_rows (\<lambda>d. d_status d = Relay_skipped) rows,
        run_current_station_no =
          (if stopped then station stop else if completed then None else station waiting),
        run_stopped = stopped,
        run_stopped_at_station_no = (if stopped then station stop else None),
        run_stop_reason =
          (if stopped then (case stop of None \<Rightarrow> None | Some d \<Rightarrow> reason_of d) else None),
        run_completed = completed,
        run_reached = map reached rows \<rparr>)"

section \<open>Copies evolve along the machine\<close>

lemma counters_grow_eq [simp]:
  "d_attempts d' = d_attempts d \<Longrightarrow> d_requeue_count d' = d_requeue_count d \<Longrightarrow>
   d_consecutive_failures d' = d_consecutive_failures d \<Longrightarrow> counters_grow d d'"
  by (simp add: counters_grow_def)

lemma skip_row_evolves:
  assumes "skipped_by t d"
  shows "row_evolves d (skip_row now t d)"
proof (rule row_evolves_step)
  from assms obtain r where r: "stop_reason t = Some r" and p: "d_status d = Pending"
    by (auto simp: skipped_by_def)
  have "copy_of (skip_row now t d) = (copy_of d)\<lparr>c_status := Relay_skipped, c_skip := Some r\<rparr>"
    by (simp add: copy_of_def skip_row_def r)
  then show "lifecycle (copy_of d) (copy_of (skip_row now t d))"
    using p by (auto intro: lifecycle.skip)
qed (simp_all add: same_snapshot_def skip_row_def)

lemma cascade_after_stop_keeps: "keeps db (cascade_after_stop now i db)"
proof (cases "find_delivery db i")
  case None
  then show ?thesis by (simp add: cascade_after_stop_def)
next
  case (Some t)
  then show ?thesis
    by (simp add: cascade_after_stop_def keeps_update_deliveries skip_row_evolves)
qed

lemma cascade_all_keeps: "keeps db (cascade_all now ids db)"
  unfolding cascade_all_def by (rule keeps_fold) (rule cascade_after_stop_keeps)

lemma cascade_superseded_destination_keeps:
  "keeps db (cascade_superseded_destination now dest db)"
  unfolding cascade_superseded_destination_def by (rule cascade_all_keeps)

interpretation cascade: delivery_operation "cascade_after_stop now i" for now i
  by unfold_locales (rule cascade_after_stop_keeps)

lemma relay_copy_fresh:
  assumes "1 \<le> n" and "0 \<le> dest_next_event_seq d"
  shows "fresh_row (numbered (relay_copy now i event chain n key payload nb dby) d)"
  using assms by (simp add: numbered_def fresh_row_def relay_copy_def new_delivery_def delivery_check_def
      copy_shape_def)

text \<open>An insertion either leaves the table alone or appends the one row it was given.\<close>

lemma insert_copy_cases:
  assumes "insert_copy guard dest row db = Inr db'"
  obtains (skipped) "db' = db"
  | (inserted) d new where "find_destination db dest = Some d" "guard d"
      "new = numbered row (bumped d)"
      "delivery_unique new (deliveries db)" "db' = append_delivery new (bump_seq dest db)"
proof (cases "find_destination db dest")
  case None
  with assms have "db' = db" by (simp add: insert_copy_def)
  then show thesis by (rule skipped)
next
  case (Some d)
  show thesis
  proof (cases "guard d")
    case False
    with assms Some have "db' = db" by (simp add: insert_copy_def)
    then show thesis by (rule skipped)
  next
    case True
    define new where "new = numbered row (bumped d)"
    have "delivery_unique new (deliveries db)"
      and "db' = append_delivery new (bump_seq dest db)"
      using assms Some True by (auto simp: insert_copy_def Let_def new_def split: if_splits)
    with Some True new_def show thesis by (rule inserted)
  qed
qed

lemma append_delivery_simps [simp]:
  "deliveries (append_delivery d db) = deliveries db @ [d]"
  "destinations (append_delivery d db) = destinations db"
  "events (append_delivery d db) = events db"
  by (simp_all add: append_delivery_def)

lemma bump_seq_deliveries [simp]: "deliveries (bump_seq dest db) = deliveries db"
  by (simp add: bump_seq_def)

lemma bumped_check: "destination_check d \<Longrightarrow> destination_check (bumped d)"
  by (simp add: destination_check_def bumped_def)

lemma insert_copy_keeps:
  assumes "insert_copy guard dest row db = Inr db'" and "destinations_ok db"
    and "\<And>d. 0 \<le> dest_next_event_seq d \<Longrightarrow> fresh_row (numbered row d)"
  shows "keeps db db'"
  using assms(1)
proof (cases rule: insert_copy_cases)
  case skipped
  then show ?thesis by simp
next
  case (inserted d new)
  then have "destination_check d"
    using assms(2) by (auto simp: destinations_ok_def dest!: find_destination_key)
  then have "fresh_row new"
    using inserted(3) assms(3) by (simp add: bumped_def destination_check_def)
  moreover have "destinations_ok (bump_seq dest db)"
    unfolding bump_seq_def by (rule destinations_ok_row_update) (simp_all add: bumped_check assms(2))
  ultimately show ?thesis
    unfolding keeps_def using inserted(5)
    by (intro conjI evolves_insert [of "[new]"] impI keys_ok_insert [of db' db new])
      (simp_all add: destinations_ok_def inserted(4))
qed

lemma fan_out_stations_keeps:
  "fan_out_stations now gen event chain key payload nb dby n ds db = Inr db' \<Longrightarrow> 1 \<le> n \<Longrightarrow>
   destinations_ok db \<Longrightarrow> keeps db db'"
proof (induction ds arbitrary: n db)
  case Nil
  then show ?case by simp
next
  case (Cons dest ds)
  then obtain db1 where 1: "insert_copy (\<lambda>_. True) dest
      (relay_copy now (gen n) event chain n key payload nb dby) db = Inr db1"
    and 2: "fan_out_stations now gen event chain key payload nb dby (n + 1) ds db1 = Inr db'"
    by (auto split: sum.splits)
  have k: "keeps db db1"
    using 1 Cons.prems(3) by (rule insert_copy_keeps) (rule relay_copy_fresh [OF Cons.prems(2)])
  then have "destinations_ok db1"
    using Cons.prems(3) by (simp add: keeps_def)
  then have "keeps db1 db'"
    using Cons.IH [OF 2] Cons.prems(2) by simp
  with k show ?case by (rule keeps_trans)
qed

lemma fan_out_relay_event_keeps:
  "fan_out_relay_event now gen event chain key payload nb dby db = Inr db' \<Longrightarrow> destinations_ok db \<Longrightarrow>
   keeps db db'"
  unfolding fan_out_relay_event_def using fan_out_stations_keeps [where n = 1] by simp

section \<open>Facts about chain versions\<close>

lemma number_from_destinations [simp]: "map st_destination_id (number_from n chain ids) = ids"
  by (induction ids arbitrary: n) simp_all

lemma number_from_numbers: "map st_station_no (number_from n chain ids) = [n..n + int (length ids) - 1]"
proof (induction ids arbitrary: n)
  case Nil
  then show ?case by simp
next
  case (Cons i ids)
  then show ?case by (simp add: upto_rec1 [of n] algebra_simps)
qed

lemma number_from_chain: "s \<in> set (number_from n chain ids) \<Longrightarrow> st_chain_id s = chain"
  by (induction ids arbitrary: n) auto

lemma number_from_sorted: "sorted (map st_station_no (number_from n chain ids))"
  unfolding number_from_numbers by (rule sorted_upto)

text \<open>The id of a new chain version is not in use.\<close>

definition chain_id_fresh :: "database \<Rightarrow> uuid \<Rightarrow> bool" where
  "chain_id_fresh db i \<longleftrightarrow> (\<forall>s \<in> set (relay_chain_stations db). st_chain_id s \<noteq> i)"

lemma fold_max_ge: "(\<forall>v \<in> set vs. v \<le> fold max vs (m::int)) \<and> m \<le> fold max vs m"
proof (induction vs arbitrary: m)
  case Nil
  then show ?case by simp
next
  case (Cons v vs)
  from Cons [of "max v m"] show ?case by auto
qed

lemma next_version_gt:
  "c \<in> set (relay_chains db) \<Longrightarrow> ch_event_type c = type \<Longrightarrow> ch_version c < next_version db type"
  using fold_max_ge [of "map ch_version (filter (\<lambda>c. ch_event_type c = type) (relay_chains db))" 0]
  by (fastforce simp: next_version_def)

lemma next_version_deactivate [simp]: "next_version (deactivate_chains type db) ty = next_version db ty"
proof -
  have "map ch_version (filter (\<lambda>c. ch_event_type c = ty) (sql_update P (\<lambda>c. c\<lparr>ch_active := False\<rparr>) cs))
    = map ch_version (filter (\<lambda>c. ch_event_type c = ty) cs)" for P and cs :: "relay_chain list"
    by (induction cs) simp_all
  then show ?thesis
    by (simp add: next_version_def deactivate_chains_def)
qed

lemma deactivate_chains_simps [simp]:
  "deliveries (deactivate_chains type db) = deliveries db"
  "destinations (deactivate_chains type db) = destinations db"
  "events (deactivate_chains type db) = events db"
  "event_type_preview_policies (deactivate_chains type db) = event_type_preview_policies db"
  "relay_chain_stations (deactivate_chains type db) = relay_chain_stations db"
  by (simp_all add: deactivate_chains_def)

lemma active_chain_row_deactivate:
  "active_chain_row (deactivate_chains type db) ty = (if ty = type then None else active_chain_row db ty)"
proof -
  have "first_row (\<lambda>c. ch_event_type c = ty \<and> ch_active c)
      (sql_update (\<lambda>c. ch_event_type c = type \<and> ch_active c) (\<lambda>c. c\<lparr>ch_active := False\<rparr>) cs)
    = (if ty = type then None else first_row (\<lambda>c. ch_event_type c = ty \<and> ch_active c) cs)" for cs :: "relay_chain list"
    by (induction cs) auto
  then show ?thesis by (simp add: active_chain_row_def deactivate_chains_def)
qed

lemma first_row_append: "first_row P (xs @ ys) = (case first_row P xs of None \<Rightarrow> first_row P ys | Some r \<Rightarrow> Some r)"
  by (induction xs) simp_all

lemma sort_key_id: "sorted (map k xs) \<Longrightarrow> sort_key k xs = xs"
  by (induction xs) (auto simp: insort_is_Cons)

lemma define_chain_result:
  assumes "define_chain now i type ids db = Inr (c, db')" and "chain_id_fresh db i"
  shows "ch_id c = i" "ch_event_type c = type" "ch_active c" "ch_version c = next_version db type"
    "ids \<noteq> []" "distinct ids" "\<not> has_policy db type"
    "get_active_chain db' type = Some (c, number_from 1 i ids)"
    "ty \<noteq> type \<Longrightarrow> active_chain_row db' ty = active_chain_row db ty"
    "deliveries db' = deliveries db" "destinations db' = destinations db"
    "event_type_preview_policies db' = event_type_preview_policies db"
proof -
  define db1 where "db1 = deactivate_chains type db"
  have guard: "ids \<noteq> []" "distinct ids" "\<not> has_policy db type"
    and c: "c = \<lparr>ch_id = i, ch_event_type = type, ch_version = next_version db type,
        ch_active = True, ch_created_at = now\<rparr>"
    and db': "db' = db1\<lparr>relay_chains := relay_chains db1 @ [c],
        relay_chain_stations := relay_chain_stations db1 @ number_from 1 i ids\<rparr>"
    using assms(1) by (auto simp: define_chain_def Let_def db1_def split: if_splits)
  show "ids \<noteq> []" "distinct ids" "\<not> has_policy db type"
    using guard by auto
  show "ch_id c = i" "ch_event_type c = type" "ch_active c" "ch_version c = next_version db type"
    by (simp_all add: c)
  have row: "active_chain_row db' ty = (if ty = type then Some c else active_chain_row db ty)" for ty
    using active_chain_row_deactivate [of type db ty]
    by (auto simp: db' db1_def active_chain_row_def first_row_append c split: option.splits)
  then show "ty \<noteq> type \<Longrightarrow> active_chain_row db' ty = active_chain_row db ty" for ty
    by simp
  have "filter (\<lambda>s. st_chain_id s = i) (relay_chain_stations db' ) = number_from 1 i ids"
    using assms(2) number_from_chain [of _ 1 i ids]
    by (auto simp: db' db1_def chain_id_fresh_def filter_empty_conv filter_id_conv)
  then have "chain_stations db' i = number_from 1 i ids"
    by (simp add: chain_stations_def order_by_def sort_key_id number_from_sorted)
  with row show "get_active_chain db' type = Some (c, number_from 1 i ids)"
    by (simp add: get_active_chain_def c)
  show "deliveries db' = deliveries db" "destinations db' = destinations db"
    "event_type_preview_policies db' = event_type_preview_policies db"
    by (simp_all add: db' db1_def)
qed

text \<open>A type never has an active chain and a preview policy at once.\<close>

definition gate_exclusive :: "database \<Rightarrow> bool" where
  "gate_exclusive db \<longleftrightarrow> (\<forall>p \<in> set (event_type_preview_policies db).
     \<forall>c \<in> set (relay_chains db). ch_active c \<longrightarrow> ch_event_type c \<noteq> p_event_type p)"

lemma gate_exclusive_define_chain:
  assumes "define_chain now i type ids db = Inr (c, db')" and "gate_exclusive db"
  shows "gate_exclusive db'"
proof -
  have "\<not> has_policy db type" "event_type_preview_policies db' = event_type_preview_policies db"
    and chains: "relay_chains db' = relay_chains (deactivate_chains type db) @ [c]"
    and "ch_event_type c = type"
    using assms(1) by (auto simp: define_chain_def Let_def split: if_splits)
  then show ?thesis
    using assms(2)
    by (fastforce simp: gate_exclusive_def has_policy_def deactivate_chains_def set_sql_update
        split: if_splits)
qed

lemma gate_exclusive_deactivate: "gate_exclusive db \<Longrightarrow> gate_exclusive (deactivate_chains type db)"
  by (fastforce simp: gate_exclusive_def deactivate_chains_def set_sql_update split: if_splits)

lemma define_chain_errors:
  "ids = [] \<or> \<not> distinct ids \<Longrightarrow> define_chain now i type ids db = Inl (Http 422)"
  "ids \<noteq> [] \<Longrightarrow> distinct ids \<Longrightarrow> \<exists>x \<in> set ids. find_destination db x = None \<Longrightarrow>
   define_chain now i type ids db = Inl (Http 404)"
  "ids \<noteq> [] \<Longrightarrow> distinct ids \<Longrightarrow> \<forall>x \<in> set ids. find_destination db x \<noteq> None \<Longrightarrow>
   has_policy db type \<Longrightarrow> define_chain now i type ids db = Inl (Http 409)"
  by (auto simp: define_chain_def)

interpretation chain: delivery_operation "\<lambda>db. committed (define_chain now i type ids db) db"
  for now i type ids
  by unfold_locales
    (auto intro!: keeps_committed keeps_same simp: define_chain_def Let_def split: if_splits)

interpretation chain_delete: delivery_operation "\<lambda>db. snd (delete_active_chain type db)" for type
  by unfold_locales (auto intro!: keeps_same simp: delete_active_chain_def)

section \<open>Facts about the cascade\<close>

lemma skipped_by_self: "\<not> skipped_by t t"
  by (simp add: skipped_by_def split: option.splits)

lemma skip_row_id [simp]: "d_id (skip_row now t d) = d_id d"
  by (simp add: skip_row_def)

lemma skip_row_not_pending [simp]: "\<not> skipped_by t' (skip_row now t d)"
  by (simp add: skipped_by_def skip_row_def)

lemma find_delivery_cascade:
  "find_delivery db i = Some t \<Longrightarrow> find_delivery (cascade_after_stop now i db) i = Some t"
  by (simp add: cascade_after_stop_def find_delivery_update skipped_by_self)

lemma sql_update_done:
  "(\<And>r. r \<in> set rows \<Longrightarrow> P r \<Longrightarrow> \<not> Q (f r)) \<Longrightarrow> (\<And>r. r \<in> set rows \<Longrightarrow> Q r \<Longrightarrow> P r) \<Longrightarrow>
   sql_update Q g (sql_update P f rows) = sql_update P f rows"
  by (induction rows) auto

lemma cascade_idempotent:
  "cascade_after_stop now' i (cascade_after_stop now i db) = cascade_after_stop now i db"
proof (cases "find_delivery db i")
  case None
  then show ?thesis by (simp add: cascade_after_stop_def)
next
  case (Some t)
  have "cascade_after_stop now' i (cascade_after_stop now i db)
    = update_deliveries (skipped_by t) (skip_row now' t) (cascade_after_stop now i db)"
    using find_delivery_cascade [OF Some] by (simp add: cascade_after_stop_def)
  also have "\<dots> = cascade_after_stop now i db"
    by (simp add: cascade_after_stop_def Some update_deliveries_def sql_update_done)
  finally show ?thesis .
qed

text \<open>Exactly the queued stations behind the stop are closed, each with its cause.\<close>

lemma cascade_rows:
  assumes "find_delivery db i = Some t"
  shows "deliveries (cascade_after_stop now i db)
    = map (\<lambda>d. if skipped_by t d then skip_row now t d else d) (deliveries db)"
  using assms by (simp add: cascade_after_stop_def sql_update_def)

lemma cascade_no_pending_behind:
  assumes "find_delivery db i = Some t" and "stop_reason t \<noteq> None"
    and "d \<in> set (deliveries (cascade_after_stop now i db))"
    and "d_event_id d = d_event_id t" "d_event_id t \<noteq> None"
    and "d_relay_chain_id d = d_relay_chain_id t" "d_relay_chain_id t \<noteq> None"
    and "d_relay_station_no t = Some m" "d_relay_station_no d = Some n" "m < n"
  shows "d_status d \<noteq> Pending"
proof
  assume "d_status d = Pending"
  then have "skipped_by t d"
    using assms(2,4-) by (auto simp: skipped_by_def sql_eq_def)
  moreover have "\<not> skipped_by t d"
    using assms(3) cascade_rows [OF assms(1)] by (auto split: if_splits)
  ultimately show False by contradiction
qed

section \<open>Facts about the run view\<close>

lemma count_rows_all: "(count_rows P rows = int (length rows)) = (\<forall>r \<in> set rows. P r)"
  using sum_length_filter_compl [of P rows]
  by (auto simp: count_rows_def filter_empty_conv)

lemma count_rows_le_length: "count_rows P rows \<le> int (length rows)"
  by (simp add: count_rows_def)

lemma build_event_relay_completed:
  assumes "build_event_relay db event = Some v"
  shows "run_completed v \<longleftrightarrow> (\<forall>d \<in> set (run_rows db event). d_reconcile_state d = Acknowledged)"
proof -
  have "run_rows db event \<noteq> []"
    and "run_completed v \<longleftrightarrow> count_rows (\<lambda>d. d_reconcile_state d = Acknowledged) (run_rows db event)
      \<ge> int (length (run_rows db event))"
    using assms by (auto simp: build_event_relay_def Let_def split: if_splits)
  then show ?thesis
    using count_rows_all [of "\<lambda>d. d_reconcile_state d = Acknowledged" "run_rows db event"]
      count_rows_le_length [of "\<lambda>d. d_reconcile_state d = Acknowledged" "run_rows db event"]
    by linarith
qed

lemma build_event_relay_stopped:
  assumes "build_event_relay db event = Some v"
  shows "run_stopped v \<longleftrightarrow> \<not> run_completed v \<and> (\<exists>d \<in> set (run_rows db event). stop_state d)"
  using assms first_row_None [of stop_state "run_rows db event"]
  by (auto simp: build_event_relay_def Let_def split: if_splits)

end
