(* ===== verification/Deadlines.thy ===== *)
theory Deadlines
  imports Relay
begin

text \<open>
  app/deadlines.py: the latest-delivery promise of an event. A copy whose \<open>deliver_by\<close> passes
  while it is queued (\<open>expire_due_deliveries\<close>) or before its HTTP call ended
  (\<open>expire_in_flight_delivery\<close>) is closed, with the gated body behind it when it is a preview.
\<close>

section \<open>Rewrites of a row\<close>

definition release_claim :: "delivery \<Rightarrow> delivery" where
  "release_claim d = d\<lparr>d_claim_token := None, d_claimed_at := None, d_lease_until := None\<rparr>"

definition cutoff_gated :: "delivery \<Rightarrow> bool" where
  "cutoff_gated d \<longleftrightarrow> d_phase d = Body \<and> (d_release_state d = Some Held \<or> d_release_state d = Some Released)"

definition expired_row :: "time \<Rightarrow> delivery \<Rightarrow> delivery" where
  "expired_row now d = (release_claim d)
     \<lparr> d_status := Deadline_expired,
       d_deliver_by_expired_at := Some (coalesce (d_deliver_by_expired_at d) now),
       d_release_state := (if cutoff_gated d then Some Cutoff_expired else d_release_state d),
       d_voided_at := (if cutoff_gated d then Some now else d_voided_at d),
       d_void_reason := (if cutoff_gated d then Some Void_deliver_by_expired else d_void_reason d),
       d_next_attempt_at := now, d_updated_at := now \<rparr>"

definition expired_body_row :: "time \<Rightarrow> delivery \<Rightarrow> delivery" where
  "expired_body_row now d = (release_claim d)
     \<lparr> d_status := Deadline_expired, d_release_state := Some Cutoff_expired,
       d_voided_at := Some now, d_void_reason := Some Void_preview_deadline_expired,
       d_next_attempt_at := now, d_updated_at := now \<rparr>"

definition queued_gated :: "delivery \<Rightarrow> bool" where
  "queued_gated d \<longleftrightarrow> d_status d = Pending \<and>
     (d_release_state d = Some Held \<or> d_release_state d = Some Released)"

section \<open>Operations\<close>

definition update_event_deadline ::
  "time \<Rightarrow> uuid \<Rightarrow> time option \<Rightarrow> database \<Rightarrow> (int \<times> int \<times> int) \<times> database" where
  "update_event_deadline now event deliver_by db =
     (let hit = (\<lambda>d. find_event db event \<noteq> None \<and> d_event_id d = Some event \<and>
            (d_status d = Pending \<or> d_status d = In_flight) \<and> d_delivered_at d = None)
      in ((count_rows hit (deliveries db),
           count_rows (\<lambda>d. hit d \<and> \<not> d_observe_only d) (deliveries db),
           count_rows (\<lambda>d. hit d \<and> d_observe_only d) (deliveries db)),
          update_deliveries hit (\<lambda>d. d\<lparr>d_deliver_by := deliver_by, d_updated_at := now\<rparr>)
            (update_event_row event (\<lambda>e. e\<lparr>e_deliver_by := deliver_by\<rparr>) db)))"

definition due_rows :: "time \<Rightarrow> nat \<Rightarrow> delivery list \<Rightarrow> delivery list" where
  "due_rows now limit rows =
     take limit (order_by (\<lambda>d. coalesce (d_deliver_by d) 0) (order_by d_id
       (filter (\<lambda>d. d_status d = Pending \<and> null_lt (d_deliver_by d) now \<and> relay_open rows d) rows)))"

text \<open>
  The two UPDATEs of the statement see the same snapshot. A body that is due itself and also
  stands behind a due preview is the target of both; PostgreSQL applies one of them and does
  not say which, so \<open>pick\<close> chooses (true: the body's own expiry).
\<close>

definition expire_due_deliveries ::
  "time \<Rightarrow> nat \<Rightarrow> (uuid \<Rightarrow> bool) \<Rightarrow> database \<Rightarrow> uuid list \<times> database" where
  "expire_due_deliveries now limit pick db =
     (let due = due_rows now limit (deliveries db);
          own = (\<lambda>d. d_id d \<in> set (map d_id due));
          behind = (\<lambda>d. (\<exists>p \<in> set due. d_phase p = Preview \<and> d_body_delivery_id p = Some (d_id d))
                        \<and> queued_gated d);
          by_own = (\<lambda>d. own d \<and> (\<not> behind d \<or> pick (d_id d)))
      in (map d_id (filter (\<lambda>d. d_relay_chain_id d \<noteq> None \<and> by_own d) due),
          update_deliveries (\<lambda>d. own d \<or> behind d)
            (\<lambda>d. if by_own d then expired_row now d else expired_body_row now d) db))"

definition expire_in_flight_delivery ::
  "time \<Rightarrow> uuid \<Rightarrow> time option \<Rightarrow> database \<Rightarrow> bool \<times> database" where
  "expire_in_flight_delivery now i finished db =
     (let hit = (\<lambda>d. d_id d = i \<and> d_status d = In_flight \<and> null_le (d_deliver_by d) (coalesce finished now))
      in case first_row hit (deliveries db) of
           None \<Rightarrow> (False, db)
         | Some d \<Rightarrow>
             let db1 = update_deliveries hit (expired_row now) db in
             (True,
              if d_phase d = Preview
              then update_deliveries (\<lambda>b. d_body_delivery_id d = Some (d_id b) \<and> queued_gated b)
                     (expired_body_row now) db1
              else db1))"

section \<open>The rewrites follow the life cycle\<close>

lemma release_claim_simps [simp]:
  "copy_of (release_claim d) = copy_of d" "same_snapshot d (release_claim d)"
  "d_id (release_claim d) = d_id d" "d_status (release_claim d) = d_status d"
  by (simp_all add: release_claim_def copy_of_def same_snapshot_def)

lemma expired_row_evolves:
  assumes "d_status d = Pending \<or> d_status d = In_flight"
  shows "row_evolves d (expired_row now d)"
  by (rule row_evolves_edge [OF lifecycle.miss_cutoff])
    (use assms in \<open>simp_all add: copy_of_def expired_row_def release_claim_def cutoff_gated_def
       cutoff_release_def same_snapshot_def counters_grow_def\<close>)

lemma expired_body_row_evolves:
  assumes "queued_gated d" and "row_ok d"
  shows "row_evolves d (expired_body_row now d)"
proof -
  have "d_phase d = Body"
    using assms by (auto simp: queued_gated_def intro: row_ok_gated_body)
  then show ?thesis
    by - (rule row_evolves_edge [OF lifecycle.miss_cutoff],
      use assms(1) in \<open>simp_all add: copy_of_def expired_body_row_def release_claim_def
        queued_gated_def cutoff_release_def same_snapshot_def counters_grow_def\<close>)
qed

lemma update_event_deadline_keeps: "keeps db (snd (update_event_deadline now event deliver_by db))"
proof -
  let ?db1 = "update_event_row event (\<lambda>e. e\<lparr>e_deliver_by := deliver_by\<rparr>) db"
  have "keeps ?db1 (snd (update_event_deadline now event deliver_by db))"
    unfolding update_event_deadline_def Let_def snd_conv
    by (rule keeps_update_deliveries, rule row_evolves_stay)
      (simp_all add: copy_of_def same_snapshot_def counters_grow_def)
  then show ?thesis
    by (rule keeps_trans [OF keeps_update_event])
qed

lemma due_rows_mem:
  assumes "d \<in> set (due_rows now limit rows)"
  shows "d \<in> set rows \<and> d_status d = Pending \<and> null_lt (d_deliver_by d) now \<and> relay_open rows d"
  using assms unfolding due_rows_def by (auto dest: in_set_takeD)

lemma due_row_own:
  assumes "keys_ok db" and "d \<in> set (deliveries db)"
    and "d_id d \<in> set (map d_id (due_rows now limit (deliveries db)))"
  shows "d \<in> set (due_rows now limit (deliveries db))"
  by (rule keys_ok_member [OF assms(1) _ assms(2,3)]) (auto dest: due_rows_mem)

lemma expire_due_keeps:
  assumes "db_ok db"
  shows "keeps db (snd (expire_due_deliveries now limit pick db))"
  unfolding expire_due_deliveries_def Let_def snd_conv
proof (rule keeps_update_deliveries)
  fix d :: delivery
  let ?due = "due_rows now limit (deliveries db)"
  let ?own = "d_id d \<in> set (map d_id ?due)"
  let ?behind = "(\<exists>p \<in> set ?due. d_phase p = Preview \<and> d_body_delivery_id p = Some (d_id d)) \<and> queued_gated d"
  assume d: "d \<in> set (deliveries db)" and hit: "?own \<or> ?behind"
  have own: "row_evolves d (expired_row now d)" if ?own
    using that due_row_own d assms due_rows_mem
    by (blast intro: expired_row_evolves dest: db_ok_keys)
  have behind: "row_evolves d (expired_body_row now d)" if ?behind
    using that d assms by (auto intro: expired_body_row_evolves row_ok_in simp: db_ok_def)
  from hit own behind
  show "row_evolves d (if ?own \<and> (\<not> ?behind \<or> pick (d_id d)) then expired_row now d else expired_body_row now d)"
    by auto
qed

interpretation expire_due: delivery_operation "\<lambda>db. snd (expire_due_deliveries now limit pick db)"
  for now limit pick
  by unfold_locales (rule expire_due_keeps)

lemma expire_in_flight_keeps:
  assumes "db_ok db"
  shows "keeps db (snd (expire_in_flight_delivery now i finished db))"
proof -
  let ?hit = "\<lambda>d. d_id d = i \<and> d_status d = In_flight \<and> null_le (d_deliver_by d) (coalesce finished now)"
  let ?db1 = "update_deliveries ?hit (expired_row now) db"
  have 1: "keeps db ?db1"
    by (rule keeps_update_deliveries) (simp add: expired_row_evolves)
  then have "db_ok ?db1"
    using assms by (rule keeps_db_ok)
  then have "keeps ?db1 (update_deliveries (\<lambda>b. d_body_delivery_id d = Some (d_id b) \<and> queued_gated b)
      (expired_body_row now) ?db1)" for d
    by (intro keeps_update_deliveries expired_body_row_evolves) (auto intro: row_ok_in simp: db_ok_def)
  with 1 show ?thesis
    unfolding expire_in_flight_delivery_def Let_def
    by (cases "first_row ?hit (deliveries db)") (auto intro: keeps_trans)
qed

interpretation expire_in_flight: delivery_operation "\<lambda>db. snd (expire_in_flight_delivery now i finished db)"
  for now i finished
  by unfold_locales (rule expire_in_flight_keeps)

interpretation event_deadline: delivery_operation "\<lambda>db. snd (update_event_deadline now event deliver_by db)"
  for now event deliver_by
  by unfold_locales (rule update_event_deadline_keeps)

section \<open>What a sweep closes\<close>

lemma expired_row_status [simp]:
  "d_status (expired_row now d) = Deadline_expired" "d_status (expired_body_row now d) = Deadline_expired"
  "d_delivered_at (expired_row now d) = d_delivered_at d"
  "d_delivered_at (expired_body_row now d) = d_delivered_at d"
  "d_claim_token (expired_row now d) = None" "d_claim_token (expired_body_row now d) = None"
  by (simp_all add: expired_row_def expired_body_row_def release_claim_def)

text \<open>
  With room in the batch every due copy is closed: none is left in the queue after the sweep,
  and only copies that were due, or stood behind a due preview, are touched.
\<close>

lemma due_rows_all:
  assumes "length rows \<le> limit"
  shows "set (due_rows now limit rows)
    = {d \<in> set rows. d_status d = Pending \<and> null_lt (d_deliver_by d) now \<and> relay_open rows d}"
proof -
  have "length (filter P rows) \<le> limit" for P :: "delivery \<Rightarrow> bool"
    using assms length_filter_le [of P rows] by linarith
  then show ?thesis by (simp add: due_rows_def)
qed

lemma expire_due_closes:
  assumes "length (deliveries db) \<le> limit" and "d \<in> set (deliveries db)"
    and "d_status d = Pending" "null_lt (d_deliver_by d) now" "relay_open (deliveries db) d"
  shows "\<exists>d' \<in> set (deliveries (snd (expire_due_deliveries now limit pick db))).
    d_id d' = d_id d \<and> d_status d' = Deadline_expired \<and> d_delivered_at d' = d_delivered_at d"
proof -
  let ?due = "due_rows now limit (deliveries db)"
  have "d \<in> set ?due"
    using assms by (simp add: due_rows_all)
  then have own: "d_id d \<in> set (map d_id ?due)" by simp
  let ?b = "d_id d \<in> set (map d_id ?due) \<and> (\<not> ((\<exists>p \<in> set ?due. d_phase p = Preview
      \<and> d_body_delivery_id p = Some (d_id d)) \<and> queued_gated d) \<or> pick (d_id d))"
  let ?d' = "if ?b then expired_row now d else expired_body_row now d"
  have "?d' \<in> set (deliveries (snd (expire_due_deliveries now limit pick db)))"
    unfolding expire_due_deliveries_def Let_def snd_conv update_deliveries_simps set_sql_update
    using own by (intro image_eqI [where x = d]) (simp_all only: assms(2) simp_thms if_True)
  then show ?thesis
    by (rule bexI [rotated]) (simp add: expired_row_def expired_body_row_def release_claim_def)
qed

lemma expire_due_untouched:
  assumes "keys_ok db" and "d \<in> set (deliveries db)"
    and "\<not> (d_status d = Pending \<and> null_lt (d_deliver_by d) now \<and> relay_open (deliveries db) d)"
    and "\<not> (queued_gated d \<and> (\<exists>p \<in> set (deliveries db). d_phase p = Preview \<and>
        d_body_delivery_id p = Some (d_id d) \<and> null_lt (d_deliver_by p) now \<and> d_status p = Pending))"
  shows "d \<in> set (deliveries (snd (expire_due_deliveries now limit pick db)))"
proof -
  let ?due = "due_rows now limit (deliveries db)"
  have "d_id d \<notin> set (map d_id ?due)"
    using due_row_own [OF assms(1,2)] assms(3) due_rows_mem by blast
  moreover have "\<not> ((\<exists>p \<in> set ?due. d_phase p = Preview \<and> d_body_delivery_id p = Some (d_id d)) \<and> queued_gated d)"
    using assms(4) due_rows_mem by blast
  ultimately show ?thesis
    unfolding expire_due_deliveries_def Let_def snd_conv update_deliveries_simps set_sql_update
    by (intro image_eqI [where x = d]) (simp_all only: assms(2) simp_thms if_False)
qed

end
