(* ===== verification/Release.thy ===== *)
theory Release
  imports Deadlines
begin

text \<open>
  app/release.py: the preview-consent gate. A gated event is a preview and a held body per
  destination; the body is released, denied, expired or voided. Fan-out, the outcomes of a
  preview's transport, the decisions of an address, the expiry sweep and the manual void.
\<close>

section \<open>Policies\<close>

definition preview_key :: "string \<Rightarrow> string" where
  "preview_key key = ''prev:'' @ key"

definition get_policy :: "database \<Rightarrow> string \<Rightarrow> preview_policy option" where
  "get_policy db type = first_row (\<lambda>p. p_event_type p = type) (event_type_preview_policies db)"

definition upsert_policy :: "string \<Rightarrow> int \<Rightarrow> database \<Rightarrow> database" where
  "upsert_policy type timeout db =
     (if get_policy db type = None
      then db\<lparr>event_type_preview_policies := event_type_preview_policies db
             @ [\<lparr>p_event_type = type, p_consent_timeout_seconds = timeout\<rparr>]\<rparr>
      else db\<lparr>event_type_preview_policies := sql_update (\<lambda>p. p_event_type p = type)
             (\<lambda>p. p\<lparr>p_consent_timeout_seconds := timeout\<rparr>) (event_type_preview_policies db)\<rparr>)"

definition delete_policy :: "string \<Rightarrow> database \<Rightarrow> database" where
  "delete_policy type db = db\<lparr>event_type_preview_policies :=
     filter (\<lambda>p. p_event_type p \<noteq> type) (event_type_preview_policies db)\<rparr>"

section \<open>Fan-out of a gated event\<close>

text \<open>One subscriber of a fan-out: its id, whether it only observes, its condition.\<close>

type_synonym target = "uuid \<times> bool \<times> json option"

definition preview_copy ::
  "time \<Rightarrow> uuid \<Rightarrow> uuid \<Rightarrow> string \<Rightarrow> string \<Rightarrow> json option \<Rightarrow> time option \<Rightarrow> time option \<Rightarrow> int \<Rightarrow>
   bool \<Rightarrow> json option \<Rightarrow> destination \<Rightarrow> delivery" where
  "preview_copy now i event type key preview nb dby timeout shadow spec dest =
     (new_delivery now i event (dest_id dest) type (preview_key key) (coalesce preview (JObj [])) 0)
       \<lparr> d_not_before := nb, d_deliver_by := dby, d_observe_only := shadow, d_filter_spec := spec,
         d_phase := Preview, d_consent_timeout_seconds := Some timeout,
         d_body_delivery_id := Some 0 \<rparr>"

definition body_copy ::
  "time \<Rightarrow> uuid \<Rightarrow> uuid \<Rightarrow> string \<Rightarrow> string \<Rightarrow> json \<Rightarrow> time option \<Rightarrow> time option \<Rightarrow> int \<Rightarrow>
   bool \<Rightarrow> json option \<Rightarrow> uuid \<Rightarrow> destination \<Rightarrow> delivery" where
  "body_copy now i event type key payload nb dby timeout shadow spec preview_id dest =
     (new_delivery now i event (dest_id dest) type key payload 0)
       \<lparr> d_not_before := nb, d_deliver_by := dby, d_observe_only := shadow, d_filter_spec := spec,
         d_release_state := Some Held, d_consent_timeout_seconds := Some timeout,
         d_preview_delivery_id := Some preview_id \<rparr>"

text \<open>The INSERT must return its row (\<open>.one()\<close>), so a missing destination is an error here.\<close>

definition insert_one :: "uuid \<Rightarrow> (destination \<Rightarrow> delivery) \<Rightarrow> database \<Rightarrow> api_error + database" where
  "insert_one dest row db =
     (if find_destination db dest = None then Inl No_result else insert_copy (\<lambda>_. True) dest row db)"

definition fan_out_pair ::
  "time \<Rightarrow> uuid \<Rightarrow> uuid \<Rightarrow> uuid \<Rightarrow> string \<Rightarrow> string \<Rightarrow> json \<Rightarrow> json option \<Rightarrow> time option \<Rightarrow>
   time option \<Rightarrow> int \<Rightarrow> target \<Rightarrow> database \<Rightarrow> api_error + database" where
  "fan_out_pair now pid bid event type key payload preview nb dby timeout t db =
     (case t of (dest, shadow, spec) \<Rightarrow>
       (case insert_one dest (preview_copy now pid event type key preview nb dby timeout shadow spec) db of
          Inl err \<Rightarrow> Inl err
        | Inr db1 \<Rightarrow>
            (case insert_one dest
                    (body_copy now bid event type key payload nb dby timeout shadow spec pid) db1 of
               Inl err \<Rightarrow> Inl err
             | Inr db2 \<Rightarrow> Inr (update_deliveries (\<lambda>d. d_id d = pid)
                                (\<lambda>d. d\<lparr>d_body_delivery_id := Some bid\<rparr>) db2))))"

text \<open>The loop over the subscribers; \<open>gen n\<close> supplies the ids of the n-th pair.\<close>

fun fan_out_pairs ::
  "time \<Rightarrow> (nat \<Rightarrow> uuid \<times> uuid) \<Rightarrow> uuid \<Rightarrow> string \<Rightarrow> string \<Rightarrow> json \<Rightarrow> json option \<Rightarrow> time option \<Rightarrow>
   time option \<Rightarrow> int \<Rightarrow> nat \<Rightarrow> target list \<Rightarrow> database \<Rightarrow> api_error + database" where
  "fan_out_pairs now gen event type key payload preview nb dby timeout n [] db = Inr db"
| "fan_out_pairs now gen event type key payload preview nb dby timeout n (t # ts) db =
     (case fan_out_pair now (fst (gen n)) (snd (gen n)) event type key payload preview nb dby timeout t db of
        Inl err \<Rightarrow> Inl err
      | Inr db' \<Rightarrow>
          fan_out_pairs now gen event type key payload preview nb dby timeout (n + 1) ts db')"

definition fan_out_gated_event ::
  "time \<Rightarrow> (nat \<Rightarrow> uuid \<times> uuid) \<Rightarrow> uuid \<Rightarrow> string \<Rightarrow> string \<Rightarrow> json \<Rightarrow> json option \<Rightarrow> time option \<Rightarrow>
   time option \<Rightarrow> int \<Rightarrow> target list \<Rightarrow> database \<Rightarrow> api_error + (int \<times> int) \<times> database" where
  "fan_out_gated_event now gen event type key payload preview nb dby timeout targets db =
     (case fan_out_pairs now gen event type key payload preview nb dby timeout 0 targets db of
        Inl err \<Rightarrow> Inl err
      | Inr db' \<Rightarrow> Inr ((count_rows (\<lambda>(_, shadow, _). \<not> shadow) targets,
                        count_rows (\<lambda>(_, shadow, _). shadow) targets), db'))"

section \<open>Outcomes of a preview's transport\<close>

definition late_preview_row :: "time \<Rightarrow> delivery \<Rightarrow> delivery" where
  "late_preview_row now d = (release_claim d)
     \<lparr> d_status := Deadline_expired,
       d_deliver_by_expired_at := Some (coalesce (d_deliver_by_expired_at d) now),
       d_next_attempt_at := now, d_updated_at := now \<rparr>"

definition sent_preview_row :: "time \<Rightarrow> delivery \<Rightarrow> delivery" where
  "sent_preview_row now d = (release_claim d)
     \<lparr> d_status := Delivered, d_last_error := None, d_updated_at := now,
       d_delivered_at := Some now, d_consecutive_failures := 0 \<rparr>"

definition open_consent_row :: "time \<Rightarrow> delivery \<Rightarrow> delivery" where
  "open_consent_row now d = d
     \<lparr> d_consent_deadline := map_option (\<lambda>s. now + seconds s) (d_consent_timeout_seconds d),
       d_updated_at := now \<rparr>"

definition reset_failures :: "uuid \<Rightarrow> database \<Rightarrow> database" where
  "reset_failures dest db = update_destination_row dest (\<lambda>d. d\<lparr>dest_failure_count := 0\<rparr>) db"

definition mark_preview_delivered ::
  "time \<Rightarrow> uuid \<Rightarrow> time option \<Rightarrow> database \<Rightarrow> bool \<times> database" where
  "mark_preview_delivered now i finished db =
     (let flying = (\<lambda>d. d_id d = i \<and> d_status d = In_flight);
          late = (\<lambda>d. flying d \<and> null_le (d_deliver_by d) (coalesce finished now))
      in case first_row late (deliveries db) of
           Some d \<Rightarrow>
             (False, update_deliveries (\<lambda>b. d_body_delivery_id d = Some (d_id b) \<and> queued_gated b)
                       (expired_body_row now) (update_deliveries late (late_preview_row now) db))
         | None \<Rightarrow>
             (case first_row flying (deliveries db) of
                None \<Rightarrow> (False, db)
              | Some d \<Rightarrow>
                  (True, reset_failures (d_destination_id d)
                    (update_deliveries
                      (\<lambda>b. d_body_delivery_id d = Some (d_id b) \<and> d_phase b = Body \<and>
                           d_status b = Pending \<and> d_release_state b = Some Held)
                      (open_consent_row now)
                      (update_deliveries flying (sent_preview_row now) db)))))"

definition void_row :: "time \<Rightarrow> void_reason \<Rightarrow> delivery \<Rightarrow> delivery" where
  "void_row now reason d = (release_claim d)
     \<lparr> d_release_state := Some Voided, d_status := Release_voided, d_void_reason := Some reason,
       d_voided_at := Some now, d_updated_at := now \<rparr>"

definition void_held_bodies ::
  "time \<Rightarrow> (delivery \<Rightarrow> bool) \<Rightarrow> void_reason \<Rightarrow> database \<Rightarrow> database" where
  "void_held_bodies now extra reason db =
     update_deliveries (\<lambda>d. d_status d = Pending \<and> d_release_state d = Some Held \<and> extra d)
       (void_row now reason) db"

definition void_body_after_preview_failure :: "time \<Rightarrow> uuid \<Rightarrow> void_reason \<Rightarrow> database \<Rightarrow> database" where
  "void_body_after_preview_failure now preview reason db =
     void_held_bodies now (\<lambda>d. d_phase d = Body \<and> d_preview_delivery_id d = Some preview) reason db"

definition relocate_held_bodies :: "time \<Rightarrow> uuid \<Rightarrow> database \<Rightarrow> database" where
  "relocate_held_bodies now dest db =
     (case find_destination db dest of
        None \<Rightarrow> db
      | Some t \<Rightarrow> void_held_bodies now
          (\<lambda>d. d_phase d = Body \<and> d_destination_id d = dest \<and>
               d_confirmation_generation d < dest_confirmation_generation t)
          Void_preview_superseded db)"

section \<open>Consent decisions\<close>

record consent_answer =
  ca_answer_disposition :: consent_disposition
  ca_answer_release_state :: "release_state option"
  ca_answer_delivery_id :: "uuid option"

text \<open>\<open>record()\<close>: the audit row; the delivery id is unique over all rows that have one.\<close>

definition record_decision ::
  "uuid \<Rightarrow> uuid \<Rightarrow> consent_decision \<Rightarrow> consent_disposition \<Rightarrow> uuid option \<Rightarrow> database \<Rightarrow>
   api_error + database" where
  "record_decision event dest decision disposition delivery db =
     (if delivery \<noteq> None \<and> (\<exists>g \<in> set (release_gate_decisions db). g_delivery_id g = delivery)
      then Inl Constraint_violation
      else Inr (db\<lparr>release_gate_decisions := release_gate_decisions db @
             [\<lparr>g_destination_id = dest, g_event_id = event, g_delivery_id = delivery,
               g_decision = decision, g_disposition = disposition\<rparr>]\<rparr>))"

definition answer ::
  "consent_disposition \<Rightarrow> release_state option \<Rightarrow> uuid option \<Rightarrow> api_error + database \<Rightarrow>
   api_error + consent_answer \<times> database" where
  "answer disposition state body outcome =
     (case outcome of Inl err \<Rightarrow> Inl err
      | Inr db \<Rightarrow> Inr (\<lparr>ca_answer_disposition = disposition, ca_answer_release_state = state,
                      ca_answer_delivery_id = body\<rparr>, db))"

definition gate_body :: "database \<Rightarrow> uuid \<Rightarrow> uuid \<Rightarrow> delivery option" where
  "gate_body db event dest = first_row
     (\<lambda>d. d_event_id d = Some event \<and> d_destination_id d = dest \<and> d_phase d = Body) (deliveries db)"

definition expired_gate_row :: "time \<Rightarrow> delivery \<Rightarrow> delivery" where
  "expired_gate_row now d = d\<lparr>d_release_state := Some Expired, d_status := Release_expired,
     d_voided_at := Some now, d_updated_at := now\<rparr>"

definition denied_row :: "time \<Rightarrow> delivery \<Rightarrow> delivery" where
  "denied_row now d = d\<lparr>d_release_state := Some Denied, d_status := Release_denied,
     d_voided_at := Some now, d_updated_at := now\<rparr>"

definition released_row :: "time \<Rightarrow> delivery \<Rightarrow> delivery" where
  "released_row now d = d\<lparr>d_release_state := Some Released, d_released_at := Some now,
     d_updated_at := now\<rparr>"

definition update_delivery_row :: "uuid \<Rightarrow> (delivery \<Rightarrow> delivery) \<Rightarrow> database \<Rightarrow> database" where
  "update_delivery_row i f db = update_deliveries (\<lambda>d. d_id d = i) f db"

text \<open>
  The held, queued body of an address that answered: the preview must have gone out, and the
  deadline decides whether the sweep has run or not.
\<close>

definition decide_held ::
  "time \<Rightarrow> uuid \<Rightarrow> uuid \<Rightarrow> consent_decision \<Rightarrow> delivery \<Rightarrow> database \<Rightarrow>
   api_error + consent_answer \<times> database" where
  "decide_held now event dest decision body db =
     (let i = d_id body in
      case d_preview_delivery_id body of
        None \<Rightarrow> Inl Bad_cast
      | Some p \<Rightarrow>
        (case find_delivery db p of
           None \<Rightarrow> Inl No_result
         | Some preview \<Rightarrow>
           if d_delivered_at preview = None
           then answer Consent_preview_not_delivered (d_release_state body) (Some i)
                  (record_decision event dest decision Consent_preview_not_delivered None db)
           else if (case d_consent_deadline body of None \<Rightarrow> True | Some t \<Rightarrow> t < now)
           then answer Consent_late_ignored (Some Expired) (Some i)
                  (record_decision event dest decision Consent_late_ignored None
                    (update_delivery_row i (expired_gate_row now) db))
           else if decision = Deny
           then answer Consent_denied (Some Denied) (Some i)
                  (record_decision event dest decision Consent_denied (Some i)
                    (update_delivery_row i (denied_row now) db))
           else answer Consent_released (Some Released) (Some i)
                  (record_decision event dest decision Consent_released (Some i)
                    (update_delivery_row i (released_row now) db))))"

definition ingest_decision ::
  "time \<Rightarrow> uuid \<Rightarrow> uuid \<Rightarrow> consent_decision \<Rightarrow> database \<Rightarrow> api_error + consent_answer \<times> database" where
  "ingest_decision now dest event decision db =
     (case gate_body db event dest of
        None \<Rightarrow>
          if find_event db event = None then Inl (Http 404)
          else answer Consent_orphan None None
                 (record_decision event dest decision Consent_orphan None db)
      | Some body \<Rightarrow>
          let state = d_release_state body;
              keep = (\<lambda>disposition. answer disposition state (Some (d_id body))
                       (record_decision event dest decision disposition None db))
          in if state = Some Released
             then keep (if decision = Approve then Consent_duplicate else Consent_conflict)
             else if state = Some Denied
             then keep (if decision = Deny then Consent_duplicate else Consent_conflict)
             else if state \<in> {Some Expired, Some Voided, Some Cutoff_expired}
             then keep Consent_late_ignored
             else if d_status body \<noteq> Pending
             then keep Consent_late_ignored
             else decide_held now event dest decision body db)"

section \<open>Sweep and manual void\<close>

definition due_gates :: "time \<Rightarrow> nat \<Rightarrow> delivery list \<Rightarrow> delivery list" where
  "due_gates now limit rows =
     take limit (order_by (\<lambda>d. coalesce (d_consent_deadline d) 0)
       (filter (\<lambda>d. d_phase d = Body \<and> d_status d = Pending \<and> d_release_state d = Some Held \<and>
                    null_lt (d_consent_deadline d) now) rows))"

definition sweep_expired_gates :: "time \<Rightarrow> nat \<Rightarrow> database \<Rightarrow> int \<times> database" where
  "sweep_expired_gates now limit db =
     (let due = (\<lambda>d. d_id d \<in> set (map d_id (due_gates now limit (deliveries db))))
      in (count_rows due (deliveries db), update_deliveries due (expired_gate_row now) db))"

definition manual_void_row :: "time \<Rightarrow> delivery \<Rightarrow> delivery" where
  "manual_void_row now d = d\<lparr>d_release_state := Some Voided, d_status := Release_voided,
     d_void_reason := Some Void_manual, d_voided_at := Some now, d_updated_at := now\<rparr>"

text \<open>The answer is (voided, status, release state); a row that breaks a CHECK is an error.\<close>

definition void_gated_body ::
  "time \<Rightarrow> uuid \<Rightarrow> database \<Rightarrow>
   api_error + (bool \<times> delivery_status \<times> release_state option) \<times> database" where
  "void_gated_body now i db =
     (case find_delivery db i of
        None \<Rightarrow> Inl (Http 404)
      | Some d \<Rightarrow>
          if d_phase d \<noteq> Body \<or> d_release_state d = None then Inl (Http 409)
          else if d_status d \<in> {In_flight, Delivered} then Inl (Http 409)
          else if void_status (d_status d)
          then Inr ((False, d_status d, d_release_state d), db)
          else if \<not> delivery_check (manual_void_row now d) then Inl Constraint_violation
          else Inr ((True, Release_voided, Some Voided),
                    update_delivery_row i (manual_void_row now) db))"

section \<open>The operations keep the tables\<close>

lemma late_preview_row_evolves:
  assumes "d_status d = In_flight" and "d_phase d = Preview"
  shows "row_evolves d (late_preview_row now d)"
  by (rule row_evolves_edge [OF lifecycle.miss_cutoff])
    (use assms in \<open>simp_all add: copy_of_def late_preview_row_def release_claim_def
       cutoff_release_def same_snapshot_def counters_grow_def\<close>)

lemma sent_preview_row_evolves:
  assumes "d_status d = In_flight" and "d_phase d = Preview"
  shows "row_evolves d (sent_preview_row now d)"
  by (rule row_evolves_edge [OF lifecycle.handoff_preview])
    (use assms in \<open>simp_all add: copy_of_def sent_preview_row_def release_claim_def
       same_snapshot_def counters_grow_def\<close>)

lemma open_consent_row_evolves: "row_evolves d (open_consent_row now d)"
  by (rule row_evolves_stay) (simp_all add: copy_of_def open_consent_row_def same_snapshot_def counters_grow_def)

lemma void_row_evolves:
  assumes "d_status d = Pending" and "d_release_state d = Some Held"
  shows "row_evolves d (void_row now reason d)"
  by (rule row_evolves_edge [OF lifecycle.gate_voided])
    (use assms in \<open>simp_all add: copy_of_def void_row_def release_claim_def same_snapshot_def counters_grow_def\<close>)

lemma gate_rows_evolve:
  assumes "d_status d = Pending" and "d_release_state d = Some Held"
  shows "row_evolves d (expired_gate_row now d)" "row_evolves d (denied_row now d)"
    "row_evolves d (released_row now d)"
  by (rule row_evolves_edge [OF lifecycle.gate_expired] row_evolves_edge [OF lifecycle.deny]
      row_evolves_edge [OF lifecycle.release];
      use assms in \<open>simp add: copy_of_def expired_gate_row_def denied_row_def released_row_def
        same_snapshot_def counters_grow_def\<close>)+

lemma void_held_bodies_keeps: "keeps db (void_held_bodies now extra reason db)"
  unfolding void_held_bodies_def
  by (rule keeps_update_deliveries) (simp add: void_row_evolves)

lemma void_body_after_preview_failure_keeps:
  "keeps db (void_body_after_preview_failure now preview reason db)"
  by (simp add: void_body_after_preview_failure_def void_held_bodies_keeps)

lemma relocate_held_bodies_keeps: "keeps db (relocate_held_bodies now dest db)"
  by (cases "find_destination db dest") (simp_all add: relocate_held_bodies_def void_held_bodies_keeps)

lemma reset_failures_keeps: "keeps db (reset_failures dest db)"
  unfolding reset_failures_def
  by (rule keeps_update_destination) (simp add: destination_check_def)

lemma mark_preview_delivered_keeps:
  assumes ok: "db_ok db" and preview: "\<And>d. d \<in> set (deliveries db) \<Longrightarrow> d_id d = i \<Longrightarrow> d_phase d = Preview"
  shows "keeps db (snd (mark_preview_delivered now i finished db))"
proof -
  let ?fly = "\<lambda>d. d_id d = i \<and> d_status d = In_flight"
  let ?late = "\<lambda>d. ?fly d \<and> null_le (d_deliver_by d) (coalesce finished now)"
  let ?db1 = "update_deliveries ?late (late_preview_row now) db"
  let ?db2 = "update_deliveries ?fly (sent_preview_row now) db"
  have 1: "keeps db ?db1"
    by (rule keeps_update_deliveries) (simp add: late_preview_row_evolves preview)
  then have ok1: "db_ok ?db1"
    using ok by (rule keeps_db_ok)
  have 11: "keeps ?db1 (update_deliveries (\<lambda>b. d_body_delivery_id d = Some (d_id b) \<and> queued_gated b)
      (expired_body_row now) ?db1)" for d :: delivery
    using ok1 by (intro keeps_update_deliveries expired_body_row_evolves) (auto intro: row_ok_in)
  have 2: "keeps db ?db2"
    by (rule keeps_update_deliveries) (simp add: sent_preview_row_evolves preview)
  have 21: "keeps ?db2 (reset_failures dest (update_deliveries P (open_consent_row now) ?db2))" for dest P
    by (rule keeps_trans [OF _ reset_failures_keeps])
      (rule keeps_update_deliveries, rule open_consent_row_evolves)
  show ?thesis
    unfolding mark_preview_delivered_def Let_def
    using keeps_trans [OF 1 11] keeps_trans [OF 2 21]
    by (auto split: option.split)
qed

lemma update_delivery_row_keeps:
  assumes "\<And>d. d \<in> set (deliveries db) \<Longrightarrow> d_id d = i \<Longrightarrow> row_evolves d (f d)"
  shows "keeps db (update_delivery_row i f db)"
  unfolding update_delivery_row_def by (rule keeps_update_deliveries) (simp add: assms)

lemma answer_keeps:
  assumes "answer disposition state i (record_decision event dest decision disposition' delivery db1) = Inr (r, db')"
    and "keeps db db1"
  shows "keeps db db'"
proof -
  have "keeps db1 db'"
    using assms(1) by (intro keeps_same) (auto simp: answer_def record_decision_def split: if_splits)
  with assms(2) show ?thesis by (rule keeps_trans)
qed

lemma gate_body_in:
  "gate_body db event dest = Some d \<Longrightarrow>
   d \<in> set (deliveries db) \<and> d_event_id d = Some event \<and> d_destination_id d = dest \<and> d_phase d = Body"
  by (auto simp: gate_body_def dest: first_row_Some)

lemma decide_held_keeps:
  assumes "decide_held now event dest decision body db = Inr (r, db')"
    and "keys_ok db" "body \<in> set (deliveries db)" "d_status body = Pending" "d_release_state body = Some Held"
  shows "keeps db db'"
proof -
  have k: "keeps db (update_delivery_row (d_id body) f db)" if "row_evolves body (f body)" for f
    using that keys_ok_id [OF assms(2) _ assms(3)] by (intro update_delivery_row_keeps) auto
  note rows = gate_rows_evolve [OF assms(4,5)]
  show ?thesis
    using assms(1) k [where f = "expired_gate_row now", OF rows(1)]
      k [where f = "denied_row now", OF rows(2)] k [where f = "released_row now", OF rows(3)]
    unfolding decide_held_def Let_def
    by (auto split: option.splits if_splits elim!: answer_keeps)
qed

lemma gate_states:
  "row_ok d \<Longrightarrow> d_release_state d = None \<Longrightarrow> d_preview_delivery_id d = None"
  by (simp add: row_ok_def copy_shape_def)

lemma ingest_decision_keeps:
  assumes "ingest_decision now dest event decision db = Inr (r, db')" and "db_ok db"
  shows "keeps db db'"
proof (cases "gate_body db event dest")
  case None
  then show ?thesis
    using assms(1) by (auto simp: ingest_decision_def split: if_splits intro: answer_keeps)
next
  case (Some body)
  note body = gate_body_in [OF this]
  show ?thesis
  proof (cases "d_release_state body = Some Held \<and> d_status body = Pending")
    case True
    with assms(1) Some have "decide_held now event dest decision body db = Inr (r, db')"
      by (simp add: ingest_decision_def)
    with True body assms(2) show ?thesis by (auto intro: decide_held_keeps)
  next
    case False
    have "d_release_state body = None \<Longrightarrow> d_preview_delivery_id body = None"
      using assms(2) body by (auto intro: gate_states row_ok_in)
    with False assms(1) Some show ?thesis
      by (cases "d_release_state body"; cases "the (d_release_state body)")
        (auto simp: ingest_decision_def decide_held_def Let_def split: if_splits intro: answer_keeps)
  qed
qed

interpretation decision: delivery_operation
  "\<lambda>db. committed (ingest_decision now dest event decision db) db" for now dest event decision
  by unfold_locales (auto intro!: keeps_committed intro: ingest_decision_keeps)

lemma due_gates_mem:
  "d \<in> set (due_gates now limit rows) \<Longrightarrow> d \<in> set rows \<and> d_phase d = Body \<and> d_status d = Pending \<and>
   d_release_state d = Some Held \<and> null_lt (d_consent_deadline d) now"
  unfolding due_gates_def by (auto dest: in_set_takeD)

lemma sweep_expired_gates_keeps:
  assumes "db_ok db"
  shows "keeps db (snd (sweep_expired_gates now limit db))"
  unfolding sweep_expired_gates_def Let_def snd_conv
proof (rule keeps_update_deliveries)
  fix d
  assume "d \<in> set (deliveries db)" "d_id d \<in> set (map d_id (due_gates now limit (deliveries db)))"
  then have "d \<in> set (due_gates now limit (deliveries db))"
    using assms due_gates_mem by (blast intro: keys_ok_member [of db])
  then show "row_evolves d (expired_gate_row now d)"
    by (auto intro: gate_rows_evolve dest: due_gates_mem)
qed

interpretation gate_sweep: delivery_operation "\<lambda>db. snd (sweep_expired_gates now limit db)" for now limit
  by unfold_locales (rule sweep_expired_gates_keeps)

lemma manual_void_row_evolves:
  assumes "row_ok d" and "d_phase d = Body" "d_release_state d \<noteq> None" "d_status d \<notin> {In_flight, Delivered}"
    and "delivery_check (manual_void_row now d)"
  shows "row_evolves d (manual_void_row now d)"
proof (rule row_evolves_edge [OF lifecycle.manual_void])
  show "c_dead (copy_of d) = None" "c_skip (copy_of d) = None"
    using assms(5) by (simp_all add: delivery_check_def manual_void_row_def)
qed (use assms in \<open>simp_all add: copy_of_def manual_void_row_def same_snapshot_def counters_grow_def\<close>)

lemma void_gated_body_keeps:
  assumes "void_gated_body now i db = Inr (r, db')" and "db_ok db"
  shows "keeps db db'"
proof (cases "find_delivery db i")
  case None
  with assms(1) show ?thesis by (simp add: void_gated_body_def)
next
  case (Some d)
  note d = find_delivery_key [OF this]
  have "keeps db (update_delivery_row i (manual_void_row now) db)"
    if "d_phase d = Body" "d_release_state d \<noteq> None" "d_status d \<notin> {In_flight, Delivered}"
      "delivery_check (manual_void_row now d)"
  proof (rule update_delivery_row_keeps)
    fix x
    assume "x \<in> set (deliveries db)" "d_id x = i"
    then have "x = d"
      using d assms(2) by (auto intro: keys_ok_id)
    with that d assms(2) show "row_evolves x (manual_void_row now x)"
      by (auto intro!: manual_void_row_evolves intro: row_ok_in)
  qed
  with assms(1) Some show ?thesis
    by (auto simp: void_gated_body_def split: if_splits)
qed

interpretation manual_void: delivery_operation "\<lambda>db. committed (void_gated_body now i db) db" for now i
  by unfold_locales (auto intro!: keeps_committed intro: void_gated_body_keeps)

section \<open>The pair of a gated event\<close>

text \<open>What one INSERT that found its destination did.\<close>

lemma insert_one_result:
  assumes "insert_one dest row db = Inr db'"
  obtains d where "find_destination db dest = Some d"
    "delivery_unique (numbered row (bumped d)) (deliveries db)"
    "db' = append_delivery (numbered row (bumped d)) (bump_seq dest db)"
  using assms
  by (auto simp: insert_one_def insert_copy_def Let_def split: if_splits option.splits)

lemma find_destination_bump:
  "find_destination (append_delivery x (bump_seq dest db)) dest = map_option bumped (find_destination db dest)"
proof -
  have "first_row (\<lambda>d. dest_id d = dest) (sql_update (\<lambda>d. dest_id d = dest) bumped ds)
    = map_option bumped (first_row (\<lambda>d. dest_id d = dest) ds)" for ds
    by (induction ds) (simp_all add: bumped_def)
  then show ?thesis
    by (simp add: find_destination_def bump_seq_def update_destination_row_def append_delivery_def)
qed

lemma fan_out_pair_result:
  assumes "fan_out_pair now pid bid event type key payload preview nb dby timeout (dest, shadow, spec) db = Inr db'"
  obtains d p b where "find_destination db dest = Some d"
    "p = (numbered (preview_copy now pid event type key preview nb dby timeout shadow spec) (bumped d))
        \<lparr>d_body_delivery_id := Some bid\<rparr>"
    "b = numbered (body_copy now bid event type key payload nb dby timeout shadow spec pid) (bumped (bumped d))"
    "deliveries db' = deliveries db @ [p, b]"
    "destinations db' = sql_update (\<lambda>x. dest_id x = dest) bumped (sql_update (\<lambda>x. dest_id x = dest) bumped (destinations db))"
    "delivery_unique p (deliveries db)" "delivery_unique b (deliveries db @ [p])"
proof -
  let ?p = "preview_copy now pid event type key preview nb dby timeout shadow spec"
  let ?b = "body_copy now bid event type key payload nb dby timeout shadow spec pid"
  let ?link = "\<lambda>x::delivery. x\<lparr>d_body_delivery_id := Some bid\<rparr>"
  from assms obtain db1 db2 where 1: "insert_one dest ?p db = Inr db1" and 2: "insert_one dest ?b db1 = Inr db2"
    and db': "db' = update_deliveries (\<lambda>x. d_id x = pid) ?link db2"
    by (auto simp: fan_out_pair_def split: sum.splits)
  from 1 obtain d where d: "find_destination db dest = Some d"
    and u1: "delivery_unique (numbered ?p (bumped d)) (deliveries db)"
    and db1: "db1 = append_delivery (numbered ?p (bumped d)) (bump_seq dest db)"
    by (rule insert_one_result)
  have d1: "find_destination db1 dest = Some (bumped d)"
    by (simp add: db1 find_destination_bump d)
  from 2 obtain d2 where "find_destination db1 dest = Some d2"
    and "delivery_unique (numbered ?b (bumped d2)) (deliveries db1)"
    and "db2 = append_delivery (numbered ?b (bumped d2)) (bump_seq dest db1)"
    by (rule insert_one_result)
  then have u2: "delivery_unique (numbered ?b (bumped (bumped d))) (deliveries db1)"
    and db2: "db2 = append_delivery (numbered ?b (bumped (bumped d))) (bump_seq dest db1)"
    by (simp_all add: d1)
  have pid: "d_id (numbered ?p (bumped d)) = pid" and bid: "d_id (numbered ?b (bumped (bumped d))) = bid"
    by (simp_all add: numbered_def preview_copy_def body_copy_def new_delivery_def)
  have old: "sql_update (\<lambda>x. d_id x = pid) ?link (deliveries db) = deliveries db"
    using u1 pid by (auto simp: delivery_unique_def)
  have "bid \<noteq> pid"
    using u2 pid bid by (auto simp: delivery_unique_def db1)
  then have rows: "deliveries db' = deliveries db
      @ [?link (numbered ?p (bumped d)), numbered ?b (bumped (bumped d))]"
    by (simp add: db' db2 db1 pid bid old)
  have "delivery_unique (?link (numbered ?p (bumped d))) (deliveries db)"
    using u1 by (simp add: delivery_unique_def)
  moreover have "delivery_unique (numbered ?b (bumped (bumped d)))
      (deliveries db @ [?link (numbered ?p (bumped d))])"
    using u2 by (simp add: delivery_unique_def db1)
  moreover have "destinations db' = sql_update (\<lambda>x. dest_id x = dest) bumped
      (sql_update (\<lambda>x. dest_id x = dest) bumped (destinations db))"
    by (simp add: db' db2 db1 bump_seq_def update_destination_row_def append_delivery_def)
  ultimately show thesis
    using that [OF d refl refl rows] by blast
qed

lemma preview_copy_fresh:
  assumes "0 \<le> dest_next_event_seq d"
  shows "fresh_row ((numbered (preview_copy now pid event type key preview nb dby timeout shadow spec) d)
    \<lparr>d_body_delivery_id := Some bid\<rparr>)"
  using assms
  by (simp add: numbered_def fresh_row_def preview_copy_def new_delivery_def delivery_check_def copy_shape_def)

lemma body_copy_fresh:
  assumes "0 \<le> dest_next_event_seq d"
  shows "fresh_row (numbered (body_copy now bid event type key payload nb dby timeout shadow spec pid) d)"
  using assms
  by (simp add: numbered_def fresh_row_def body_copy_def new_delivery_def delivery_check_def copy_shape_def)

lemma keys_ok_append: "keys_ok db \<Longrightarrow> delivery_unique d (deliveries db) \<Longrightarrow> keys_ok (append_delivery d db)"
  by (rule keys_ok_insert) simp_all

lemma fan_out_pair_keeps:
  assumes "fan_out_pair now pid bid event type key payload preview nb dby timeout t db = Inr db'"
    and "destinations_ok db"
  shows "keeps db db'"
proof -
  obtain dest shadow spec where t: "t = (dest, shadow, spec)" by (cases t)
  from assms(1)[unfolded t] obtain d p b where d: "find_destination db dest = Some d"
    and p: "p = (numbered (preview_copy now pid event type key preview nb dby timeout shadow spec) (bumped d))
        \<lparr>d_body_delivery_id := Some bid\<rparr>"
    and b: "b = numbered (body_copy now bid event type key payload nb dby timeout shadow spec pid) (bumped (bumped d))"
    and rows: "deliveries db' = deliveries db @ [p, b]"
    and dests: "destinations db' = sql_update (\<lambda>x. dest_id x = dest) bumped
      (sql_update (\<lambda>x. dest_id x = dest) bumped (destinations db))"
    and u: "delivery_unique p (deliveries db)" "delivery_unique b (deliveries db @ [p])"
    by (rule fan_out_pair_result)
  have "destination_check d"
    using assms(2) d by (auto simp: destinations_ok_def dest!: find_destination_key)
  then have "fresh_row p" "fresh_row b"
    unfolding p b by (auto intro!: preview_copy_fresh body_copy_fresh simp: bumped_def destination_check_def)
  then have "evolves db db'"
    using rows by (intro evolves_insert [of "[p, b]"]) simp_all
  moreover have "destinations_ok db'"
    using assms(2) dests by (auto simp: destinations_ok_def set_sql_update bumped_check)
  moreover have "keys_ok db'" if "keys_ok db"
    using keys_ok_append [OF keys_ok_append [OF that u(1)]] u(2) rows by (simp add: keys_ok_def)
  ultimately show ?thesis by (simp add: keeps_def)
qed

lemma fan_out_pairs_keeps:
  "fan_out_pairs now gen event type key payload preview nb dby timeout n ts db = Inr db' \<Longrightarrow>
   destinations_ok db \<Longrightarrow> keeps db db'"
proof (induction ts arbitrary: n db)
  case Nil
  then show ?case by simp
next
  case (Cons t ts)
  then obtain db1 where 1: "fan_out_pair now (fst (gen n)) (snd (gen n)) event type key payload preview
      nb dby timeout t db = Inr db1"
    and 2: "fan_out_pairs now gen event type key payload preview nb dby timeout (n + 1) ts db1 = Inr db'"
    by (auto split: sum.splits)
  have k: "keeps db db1"
    using 1 Cons.prems(2) by (rule fan_out_pair_keeps)
  then have "destinations_ok db1"
    using Cons.prems(2) by (simp add: keeps_def)
  with Cons.IH [OF 2] have "keeps db1 db'" .
  with k show ?case by (rule keeps_trans)
qed

lemma fan_out_gated_event_keeps:
  "fan_out_gated_event now gen event type key payload preview nb dby timeout ts db = Inr (r, db') \<Longrightarrow>
   destinations_ok db \<Longrightarrow> keeps db db'"
  by (auto simp: fan_out_gated_event_def split: sum.splits intro: fan_out_pairs_keeps)

section \<open>What a decision does\<close>

text \<open>
  The five ways a decision ends, by the state of the body it finds. Only an answer to a held,
  queued body whose preview has gone out touches a delivery.
\<close>

definition answerable :: "time \<Rightarrow> delivery \<Rightarrow> database \<Rightarrow> bool" where
  "answerable now body db \<longleftrightarrow> d_status body = Pending \<and> d_release_state body = Some Held \<and>
     (\<exists>p preview. d_preview_delivery_id body = Some p \<and> find_delivery db p = Some preview \<and>
        d_delivered_at preview \<noteq> None) \<and>
     (\<exists>t. d_consent_deadline body = Some t \<and> now \<le> t)"

lemma answer_result:
  assumes "answer disposition state i (record_decision event dest decision disposition' delivery db1) = Inr (r, db')"
  shows "r = \<lparr>ca_answer_disposition = disposition, ca_answer_release_state = state, ca_answer_delivery_id = i\<rparr>"
    "deliveries db' = deliveries db1"
    "release_gate_decisions db' = release_gate_decisions db1 @
       [\<lparr>g_destination_id = dest, g_event_id = event, g_delivery_id = delivery,
         g_decision = decision, g_disposition = disposition'\<rparr>]"
    "delivery \<noteq> None \<Longrightarrow> g \<in> set (release_gate_decisions db1) \<Longrightarrow> g_delivery_id g \<noteq> delivery"
  using assms by (auto simp: answer_def record_decision_def split: if_splits)

lemma answer_effect:
  "answer disposition state i (record_decision event dest decision disposition' delivery db1) = Inr (r, db') \<Longrightarrow>
   ca_answer_disposition r = disposition \<and> deliveries db' = deliveries db1"
  by (auto simp: answer_def record_decision_def split: if_splits)

lemma decide_held_cases:
  assumes run: "decide_held now event dest decision body db = Inr (r, db')"
    and held: "d_status body = Pending" "d_release_state body = Some Held"
  obtains
    (unsent) "\<not> answerable now body db" "ca_answer_disposition r = Consent_preview_not_delivered"
      "deliveries db' = deliveries db"
  | (late) "\<not> answerable now body db" "ca_answer_disposition r = Consent_late_ignored"
      "deliveries db' = sql_update (\<lambda>d. d_id d = d_id body) (expired_gate_row now) (deliveries db)"
  | (denied) "answerable now body db" "decision = Deny" "ca_answer_disposition r = Consent_denied"
      "deliveries db' = sql_update (\<lambda>d. d_id d = d_id body) (denied_row now) (deliveries db)"
  | (released) "answerable now body db" "decision = Approve" "ca_answer_disposition r = Consent_released"
      "deliveries db' = sql_update (\<lambda>d. d_id d = d_id body) (released_row now) (deliveries db)"
proof -
  from run obtain p where p: "d_preview_delivery_id body = Some p"
    by (auto simp: decide_held_def Let_def split: option.splits)
  with run obtain preview where pv: "find_delivery db p = Some preview"
    by (auto simp: decide_held_def Let_def split: option.splits)
  show thesis
  proof (cases "d_delivered_at preview = None")
    case True
    with run p pv have "answer Consent_preview_not_delivered (d_release_state body) (Some (d_id body))
        (record_decision event dest decision Consent_preview_not_delivered None db) = Inr (r, db')"
      by (simp add: decide_held_def Let_def)
    from answer_result(1,2) [OF this] show thesis
      using p pv True by (intro unsent) (simp_all add: answerable_def)
  next
    case sent: False
    show thesis
    proof (cases "\<exists>t. d_consent_deadline body = Some t \<and> now \<le> t")
      case False
      then have "(case d_consent_deadline body of None \<Rightarrow> True | Some t \<Rightarrow> t < now)"
        by (auto split: option.split)
      with run p pv sent have "answer Consent_late_ignored (Some Expired) (Some (d_id body))
          (record_decision event dest decision Consent_late_ignored None
            (update_delivery_row (d_id body) (expired_gate_row now) db)) = Inr (r, db')"
        by (simp add: decide_held_def Let_def)
      from answer_result(1,2) [OF this] show thesis
        using False by (intro late) (simp_all add: answerable_def update_delivery_row_def)
    next
      case True
      then have open_gate: "answerable now body db"
        using p pv sent held by (auto simp: answerable_def)
      from True have "\<not> (case d_consent_deadline body of None \<Rightarrow> True | Some t \<Rightarrow> t < now)"
        by (auto split: option.split)
      with run p pv sent have "(if decision = Deny
          then answer Consent_denied (Some Denied) (Some (d_id body))
            (record_decision event dest decision Consent_denied (Some (d_id body))
              (update_delivery_row (d_id body) (denied_row now) db))
          else answer Consent_released (Some Released) (Some (d_id body))
            (record_decision event dest decision Consent_released (Some (d_id body))
              (update_delivery_row (d_id body) (released_row now) db))) = Inr (r, db')"
        by (simp add: decide_held_def Let_def)
      then show thesis
        using denied [OF open_gate] released [OF open_gate]
        by (cases decision) (auto dest!: answer_effect simp: update_delivery_row_def)
    qed
  qed
qed

text \<open>Away from a held, queued body a decision only writes its audit row.\<close>

lemma ingest_decision_closed:
  assumes "ingest_decision now dest event decision db = Inr (r, db')" and "db_ok db"
    and "\<And>body. gate_body db event dest = Some body \<Longrightarrow> \<not> (d_status body = Pending \<and> d_release_state body = Some Held)"
  shows "deliveries db' = deliveries db" "ca_answer_disposition r \<notin> {Consent_released, Consent_denied}"
proof -
  have "deliveries db' = deliveries db \<and> ca_answer_disposition r \<notin> {Consent_released, Consent_denied}"
  proof (cases "gate_body db event dest")
    case None
    then show ?thesis
      using assms(1) by (auto simp: ingest_decision_def split: if_splits dest!: answer_effect)
  next
    case (Some body)
    note body = gate_body_in [OF this]
    have ungated: "d_release_state body = None \<Longrightarrow> d_preview_delivery_id body = None"
      using assms(2) body by (auto intro: gate_states row_ok_in)
    with assms(1) Some assms(3) [OF Some] show ?thesis
      by (cases "d_release_state body"; cases "the (d_release_state body)")
        (auto simp: ingest_decision_def decide_held_def Let_def split: if_splits dest!: answer_effect)
  qed
  then show "deliveries db' = deliveries db" "ca_answer_disposition r \<notin> {Consent_released, Consent_denied}"
    by simp_all
qed

lemma ingest_decision_held:
  assumes "ingest_decision now dest event decision db = Inr (r, db')"
    and "gate_body db event dest = Some body" "d_status body = Pending" "d_release_state body = Some Held"
  shows "decide_held now event dest decision body db = Inr (r, db')"
  using assms by (simp add: ingest_decision_def)

text \<open>
  An answer counts as the effective one exactly when the body is held, its preview has gone out
  and the deadline has not passed.
\<close>

lemma ingest_decision_effective:
  assumes "ingest_decision now dest event decision db = Inr (r, db')" and "db_ok db"
    and "gate_body db event dest = Some body"
  shows "(ca_answer_disposition r = Consent_released) = (answerable now body db \<and> decision = Approve)"
    "(ca_answer_disposition r = Consent_denied) = (answerable now body db \<and> decision = Deny)"
proof -
  have "(ca_answer_disposition r = Consent_released) = (answerable now body db \<and> decision = Approve) \<and>
    (ca_answer_disposition r = Consent_denied) = (answerable now body db \<and> decision = Deny)"
  proof (cases "d_status body = Pending \<and> d_release_state body = Some Held")
    case False
    then have "ca_answer_disposition r \<notin> {Consent_released, Consent_denied}"
      using assms by (intro ingest_decision_closed(2) [OF assms(1,2)]) auto
    moreover have "\<not> answerable now body db"
      using False by (auto simp: answerable_def)
    ultimately show ?thesis by simp
  next
    case True
    with assms have "decide_held now event dest decision body db = Inr (r, db')"
      by (simp add: ingest_decision_held)
    then show ?thesis
      by (cases rule: decide_held_cases) (use True in auto)
  qed
  then show "(ca_answer_disposition r = Consent_released) = (answerable now body db \<and> decision = Approve)"
    "(ca_answer_disposition r = Consent_denied) = (answerable now body db \<and> decision = Deny)"
    by simp_all
qed

text \<open>Another address's copies, and the preview of this one, are never touched.\<close>

lemma ingest_decision_others:
  assumes "ingest_decision now dest event decision db = Inr (r, db')" and "db_ok db"
    and "d \<in> set (deliveries db)" and "gate_body db event dest \<noteq> Some d"
  shows "d \<in> set (deliveries db')"
proof (cases "\<exists>body. gate_body db event dest = Some body \<and> d_status body = Pending \<and> d_release_state body = Some Held")
  case False
  then have "deliveries db' = deliveries db"
    by (intro ingest_decision_closed(1) [OF assms(1,2)]) auto
  with assms(3) show ?thesis by simp
next
  case True
  then obtain body where body: "gate_body db event dest = Some body" "d_status body = Pending"
    "d_release_state body = Some Held" by blast
  have "d_id d \<noteq> d_id body"
    using assms(2-4) body gate_body_in [OF body(1)] keys_ok_id by blast
  with ingest_decision_held [OF assms(1) body] body(2,3) assms(3) show ?thesis
    by (cases rule: decide_held_cases) (auto simp: set_sql_update intro: image_eqI [where x = d])
qed

text \<open>Exactly one effective answer per body.\<close>

definition decisions_unique :: "database \<Rightarrow> bool" where
  "decisions_unique db \<longleftrightarrow> distinct (filter (\<lambda>g. g \<noteq> None) (map g_delivery_id (release_gate_decisions db)))"

lemma record_decision_unique:
  assumes "record_decision event dest decision disposition delivery db = Inr db'" and "decisions_unique db"
  shows "decisions_unique db'"
  using assms by (cases delivery) (fastforce simp: record_decision_def decisions_unique_def split: if_splits)+

end
