(* ===== verification/Confirmation.thy ===== *)
theory Confirmation
  imports Release
begin

text \<open>
  app/confirmation.py: the activation handshake of a destination. A round is armed with a
  challenge and a deadline; an echo is matched against the current round; a round that passed
  its deadline is rotated. A change of the URL also bumps the generation and closes the copies
  still queued for the old location. The random tokens are arguments.
\<close>

section \<open>Arming a round\<close>

definition armed :: "time \<Rightarrow> settings \<Rightarrow> string \<Rightarrow> bool \<Rightarrow> destination \<Rightarrow> destination" where
  "armed now s token bump d = d
     \<lparr> dest_confirmation_state := Conf_pending, dest_challenge_token := Some token,
       dest_challenge_expires_at := Some (now + confirm_timeout_seconds s),
       dest_confirmed_at := None, dest_confirmation_round := dest_confirmation_round d + 1,
       dest_confirmation_attempt_count := 0, dest_next_probe_at := now,
       dest_confirmation_generation := dest_confirmation_generation d + (if bump then 1 else 0) \<rparr>"

definition old_generation :: "uuid \<Rightarrow> database \<Rightarrow> delivery \<Rightarrow> bool" where
  "old_generation dest db d \<longleftrightarrow> d_destination_id d = dest \<and>
     (case find_destination db dest of None \<Rightarrow> False
      | Some t \<Rightarrow> d_confirmation_generation d < dest_confirmation_generation t)"

definition superseded_row :: "time \<Rightarrow> delivery \<Rightarrow> delivery" where
  "superseded_row now d = d\<lparr>d_status := Superseded, d_updated_at := now\<rparr>"

text \<open>Queued copies of the old location: held bodies first, then previews, then the rest.\<close>

definition abandon_old_location :: "time \<Rightarrow> uuid \<Rightarrow> database \<Rightarrow> database" where
  "abandon_old_location now dest db =
     (let db1 = relocate_held_bodies now dest db;
          preview = (\<lambda>d. old_generation dest db1 d \<and> d_status d = Pending \<and> d_phase d = Preview);
          superseded_previews = map d_id (filter preview (deliveries db1));
          db2 = update_deliveries preview (superseded_row now) db1;
          db3 = update_deliveries (\<lambda>d. old_generation dest db1 d \<and> d_status d = Pending)
                  (superseded_row now) db2;
          db4 = cascade_superseded_destination now dest db3
      in fold (\<lambda>p. void_body_after_preview_failure now p Void_preview_superseded)
           superseded_previews db4)"

definition arm_round ::
  "time \<Rightarrow> settings \<Rightarrow> string \<Rightarrow> bool \<Rightarrow> uuid \<Rightarrow> database \<Rightarrow> destination option \<times> database" where
  "arm_round now s token bump dest db =
     (case find_destination db dest of
        None \<Rightarrow> (None, db)
      | Some d \<Rightarrow>
          let db1 = update_destination_row dest (armed now s token bump) db
          in (Some (armed now s token bump d),
              if bump then abandon_old_location now dest db1 else db1))"

definition log_confirmation_attempt ::
  "uuid \<Rightarrow> int \<Rightarrow> confirmation_kind \<Rightarrow> confirmation_result \<Rightarrow> database \<Rightarrow> database" where
  "log_confirmation_attempt dest rnd kind result db = db\<lparr>confirmation_attempts :=
     confirmation_attempts db @ [\<lparr>ca_destination_id = dest, ca_confirmation_round = rnd,
       ca_kind = kind, ca_result = result\<rparr>]\<rparr>"

section \<open>Echoes\<close>

text \<open>\<open>secrets.compare_digest\<close> on strings: an operand that is not ASCII raises TypeError.\<close>

definition compare_digest :: "string \<Rightarrow> string \<Rightarrow> bool option" where
  "compare_digest a b =
     (if list_all (\<lambda>c. (of_char c :: nat) < 128) (a @ b) then Some (a = b) else None)"

datatype echo_disposition =
  Echo_not_found | Echo_already_confirmed | Echo_expired | Echo_confirmed | Echo_invalid

definition confirmed_dest :: "time \<Rightarrow> destination \<Rightarrow> destination" where
  "confirmed_dest now d = d\<lparr>dest_confirmation_state := Confirmed, dest_confirmed_at := Some now,
     dest_challenge_token := None, dest_challenge_expires_at := None, dest_next_probe_at := now\<rparr>"

definition apply_echo ::
  "time \<Rightarrow> settings \<Rightarrow> string \<Rightarrow> uuid \<Rightarrow> string \<Rightarrow> database \<Rightarrow>
   api_error + (echo_disposition \<times> destination option) \<times> database" where
  "apply_echo now s token dest challenge db =
     (case find_destination db dest of
        None \<Rightarrow> Inr ((Echo_not_found, None), db)
      | Some d \<Rightarrow>
          if dest_confirmation_state d = Confirmed
          then Inr ((Echo_already_confirmed, Some d),
                    log_confirmation_attempt dest (dest_confirmation_round d) Kind_echo Result_confirmed db)
          else if null_lt (dest_challenge_expires_at d) now
          then (let (armed_dest, db1) = arm_round now s token False dest
                      (log_confirmation_attempt dest (dest_confirmation_round d) Kind_expired Result_expired db)
                in Inr ((Echo_expired, armed_dest),
                        log_confirmation_attempt dest
                          (case armed_dest of None \<Rightarrow> 0 | Some a \<Rightarrow> dest_confirmation_round a)
                          Kind_echo Result_invalid db1))
          else (case compare_digest challenge (coalesce (dest_challenge_token d) []) of
                  None \<Rightarrow> Inl Type_error
                | Some True \<Rightarrow>
                    Inr ((Echo_confirmed, Some (confirmed_dest now d)),
                         log_confirmation_attempt dest (dest_confirmation_round d) Kind_echo Result_confirmed
                           (update_destination_row dest (confirmed_dest now) db))
                | Some False \<Rightarrow>
                    Inr ((Echo_invalid, Some d),
                         log_confirmation_attempt dest (dest_confirmation_round d) Kind_echo Result_invalid db)))"

section \<open>Expiry of rounds\<close>

definition due_rounds :: "time \<Rightarrow> nat \<Rightarrow> destination list \<Rightarrow> destination list" where
  "due_rounds now limit ds =
     take limit (order_by (\<lambda>d. coalesce (dest_challenge_expires_at d) 0)
       (filter (\<lambda>d. dest_confirmation_state d = Conf_pending \<and>
                    null_lt (dest_challenge_expires_at d) now) ds))"

text \<open>\<open>token i\<close> is the challenge drawn for the destination \<open>i\<close>.\<close>

definition expire_due_rounds :: "time \<Rightarrow> settings \<Rightarrow> (uuid \<Rightarrow> string) \<Rightarrow> nat \<Rightarrow> database \<Rightarrow> int \<times> database" where
  "expire_due_rounds now s token limit db =
     (let rows = due_rounds now limit (destinations db)
      in (int (length rows),
          fold (\<lambda>d db. snd (arm_round now s (token (dest_id d)) False (dest_id d)
                  (log_confirmation_attempt (dest_id d) (dest_confirmation_round d)
                     Kind_expired Result_expired db))) rows db))"

section \<open>The operations keep the tables\<close>

lemma log_confirmation_attempt_simps [simp]:
  "deliveries (log_confirmation_attempt dest rnd kind result db) = deliveries db"
  "destinations (log_confirmation_attempt dest rnd kind result db) = destinations db"
  "events (log_confirmation_attempt dest rnd kind result db) = events db"
  by (simp_all add: log_confirmation_attempt_def)

lemma log_confirmation_attempt_keeps: "keeps db (log_confirmation_attempt dest rnd kind result db)"
  by (rule keeps_same) simp_all

lemma superseded_row_evolves:
  assumes "d_status d \<in> {Pending, In_flight}"
  shows "row_evolves d (superseded_row now d)"
  by (rule row_evolves_edge [OF lifecycle.supersede])
    (use assms in \<open>simp_all add: copy_of_def superseded_row_def same_snapshot_def counters_grow_def\<close>)

lemma abandon_old_location_keeps: "keeps db (abandon_old_location now dest db)"
proof -
  have up: "keeps db' (update_deliveries (\<lambda>d. P d \<and> d_status d = Pending \<and> Q d) (superseded_row now) db')"
    and up2: "keeps db' (update_deliveries (\<lambda>d. P d \<and> d_status d = Pending) (superseded_row now) db')"
    for db' P Q
    by (rule keeps_update_deliveries; simp add: superseded_row_evolves)+
  show ?thesis
    unfolding abandon_old_location_def Let_def
    by (rule keeps_trans [OF relocate_held_bodies_keeps], rule keeps_trans [OF up],
        rule keeps_trans [OF up2], rule keeps_trans [OF cascade_superseded_destination_keeps],
        rule keeps_fold, rule void_body_after_preview_failure_keeps)
qed

lemma armed_check: "destination_check d \<Longrightarrow> destination_check (armed now s token bump d)"
  by (simp add: destination_check_def armed_def)

lemma arm_round_keeps: "keeps db (snd (arm_round now s token bump dest db))"
proof (cases "find_destination db dest")
  case None
  then show ?thesis by (simp add: arm_round_def)
next
  case (Some d)
  have "keeps db (update_destination_row dest (armed now s token bump) db)"
    by (rule keeps_update_destination) (rule armed_check)
  with Some show ?thesis
    by (auto simp: arm_round_def Let_def intro: keeps_trans abandon_old_location_keeps)
qed

lemma apply_echo_keeps:
  assumes "apply_echo now s token dest challenge db = Inr (r, db')"
  shows "keeps db db'"
proof (cases "find_destination db dest")
  case None
  with assms show ?thesis by (simp add: apply_echo_def)
next
  case (Some d)
  have "keeps db (log_confirmation_attempt dest rnd Kind_echo Result_confirmed
      (update_destination_row dest (confirmed_dest now) db))" for rnd
    by (rule keeps_trans [OF keeps_update_destination log_confirmation_attempt_keeps])
      (simp add: destination_check_def confirmed_dest_def)
  moreover have "keeps db (log_confirmation_attempt dest rnd kind result
      (snd (arm_round now s token False dest (log_confirmation_attempt dest rnd' kind' result' db))))"
    for rnd kind result rnd' kind' result'
    by (rule keeps_trans [OF log_confirmation_attempt_keeps],
        rule keeps_trans [OF arm_round_keeps log_confirmation_attempt_keeps])
  ultimately show ?thesis
    using assms Some
    by (auto simp: apply_echo_def case_prod_beta Let_def log_confirmation_attempt_keeps
        split: if_splits option.splits bool.splits)
qed

interpretation echo: delivery_operation "\<lambda>db. committed (apply_echo now s token dest challenge db) db"
  for now s token dest challenge
  by unfold_locales (auto intro!: keeps_committed intro: apply_echo_keeps)

interpretation arm: delivery_operation "\<lambda>db. snd (arm_round now s token bump dest db)"
  for now s token bump dest
  by unfold_locales (rule arm_round_keeps)

lemma expire_due_rounds_keeps: "keeps db (snd (expire_due_rounds now s token limit db))"
  unfolding expire_due_rounds_def Let_def snd_conv
  by (rule keeps_fold, rule keeps_trans [OF log_confirmation_attempt_keeps arm_round_keeps])

interpretation round_expiry: delivery_operation "\<lambda>db. snd (expire_due_rounds now s token limit db)"
  for now s token limit
  by unfold_locales (rule expire_due_rounds_keeps)

section \<open>What a change of location closes\<close>

text \<open>Statements that only close queued copies: every other row, and every destination, stays.\<close>

definition closes :: "delivery \<Rightarrow> delivery \<Rightarrow> bool" where
  "closes d d' \<longleftrightarrow> d' = d \<or> (d_status d = Pending \<and> d_status d' \<noteq> Pending \<and> d_status d' \<noteq> In_flight \<and>
     d_reconcile_state d' = d_reconcile_state d \<and> d_reconcile_deadline d' = d_reconcile_deadline d \<and>
     same_snapshot d d')"

definition only_closes :: "database \<Rightarrow> database \<Rightarrow> bool" where
  "only_closes db db' \<longleftrightarrow> list_all2 closes (deliveries db) (deliveries db') \<and> destinations db' = destinations db"

lemma closes_trans: "closes d1 d2 \<Longrightarrow> closes d2 d3 \<Longrightarrow> closes d1 d3"
  by (auto simp: closes_def intro: same_snapshot_trans)

lemma only_closes_refl [simp]: "only_closes db db"
  by (simp add: only_closes_def closes_def list_all2_same)

lemma only_closes_trans: "only_closes db1 db2 \<Longrightarrow> only_closes db2 db3 \<Longrightarrow> only_closes db1 db3"
  using list_all2_trans [OF closes_trans] by (auto simp: only_closes_def)

lemma only_closes_update:
  assumes "\<And>d. P d \<Longrightarrow> closes d (f d)"
  shows "only_closes db (update_deliveries P f db)"
  using list_all2_sql_update [of "deliveries db" P closes f] assms
  by (simp add: only_closes_def closes_def)

lemma only_closes_fold:
  assumes "\<And>x db. only_closes db (f x db)"
  shows "only_closes db (fold f xs db)"
proof (induction xs arbitrary: db)
  case Nil
  then show ?case by simp
next
  case (Cons x xs)
  show ?case by (simp, rule only_closes_trans [OF assms Cons.IH])
qed

lemma only_closes_pending:
  assumes "only_closes db db'" and "d \<in> set (deliveries db')" and "d_status d = Pending"
  shows "d \<in> set (deliveries db)"
proof -
  obtain i where "i < length (deliveries db')" "d = deliveries db' ! i"
    using assms(2) by (auto simp: in_set_conv_nth)
  then have "i < length (deliveries db)" "closes (deliveries db ! i) d"
    using assms(1) by (auto simp: only_closes_def list_all2_conv_all_nth)
  with assms(3) show ?thesis by (auto simp: closes_def)
qed

lemma only_closes_settled:
  assumes "only_closes db db'" and "d \<in> set (deliveries db)" and "d_status d \<noteq> Pending"
  shows "d \<in> set (deliveries db')"
proof -
  obtain i where "i < length (deliveries db)" "d = deliveries db ! i"
    using assms(2) by (auto simp: in_set_conv_nth)
  then have "i < length (deliveries db')" "closes d (deliveries db' ! i)"
    using assms(1) by (auto simp: only_closes_def list_all2_conv_all_nth)
  with assms(3) show ?thesis by (auto simp: closes_def)
qed

lemma cascade_after_stop_closes: "only_closes db (cascade_after_stop now i db)"
  by (cases "find_delivery db i")
    (auto simp: cascade_after_stop_def closes_def skipped_by_def skip_row_def same_snapshot_def
      intro!: only_closes_update)

lemma void_held_bodies_closes: "only_closes db (void_held_bodies now extra reason db)"
  unfolding void_held_bodies_def
  by (rule only_closes_update) (simp add: closes_def void_row_def release_claim_def same_snapshot_def)

lemma supersede_closes:
  assumes "\<And>d. P d \<Longrightarrow> d_status d = Pending"
  shows "only_closes db (update_deliveries P (superseded_row now) db)"
  by (rule only_closes_update) (simp add: assms closes_def superseded_row_def same_snapshot_def)

lemma cascade_superseded_closes: "only_closes db (cascade_superseded_destination now dest db)"
  unfolding cascade_superseded_destination_def cascade_all_def
  by (rule only_closes_fold) (rule cascade_after_stop_closes)

lemma relocate_held_bodies_closes: "only_closes db (relocate_held_bodies now dest db)"
  by (cases "find_destination db dest") (simp_all add: relocate_held_bodies_def void_held_bodies_closes)

lemma old_generation_destinations:
  "destinations db' = destinations db \<Longrightarrow> old_generation dest db' = old_generation dest db"
  by (rule ext) (simp add: old_generation_def find_destination_def)

lemma abandon_old_location_closes:
  "only_closes db (abandon_old_location now dest db)"
  "d \<in> set (deliveries (abandon_old_location now dest db)) \<Longrightarrow> old_generation dest db d \<Longrightarrow> d_status d \<noteq> Pending"
proof -
  define db1 where "db1 = relocate_held_bodies now dest db"
  define old where "old = old_generation dest db1"
  define db2 where "db2 = update_deliveries (\<lambda>d. old d \<and> d_status d = Pending \<and> d_phase d = Preview)
    (superseded_row now) db1"
  define db3 where "db3 = update_deliveries (\<lambda>d. old d \<and> d_status d = Pending) (superseded_row now) db2"
  have 1: "only_closes db db1"
    unfolding db1_def by (rule relocate_held_bodies_closes)
  have 2: "only_closes db1 db2" and 3: "only_closes db2 db3"
    unfolding db2_def db3_def by (rule supersede_closes; simp)+
  have tail: "only_closes db3 (abandon_old_location now dest db)"
    unfolding abandon_old_location_def Let_def db1_def [symmetric] old_def [symmetric] db2_def [symmetric]
      db3_def [symmetric]
    by (rule only_closes_trans [OF cascade_superseded_closes only_closes_fold])
      (simp add: void_body_after_preview_failure_def void_held_bodies_closes)
  from 1 2 3 tail show "only_closes db (abandon_old_location now dest db)"
    by (blast intro: only_closes_trans)
  assume d: "d \<in> set (deliveries (abandon_old_location now dest db))" and gen: "old_generation dest db d"
  show "d_status d \<noteq> Pending"
  proof
    assume "d_status d = Pending"
    with only_closes_pending [OF tail d] have "d \<in> set (deliveries db3)" by simp
    moreover have "old d"
      using gen 1 old_generation_destinations [of db1 db dest] by (simp add: old_def only_closes_def)
    moreover obtain x
      where "d = (if old x \<and> d_status x = Pending then superseded_row now x else x)"
      using \<open>d \<in> set (deliveries db3)\<close>
      unfolding db3_def update_deliveries_simps set_sql_update by blast
    ultimately show False
      using \<open>d_status d = Pending\<close> by (cases "old x \<and> d_status x = Pending") (auto simp: superseded_row_def)
  qed
qed

text \<open>
  After a move no copy of an earlier generation is queued, and what was in flight or had ended
  is left exactly as it was.
\<close>

lemma find_destination_row_update:
  assumes "\<And>d. dest_id (f d) = dest_id d"
  shows "find_destination (update_destination_row i f db) j
    = (if i = j then map_option f (find_destination db j) else find_destination db j)"
proof -
  have "first_row (\<lambda>d. dest_id d = j) (sql_update (\<lambda>d. dest_id d = i) f ds)
    = (if i = j then map_option f (first_row (\<lambda>d. dest_id d = j) ds) else first_row (\<lambda>d. dest_id d = j) ds)" for ds
    by (induction ds) (auto simp: assms)
  then show ?thesis by (simp add: find_destination_def update_destination_row_def)
qed

lemma arm_round_move:
  assumes "find_destination db dest = Some t"
    and "d \<in> set (deliveries (snd (arm_round now s token True dest db)))"
    and "d_destination_id d = dest" "d_confirmation_generation d \<le> dest_confirmation_generation t"
  shows "d_status d \<noteq> Pending"
proof -
  have "old_generation dest (update_destination_row dest (armed now s token True) db) d"
    using assms(1,3,4) find_destination_row_update [of "armed now s token True" dest db dest]
    by (simp add: old_generation_def armed_def)
  with assms(1,2) show ?thesis
    by (auto simp: arm_round_def Let_def dest: abandon_old_location_closes(2))
qed

lemma arm_round_settled:
  assumes "d \<in> set (deliveries db)" and "d_status d \<noteq> Pending"
  shows "d \<in> set (deliveries (snd (arm_round now s token bump dest db)))"
  using assms only_closes_settled [OF abandon_old_location_closes(1)]
  by (auto simp: arm_round_def Let_def split: option.split)

section \<open>What an echo does\<close>

lemma apply_echo_confirms:
  assumes "apply_echo now s token dest challenge db = Inr ((disposition, r), db')"
    and "find_destination db dest = Some d"
  shows "(disposition = Echo_confirmed) =
    (dest_confirmation_state d = Conf_pending \<and> \<not> null_lt (dest_challenge_expires_at d) now \<and>
     challenge = coalesce (dest_challenge_token d) [])"
  using assms
  by (cases "dest_confirmation_state d")
    (auto simp: apply_echo_def compare_digest_def case_prod_beta Let_def
      split: if_splits option.splits bool.splits)

lemma apply_echo_destination:
  assumes "apply_echo now s token dest challenge db = Inr ((disposition, r), db')"
    and "find_destination db dest = Some d"
  shows "find_destination db' dest = Some
    (case disposition of Echo_confirmed \<Rightarrow> confirmed_dest now d
     | Echo_expired \<Rightarrow> armed now s token False d | _ \<Rightarrow> d)"
proof -
  have same: "find_destination (log_confirmation_attempt a b k res db0) dest = find_destination db0 dest" for a b k res db0
    by (simp add: find_destination_def)
  have upd: "find_destination (update_destination_row dest f db0) dest = map_option f (find_destination db0 dest)"
    if "\<And>d. dest_id (f d) = dest_id d" for f db0
    using find_destination_row_update [of f dest db0 dest] that by simp
  show ?thesis
    using assms
    by (cases "dest_confirmation_state d")
      (auto simp: apply_echo_def arm_round_def same upd armed_def confirmed_dest_def Let_def
        split: if_splits option.splits bool.splits)
qed

end
