(* ===== verification/Receipts.thy ===== *)
theory Receipts
  imports Confirmation
begin

text \<open>
  app/receipts.py: a receiver reports the outcome of a copy by its dedupe key. Only a receipt
  for a copy that waits for one counts; every other one is logged with the reason it did not.
\<close>

section \<open>Statements\<close>

definition lock_delivery :: "database \<Rightarrow> uuid \<Rightarrow> string \<Rightarrow> delivery option" where
  "lock_delivery db dest key =
     first_row (\<lambda>d. d_destination_id d = dest \<and> d_dedupe_key d = key) (deliveries db)"

definition apply_receipt_row ::
  "time \<Rightarrow> reconcile_state \<Rightarrow> receipt_result \<Rightarrow> uuid \<Rightarrow> delivery \<Rightarrow> delivery" where
  "apply_receipt_row now state result receipt_id d = d
     \<lparr> d_reconcile_state := state, d_reconciled_at := Some now, d_receipt_result := Some result,
       d_receipt_id := Some receipt_id, d_updated_at := now \<rparr>"

definition mark_timed_out_row :: "time \<Rightarrow> delivery \<Rightarrow> delivery" where
  "mark_timed_out_row now d = d\<lparr>d_reconcile_state := Timed_out, d_updated_at := now\<rparr>"

definition park_row :: "time \<Rightarrow> dead_letter_reason \<Rightarrow> delivery \<Rightarrow> delivery" where
  "park_row now reason d = d\<lparr>d_status := Dead_lettered, d_dead_letter_reason := Some reason,
     d_dead_lettered_at := Some now, d_updated_at := now\<rparr>"

definition receipt_state :: "receipt_result \<Rightarrow> reconcile_state" where
  "receipt_state result = (if result = Success then Acknowledged else Receipt_failed)"

section \<open>Waiting for the worker\<close>

text \<open>
  The grace loop: while the copy is in flight and the grace period runs, the row is read again.
  A poll is what one read of the loop sees: whether the grace period was still running when it
  was tested, the clock of the transaction and the database. The last poll decides.
\<close>

type_synonym poll = "bool \<times> time \<times> database"

definition still_in_flight :: "uuid \<Rightarrow> string \<Rightarrow> database \<Rightarrow> bool" where
  "still_in_flight dest key db \<longleftrightarrow> (case lock_delivery db dest key of None \<Rightarrow> False
     | Some d \<Rightarrow> d_reconcile_state d = Rec_none \<and> d_status d = In_flight)"

fun settle :: "uuid \<Rightarrow> string \<Rightarrow> poll \<Rightarrow> poll list \<Rightarrow> time \<times> database" where
  "settle dest key (grace, now, db) [] = (now, db)"
| "settle dest key (grace, now, db) (p # ps) =
     (if still_in_flight dest key db \<and> grace then settle dest key p ps else (now, db))"

section \<open>Judging a receipt\<close>

definition reconcile_expired :: "time \<Rightarrow> delivery \<Rightarrow> bool" where
  "reconcile_expired now d \<longleftrightarrow> null_lt (d_reconcile_deadline d) now"

definition judge :: "time \<Rightarrow> delivery option \<Rightarrow> receipt_disposition" where
  "judge now found = (case found of
      None \<Rightarrow> Receipt_orphan
    | Some d \<Rightarrow>
        if d_reconcile_state d = Awaiting
        then (if reconcile_expired now d then Receipt_late else Receipt_applied)
        else if d_reconcile_state d = Rec_none \<and> d_status d = Delivered then Receipt_applied
        else if d_reconcile_state d \<in> {Acknowledged, Receipt_failed} then Receipt_duplicate
        else if d_reconcile_state d = Timed_out \<or> d_status d = Deadline_expired then Receipt_late
        else Receipt_premature)"

definition store_receipt ::
  "time \<Rightarrow> uuid \<Rightarrow> uuid \<Rightarrow> string \<Rightarrow> receipt_result \<Rightarrow> uuid option \<Rightarrow> receipt_disposition \<Rightarrow>
   database \<Rightarrow> api_error + receipt \<times> database" where
  "store_receipt now i dest key result delivery disposition db =
     (if find_destination db dest = None then Inl Constraint_violation
      else let r = \<lparr>r_id = i, r_destination_id = dest, r_dedupe_key = key, r_result = result,
                    r_delivery_id = delivery, r_disposition = disposition, r_received_at = now\<rparr>
           in Inr (r, db\<lparr>receipts := receipts db @ [r]\<rparr>))"

text \<open>The updates made before the receipt is stored, and whether a relay run stops here.\<close>

definition reconcile ::
  "time \<Rightarrow> settings \<Rightarrow> uuid \<Rightarrow> receipt_result \<Rightarrow> delivery \<Rightarrow> database \<Rightarrow> bool \<times> database" where
  "reconcile now s receipt_id result d db =
     (let i = d_id d;
          relay = (d_relay_chain_id d \<noteq> None);
          applied = update_delivery_row i (apply_receipt_row now (receipt_state result) result receipt_id) db
      in if d_reconcile_state d = Awaiting
         then (if reconcile_expired now d
               then (relay, update_delivery_row i (mark_timed_out_row now) db)
               else (result = Failure \<and> relay,
                     if result = Failure \<and> d_status d = Delivered \<and>
                        max_requeue_cycles s \<le> d_requeue_count d
                     then update_deliveries (\<lambda>x. d_id x = i \<and> d_status x = Delivered \<and>
                              max_requeue_cycles s \<le> d_requeue_count x)
                            (park_row now Receipt_failure_exhausted) applied
                     else applied))
         else if d_reconcile_state d = Rec_none \<and> d_status d = Delivered then (False, applied)
         else (False, db))"

definition decide_receipt ::
  "time \<Rightarrow> settings \<Rightarrow> uuid \<Rightarrow> uuid \<Rightarrow> string \<Rightarrow> receipt_result \<Rightarrow> database \<Rightarrow>
   api_error + receipt \<times> database" where
  "decide_receipt now s receipt_id dest key result db =
     (let found = lock_delivery db dest key;
          (stopped, db1) = (case found of None \<Rightarrow> (False, db)
                            | Some d \<Rightarrow> reconcile now s receipt_id result d db)
      in case store_receipt now receipt_id dest key result (map_option d_id found) (judge now found) db1 of
           Inl err \<Rightarrow> Inl err
         | Inr (r, db2) \<Rightarrow>
             Inr (r, if stopped
                     then (case found of None \<Rightarrow> db2 | Some d \<Rightarrow> cascade_after_stop now (d_id d) db2)
                     else db2))"

definition ingest_receipt ::
  "settings \<Rightarrow> uuid \<Rightarrow> uuid \<Rightarrow> string \<Rightarrow> receipt_result \<Rightarrow> poll \<Rightarrow> poll list \<Rightarrow>
   api_error + receipt \<times> database" where
  "ingest_receipt s receipt_id dest key result first later =
     (case settle dest key first later of
        (now, db) \<Rightarrow> decide_receipt now s receipt_id dest key result db)"

section \<open>The operation keeps the tables\<close>

lemma apply_receipt_row_evolves:
  assumes "d_reconcile_state d = Awaiting \<or> (d_reconcile_state d = Rec_none \<and> d_status d = Delivered)"
  shows "row_evolves d (apply_receipt_row now (receipt_state result) result receipt_id d)"
  by (rule row_evolves_edge [OF lifecycle.receipt [where s = "receipt_state result"]])
    (use assms in \<open>auto simp: copy_of_def apply_receipt_row_def receipt_state_def same_snapshot_def
       counters_grow_def\<close>)

lemma mark_timed_out_row_evolves:
  assumes "d_reconcile_state d = Awaiting"
  shows "row_evolves d (mark_timed_out_row now d)"
  by (rule row_evolves_edge [OF lifecycle.time_out])
    (use assms in \<open>simp_all add: copy_of_def mark_timed_out_row_def same_snapshot_def counters_grow_def\<close>)

lemma park_failed_row_evolves:
  assumes "d_status d = Delivered" and "d_reconcile_state d = Receipt_failed"
  shows "row_evolves d (park_row now Receipt_failure_exhausted d)"
  by (rule row_evolves_edge [OF lifecycle.park_receipt])
    (use assms in \<open>simp_all add: copy_of_def park_row_def same_snapshot_def counters_grow_def\<close>)

lemma update_row_keeps_found:
  assumes "keys_ok db" and "d \<in> set (deliveries db)" and "row_evolves d (f d)"
  shows "keeps db (update_delivery_row (d_id d) f db)"
  using assms keys_ok_id [OF assms(1) _ assms(2)] by (intro update_delivery_row_keeps) auto

lemma reconcile_keeps:
  assumes "keys_ok db" and d: "d \<in> set (deliveries db)"
  shows "keeps db (snd (reconcile now s receipt_id result d db))"
proof -
  let ?applied = "update_delivery_row (d_id d) (apply_receipt_row now (receipt_state result) result receipt_id) db"
  have 1: "keeps db ?applied"
    if "d_reconcile_state d = Awaiting \<or> (d_reconcile_state d = Rec_none \<and> d_status d = Delivered)"
    using assms apply_receipt_row_evolves [OF that] by (rule update_row_keeps_found)
  have 2: "keeps ?applied (update_deliveries (\<lambda>x. d_id x = d_id d \<and> d_status x = Delivered \<and>
      max_requeue_cycles s \<le> d_requeue_count x) (park_row now Receipt_failure_exhausted) ?applied)"
    if "result = Failure"
    using that by (intro keeps_update_deliveries park_failed_row_evolves)
      (auto simp: update_delivery_row_def set_sql_update apply_receipt_row_def receipt_state_def split: if_splits)
  have 3: "keeps db (update_delivery_row (d_id d) (mark_timed_out_row now) db)"
    if "d_reconcile_state d = Awaiting"
    using assms mark_timed_out_row_evolves [OF that] by (rule update_row_keeps_found)
  show ?thesis
    using 1 3 keeps_trans [OF 1 2] by (auto simp: reconcile_def Let_def)
qed

lemma store_receipt_keeps:
  "store_receipt now i dest key result delivery disposition db = Inr (r, db') \<Longrightarrow> keeps db db'"
  by (rule keeps_same) (auto simp: store_receipt_def Let_def split: if_splits)

lemma lock_delivery_in: "lock_delivery db dest key = Some d \<Longrightarrow>
   d \<in> set (deliveries db) \<and> d_destination_id d = dest \<and> d_dedupe_key d = key"
  by (auto simp: lock_delivery_def dest: first_row_Some)

lemma decide_receipt_keeps:
  assumes "decide_receipt now s receipt_id dest key result db = Inr (r, db')" and "db_ok db"
  shows "keeps db db'"
proof -
  define found where "found = lock_delivery db dest key"
  define step where "step = (case found of None \<Rightarrow> (False, db)
    | Some d \<Rightarrow> reconcile now s receipt_id result d db)"
  have 1: "keeps db (snd step)"
    using assms(2) by (auto simp: step_def found_def split: option.split dest!: lock_delivery_in
        intro: reconcile_keeps)
  obtain stopped db1 where step: "step = (stopped, db1)" by (cases step)
  obtain db2 where
      store: "store_receipt now receipt_id dest key result (map_option d_id found) (judge now found) db1 = Inr (r, db2)"
    and db': "db' = (if stopped then (case found of None \<Rightarrow> db2 | Some d \<Rightarrow> cascade_after_stop now (d_id d) db2) else db2)"
    using assms(1) unfolding decide_receipt_def Let_def found_def [symmetric] step_def [symmetric] step
    by (auto split: sum.splits)
  have 2: "keeps db db2"
    using 1 store_receipt_keeps [OF store] by (auto simp: step intro: keeps_trans)
  with db' show ?thesis
    by (auto split: option.split intro: keeps_trans cascade_after_stop_keeps)
qed

interpretation receipt: delivery_operation
  "\<lambda>db. committed (decide_receipt now s receipt_id dest key result db) db"
  for now s receipt_id dest key result
  by unfold_locales (auto intro!: keeps_committed intro: decide_receipt_keeps)

section \<open>What a receipt does\<close>

lemma settle_reads:
  "settle dest key p ps = (now, db) \<Longrightarrow>
   \<not> still_in_flight dest key db \<or> (now, db) = snd (last (p # ps)) \<or> (False, now, db) \<in> set (p # ps)"
proof (induction ps arbitrary: p)
  case Nil
  then show ?case by (cases p) auto
next
  case (Cons q qs)
  obtain grace t d where p: "p = (grace, t, d)" by (cases p)
  show ?case
  proof (cases "still_in_flight dest key d \<and> grace")
    case True
    with Cons.prems p have "settle dest key q qs = (now, db)" by simp
    from Cons.IH [OF this] show ?thesis by auto
  next
    case False
    with Cons.prems p show ?thesis by auto
  qed
qed

lemma judge_applied:
  "judge now found = Receipt_applied \<longleftrightarrow> (\<exists>d. found = Some d \<and>
     ((d_reconcile_state d = Awaiting \<and> \<not> reconcile_expired now d) \<or>
      (d_reconcile_state d = Rec_none \<and> d_status d = Delivered)))"
  by (cases found) (auto simp: judge_def)

lemma decide_receipt_result:
  assumes "decide_receipt now s receipt_id dest key result db = Inr (r, db')"
  obtains stopped db1 where
    "r_disposition r = judge now (lock_delivery db dest key)"
    "r_delivery_id r = map_option d_id (lock_delivery db dest key)"
    "(stopped, db1) = (case lock_delivery db dest key of None \<Rightarrow> (False, db)
       | Some d \<Rightarrow> reconcile now s receipt_id result d db)"
    "deliveries db' = deliveries
       (if stopped then (case lock_delivery db dest key of None \<Rightarrow> db1
          | Some d \<Rightarrow> cascade_after_stop now (d_id d) db1) else db1)"
proof -
  define step where "step = (case lock_delivery db dest key of None \<Rightarrow> (False, db)
    | Some d \<Rightarrow> reconcile now s receipt_id result d db)"
  obtain stopped db1 where step: "step = (stopped, db1)" by (cases step)
  have casc: "deliveries (cascade_after_stop now i (db1\<lparr>receipts := x\<rparr>)) = deliveries (cascade_after_stop now i db1)" for i x
    by (simp add: cascade_after_stop_def find_delivery_def split: option.split)
  show thesis
  proof (rule that)
    show "(stopped, db1) = (case lock_delivery db dest key of None \<Rightarrow> (False, db)
       | Some d \<Rightarrow> reconcile now s receipt_id result d db)"
      using step by (simp add: step_def)
    show "r_disposition r = judge now (lock_delivery db dest key)"
      "r_delivery_id r = map_option d_id (lock_delivery db dest key)"
      "deliveries db' = deliveries
       (if stopped then (case lock_delivery db dest key of None \<Rightarrow> db1
          | Some d \<Rightarrow> cascade_after_stop now (d_id d) db1) else db1)"
      using assms step casc
      unfolding decide_receipt_def Let_def step_def [symmetric] store_receipt_def
      by (auto split: option.splits if_splits)
  qed
qed

text \<open>Receipts that do not count leave every copy alone, unless they find the window expired.\<close>

lemma decide_receipt_ignored:
  assumes "decide_receipt now s receipt_id dest key result db = Inr (r, db')"
    and "r_disposition r \<noteq> Receipt_applied"
    and "\<And>d. lock_delivery db dest key = Some d \<Longrightarrow> d_reconcile_state d \<noteq> Awaiting"
  shows "deliveries db' = deliveries db"
proof -
  from assms(1) obtain stopped db1 where r: "r_disposition r = judge now (lock_delivery db dest key)"
    and step: "(stopped, db1) = (case lock_delivery db dest key of None \<Rightarrow> (False, db)
       | Some d \<Rightarrow> reconcile now s receipt_id result d db)"
    and rows: "deliveries db' = deliveries
       (if stopped then (case lock_delivery db dest key of None \<Rightarrow> db1
          | Some d \<Rightarrow> cascade_after_stop now (d_id d) db1) else db1)"
    by (rule decide_receipt_result)
  have "stopped = False \<and> db1 = db"
    using step assms(2,3) r
    by (auto simp: reconcile_def Let_def judge_def split: option.splits if_splits)
  with rows show ?thesis by simp
qed

text \<open>The found row after a receipt that counts.\<close>

lemma lock_delivery_update:
  assumes "\<And>d. d_destination_id (f d) = d_destination_id d" and "\<And>d. d_dedupe_key (f d) = d_dedupe_key d"
  shows "lock_delivery (update_deliveries P f db) dest key
    = map_option (\<lambda>d. if P d then f d else d) (lock_delivery db dest key)"
proof -
  have "first_row (\<lambda>d. d_destination_id d = dest \<and> d_dedupe_key d = key) (sql_update P f rows)
    = map_option (\<lambda>d. if P d then f d else d)
        (first_row (\<lambda>d. d_destination_id d = dest \<and> d_dedupe_key d = key) rows)" for rows
    by (induction rows) (auto simp: assms)
  then show ?thesis by (simp add: lock_delivery_def)
qed

lemma lock_delivery_rows: "deliveries db' = deliveries db \<Longrightarrow> lock_delivery db' dest key = lock_delivery db dest key"
  by (simp add: lock_delivery_def)

lemma lock_delivery_cascade:
  assumes "find_delivery db i = Some t" and "lock_delivery db dest key = Some t"
  shows "lock_delivery (cascade_after_stop now i db) dest key = Some t"
  using assms by (simp add: cascade_after_stop_def lock_delivery_update skip_row_def skipped_by_self)

lemma decide_receipt_applied_row:
  assumes "decide_receipt now s receipt_id dest key result db = Inr (r, db')" and "keys_ok db"
    and "lock_delivery db dest key = Some d" and "r_disposition r = Receipt_applied"
  shows "\<exists>d'. lock_delivery db' dest key = Some d' \<and> d_id d' = d_id d \<and>
    d_reconcile_state d' = receipt_state result \<and> d_receipt_id d' = Some receipt_id"
proof -
  let ?ap = "apply_receipt_row now (receipt_state result) result receipt_id"
  let ?hit = "\<lambda>x. d_id x = d_id d \<and> d_status x = Delivered \<and> max_requeue_cycles s \<le> d_requeue_count x"
  from assms(1) obtain stopped db1 where r: "r_disposition r = judge now (lock_delivery db dest key)"
    and step: "(stopped, db1) = (case lock_delivery db dest key of None \<Rightarrow> (False, db)
       | Some d \<Rightarrow> reconcile now s receipt_id result d db)"
    and rows: "deliveries db' = deliveries
       (if stopped then (case lock_delivery db dest key of None \<Rightarrow> db1
          | Some d \<Rightarrow> cascade_after_stop now (d_id d) db1) else db1)"
    by (rule decide_receipt_result)
  have "db1 = update_delivery_row (d_id d) ?ap db \<or>
      db1 = update_deliveries ?hit (park_row now Receipt_failure_exhausted) (update_delivery_row (d_id d) ?ap db)"
    using step assms(3,4) r
    by (auto simp: reconcile_def Let_def judge_def split: if_splits)
  then obtain d' where d': "lock_delivery db1 dest key = Some d'" "d_id d' = d_id d"
      "d_reconcile_state d' = receipt_state result" "d_receipt_id d' = Some receipt_id"
    using assms(3)
    by (auto simp: update_delivery_row_def lock_delivery_update apply_receipt_row_def park_row_def)
  have "keeps db db1"
    using step assms(2,3) lock_delivery_in [OF assms(3)] reconcile_keeps [of db d now s receipt_id result]
    by (cases "reconcile now s receipt_id result d db") simp
  then have "find_delivery db1 (d_id d) = Some d'"
    using assms(2) d' find_delivery_in [of db1 d'] lock_delivery_in [OF d'(1)] by (simp add: keeps_def)
  then have "lock_delivery db' dest key = Some d'"
    using rows d'(1) assms(3) lock_delivery_cascade lock_delivery_rows [of db' db1]
      lock_delivery_rows [of db' "cascade_after_stop now (d_id d) db1"]
    by (cases stopped) auto
  with d' show ?thesis by blast
qed

text \<open>A receipt counts once: the next one for the same copy is a duplicate and changes no copy.\<close>

lemma decide_receipt_once:
  assumes "decide_receipt now s receipt_id dest key result db = Inr (r, db')" and "keys_ok db"
    and "r_disposition r = Receipt_applied"
    and "decide_receipt now' s' receipt_id' dest key result' db' = Inr (r', db'')"
  shows "r_disposition r' = Receipt_duplicate \<and> deliveries db'' = deliveries db'"
proof -
  from assms(1,3) obtain d where "lock_delivery db dest key = Some d"
    using judge_applied by (metis decide_receipt_result)
  then obtain d' where d': "lock_delivery db' dest key = Some d'" "d_reconcile_state d' = receipt_state result"
    using decide_receipt_applied_row assms(1-3) by blast
  then have dup: "r_disposition r' = Receipt_duplicate"
    using assms(4) by (cases result) (auto elim!: decide_receipt_result simp: judge_def receipt_state_def)
  moreover have "deliveries db'' = deliveries db'"
    using decide_receipt_ignored [OF assms(4)] dup d' by (cases result) (auto simp: receipt_state_def)
  ultimately show ?thesis ..
qed

end
