(* ===== verification/Reconciler.thy ===== *)
theory Reconciler
  imports Receipts
begin

text \<open>
  app/reconciler.py: one pass of the sweeper. Queued copies past their cutoff are closed,
  gates past their consent deadline are closed, copies whose receipt did not come in time are
  timed out or, with their requeue cycles spent, parked; every relay run that stopped is cut.
\<close>

definition void_expired_gates :: "time \<Rightarrow> database \<Rightarrow> int \<times> database" where
  "void_expired_gates now db = sweep_expired_gates now 500 db"

definition expire_delivery_deadlines :: "time \<Rightarrow> (uuid \<Rightarrow> bool) \<Rightarrow> database \<Rightarrow> int \<times> database" where
  "expire_delivery_deadlines now pick db =
     (case expire_due_deliveries now 500 pick db of
        (ids, db1) \<Rightarrow> (int (length ids), cascade_all now ids db1))"

definition overdue :: "time \<Rightarrow> delivery \<Rightarrow> bool" where
  "overdue now d \<longleftrightarrow> d_reconcile_state d = Awaiting \<and> null_lt (d_reconcile_deadline d) now"

definition exhausted :: "settings \<Rightarrow> delivery \<Rightarrow> bool" where
  "exhausted s d \<longleftrightarrow> max_requeue_cycles s \<le> d_requeue_count d"

definition swept_row :: "time \<Rightarrow> settings \<Rightarrow> delivery \<Rightarrow> delivery" where
  "swept_row now s d = d
     \<lparr> d_reconcile_state := Timed_out,
       d_status := (if exhausted s d then Dead_lettered else d_status d),
       d_dead_letter_reason := (if exhausted s d then Some Receipt_timeout_exhausted
                                else d_dead_letter_reason d),
       d_dead_lettered_at := (if exhausted s d then Some now else d_dead_lettered_at d),
       d_updated_at := now \<rparr>"

definition sweep_overdue :: "time \<Rightarrow> settings \<Rightarrow> database \<Rightarrow> (int \<times> int \<times> uuid list) \<times> database" where
  "sweep_overdue now s db =
     (let rows = filter (overdue now) (deliveries db)
      in ((count_rows (\<lambda>d. \<not> exhausted s d) rows, count_rows (exhausted s) rows,
           map d_id (filter (\<lambda>d. d_relay_chain_id d \<noteq> None) rows)),
          update_deliveries (overdue now) (swept_row now s) db))"

definition sweep_once :: "time \<Rightarrow> settings \<Rightarrow> (uuid \<Rightarrow> bool) \<Rightarrow> database \<Rightarrow> (int \<times> int) \<times> database" where
  "sweep_once now s pick db =
     (let db1 = snd (expire_delivery_deadlines now pick db);
          db2 = snd (void_expired_gates now db1)
      in case sweep_overdue now s db2 of
           ((timed_out, dead_lettered, stopped), db3) \<Rightarrow>
             ((timed_out, dead_lettered), cascade_all now stopped db3))"

section \<open>The sweep keeps the tables\<close>

lemma swept_row_evolves:
  assumes "overdue now d"
  shows "row_evolves d (swept_row now s d)"
proof (cases "exhausted s d")
  case True
  then show ?thesis
    by - (rule row_evolves_edge [OF lifecycle.park_time_out],
      use assms in \<open>simp_all add: overdue_def copy_of_def swept_row_def same_snapshot_def counters_grow_def\<close>)
next
  case False
  then show ?thesis
    by - (rule row_evolves_edge [OF lifecycle.time_out],
      use assms in \<open>simp_all add: overdue_def copy_of_def swept_row_def same_snapshot_def counters_grow_def\<close>)
qed

lemma sweep_overdue_keeps: "keeps db (snd (sweep_overdue now s db))"
  unfolding sweep_overdue_def Let_def snd_conv
  by (rule keeps_update_deliveries) (rule swept_row_evolves)

lemma expire_delivery_deadlines_keeps:
  assumes "db_ok db"
  shows "keeps db (snd (expire_delivery_deadlines now pick db))"
  using keeps_trans [OF expire_due_keeps [OF assms] cascade_all_keeps]
  by (simp add: expire_delivery_deadlines_def case_prod_beta)

lemma sweep_once_keeps:
  assumes "db_ok db"
  shows "keeps db (snd (sweep_once now s pick db))"
proof -
  let ?db1 = "snd (expire_delivery_deadlines now pick db)"
  let ?db2 = "snd (void_expired_gates now ?db1)"
  have 1: "keeps db ?db1"
    by (rule expire_delivery_deadlines_keeps [OF assms])
  then have "keeps ?db1 ?db2"
    unfolding void_expired_gates_def using assms by (intro sweep_expired_gates_keeps) (rule keeps_db_ok)
  with 1 have 2: "keeps db ?db2" by (rule keeps_trans)
  have "keeps ?db2 (cascade_all now ids (snd (sweep_overdue now s ?db2)))" for ids
    by (rule keeps_trans [OF sweep_overdue_keeps cascade_all_keeps])
  with 2 show ?thesis
    unfolding sweep_once_def Let_def case_prod_beta snd_conv by (rule keeps_trans)
qed

interpretation sweep: delivery_operation "\<lambda>db. snd (sweep_once now s pick db)" for now s pick
  by unfold_locales (rule sweep_once_keeps)

section \<open>What the sweep closes\<close>

text \<open>No copy whose receipt deadline has passed is still waiting after a pass.\<close>

lemma only_closes_overdue:
  assumes "only_closes db db'" and "\<forall>d \<in> set (deliveries db). \<not> overdue now d"
    and "d \<in> set (deliveries db')"
  shows "\<not> overdue now d"
proof -
  obtain i where "i < length (deliveries db')" "d = deliveries db' ! i"
    using assms(3) by (auto simp: in_set_conv_nth)
  then have "deliveries db ! i \<in> set (deliveries db)" "closes (deliveries db ! i) d"
    using assms(1) by (auto simp: only_closes_def list_all2_conv_all_nth)
  with assms(2) show ?thesis by (auto simp: closes_def overdue_def)
qed

lemma swept_row_settled [simp]: "\<not> overdue now (swept_row now s d)"
  by (simp add: overdue_def swept_row_def)

lemma cascade_all_closes: "only_closes db (cascade_all now ids db)"
  unfolding cascade_all_def by (rule only_closes_fold) (rule cascade_after_stop_closes)

lemma sweep_once_settles:
  assumes "d \<in> set (deliveries (snd (sweep_once now s pick db)))"
  shows "\<not> overdue now d"
proof -
  define db2 where "db2 = snd (void_expired_gates now (snd (expire_delivery_deadlines now pick db)))"
  obtain ids where "snd (sweep_once now s pick db) = cascade_all now ids (snd (sweep_overdue now s db2))"
    by (simp add: sweep_once_def db2_def case_prod_beta Let_def)
  moreover have "\<forall>d \<in> set (deliveries (snd (sweep_overdue now s db2))). \<not> overdue now d"
    by (auto simp: sweep_overdue_def Let_def set_sql_update)
  ultimately show ?thesis
    using assms only_closes_overdue [OF cascade_all_closes] by auto
qed

text \<open>The counts of a pass are the rows it timed out and parked.\<close>

lemma sweep_overdue_counts:
  assumes "fst (sweep_overdue now s db) = (a, b, ids)"
  shows "a + b = count_rows (overdue now) (deliveries db)"
proof -
  have "count_rows (\<lambda>d. \<not> exhausted s d) (filter (overdue now) rows)
      + count_rows (exhausted s) (filter (overdue now) rows) = count_rows (overdue now) rows" for rows
    by (induction rows) simp_all
  with assms show ?thesis by (auto simp: sweep_overdue_def Let_def)
qed

end
