(* ===== verification/Worker.thy ===== *)
theory Worker
  imports Reconciler
begin

text \<open>
  app/worker.py: the outbound worker. One transaction claims the head of a queue
  (\<open>claim_next_event\<close>), the HTTP call runs outside any transaction while a heartbeat renews the
  lease, and a second transaction writes the result (\<open>record_result\<close>). The confirmer probes
  destinations whose handshake is open (\<open>send_confirmation_probe\<close>).
\<close>

section \<open>Leases\<close>

definition reaped_row :: "time \<Rightarrow> delivery \<Rightarrow> delivery" where
  "reaped_row now d = (release_claim d)\<lparr>d_status := Pending,
     d_next_attempt_at := min (d_next_attempt_at d) now, d_updated_at := now\<rparr>"

definition reap :: "time \<Rightarrow> database \<Rightarrow> database" where
  "reap now db = update_deliveries (\<lambda>d. d_status d = In_flight \<and> null_lt (d_lease_until d) now)
     (reaped_row now) db"

definition owns :: "uuid \<Rightarrow> uuid option \<Rightarrow> delivery \<Rightarrow> bool" where
  "owns i token d \<longleftrightarrow> d_id d = i \<and> d_status d = In_flight \<and> sql_eq (d_claim_token d) token"

text \<open>One beat; the answer says whether the lease is still ours.\<close>

definition heartbeat :: "time \<Rightarrow> settings \<Rightarrow> uuid \<Rightarrow> uuid option \<Rightarrow> database \<Rightarrow> bool \<times> database" where
  "heartbeat now s i token db =
     (count_rows (owns i token) (deliveries db) = 1,
      update_deliveries (owns i token)
        (\<lambda>d. d\<lparr>d_lease_until := Some (now + claim_lease_seconds s)\<rparr>) db)"

section \<open>Choosing the copy to send\<close>

definition deliverable :: "time \<Rightarrow> delivery \<Rightarrow> bool" where
  "deliverable now e \<longleftrightarrow> (d_status e = Pending \<or> d_status e = In_flight) \<and>
     (d_release_state e = None \<or> d_release_state e = Some Released) \<and>
     (d_deliver_by e = None \<or> null_gt (d_deliver_by e) now)"

definition queue :: "time \<Rightarrow> uuid \<Rightarrow> delivery list \<Rightarrow> delivery list" where
  "queue now dest rows = order_by d_destination_seq
     (filter (\<lambda>e. d_destination_id e = dest \<and> deliverable now e) rows)"

definition due_at :: "delivery \<Rightarrow> time" where
  "due_at e = (case d_not_before e of None \<Rightarrow> d_next_attempt_at e | Some nb \<Rightarrow> max (d_next_attempt_at e) nb)"

definition paused :: "time \<Rightarrow> destination \<Rightarrow> bool" where
  "paused now d \<longleftrightarrow> null_le (dest_paused_from d) now \<and>
     (dest_paused_until d = None \<or> null_gt (dest_paused_until d) now)"

definition recovers :: "time \<Rightarrow> destination \<Rightarrow> bool" where
  "recovers now d \<longleftrightarrow> dest_status d = Isolated \<and> null_le (dest_recoverable_at d) now"

definition in_flight_to :: "uuid \<Rightarrow> delivery list \<Rightarrow> bool" where
  "in_flight_to dest rows \<longleftrightarrow> (\<exists>e \<in> set rows. d_destination_id e = dest \<and> d_status e = In_flight)"

definition ready :: "time \<Rightarrow> delivery list \<Rightarrow> destination \<Rightarrow> bool" where
  "ready now rows d \<longleftrightarrow> (case queue now (dest_id d) rows of [] \<Rightarrow> False
     | oldest # _ \<Rightarrow> d_status oldest = Pending \<and> due_at oldest \<le> now \<and> relay_open rows oldest \<and>
         (dest_status d = Active \<or> recovers now d) \<and> dest_confirmation_state d = Confirmed \<and>
         d_confirmation_generation oldest = dest_confirmation_generation d \<and>
         \<not> paused now d \<and> \<not> in_flight_to (dest_id d) rows)"

definition head_due_at :: "time \<Rightarrow> delivery list \<Rightarrow> destination \<Rightarrow> time" where
  "head_due_at now rows d = (case queue now (dest_id d) rows of [] \<Rightarrow> now | oldest # _ \<Rightarrow> due_at oldest)"

text \<open>
  \<open>FOR UPDATE SKIP LOCKED\<close> twice: a destination row, then a delivery row, that another
  transaction has locked is passed over. \<open>locked\<close> says which ids are locked.
\<close>

definition candidate :: "time \<Rightarrow> (uuid \<Rightarrow> bool) \<Rightarrow> database \<Rightarrow> destination option" where
  "candidate now locked db =
     (case order_by (head_due_at now (deliveries db))
             (filter (\<lambda>d. ready now (deliveries db) d \<and> \<not> locked (dest_id d)) (destinations db)) of
        [] \<Rightarrow> None | d # _ \<Rightarrow> Some d)"

definition picked :: "time \<Rightarrow> (uuid \<Rightarrow> bool) \<Rightarrow> delivery list \<Rightarrow> destination \<Rightarrow> delivery option" where
  "picked now locked rows d =
     (case filter (\<lambda>e. relay_open rows e \<and> \<not> locked (d_id e)) (queue now (dest_id d) rows) of
        [] \<Rightarrow> None
      | e # _ \<Rightarrow>
          if d_status e = Pending \<and> d_next_attempt_at e \<le> now \<and>
             (d_not_before e = None \<or> null_le (d_not_before e) now) \<and>
             d_confirmation_generation e = dest_confirmation_generation d
          then Some e else None)"

section \<open>The claim\<close>

record claim =
  cl_row :: delivery
  cl_url :: string
  cl_recovered :: bool
  cl_corrects :: "uuid option"

definition claim_row :: "time \<Rightarrow> settings \<Rightarrow> uuid \<Rightarrow> delivery \<Rightarrow> delivery" where
  "claim_row now s token e = e\<lparr>d_status := In_flight, d_attempts := d_attempts e + 1,
     d_claim_token := Some token, d_claimed_at := Some now,
     d_lease_until := Some (now + claim_lease_seconds s), d_updated_at := now\<rparr>"

definition recovered_dest :: "destination \<Rightarrow> destination" where
  "recovered_dest d = d\<lparr>dest_status := Active, dest_failure_count := 0, dest_recoverable_at := None\<rparr>"

definition corrected_event :: "database \<Rightarrow> delivery \<Rightarrow> uuid option" where
  "corrected_event db e = (case d_event_id e of None \<Rightarrow> None
     | Some i \<Rightarrow> (case find_event db i of None \<Rightarrow> None | Some ev \<Rightarrow> e_corrects_event_id ev))"

definition claim_head ::
  "time \<Rightarrow> settings \<Rightarrow> uuid \<Rightarrow> (uuid \<Rightarrow> bool) \<Rightarrow> (uuid \<Rightarrow> bool) \<Rightarrow> database \<Rightarrow> claim option \<times> database" where
  "claim_head now s token locked_dest locked_row db =
     (case candidate now locked_dest db of
        None \<Rightarrow> (None, db)
      | Some d \<Rightarrow>
          (case picked now locked_row (deliveries db) d of
             None \<Rightarrow> (None, db)
           | Some e \<Rightarrow>
               let db1 = update_delivery_row (d_id e) (claim_row now s token) db
               in (Some \<lparr>cl_row = claim_row now s token e, cl_url = dest_url d,
                        cl_recovered = recovers now d, cl_corrects = corrected_event db e\<rparr>,
                   if recovers now d then update_destination_row (dest_id d) recovered_dest db1 else db1)))"

section \<open>The claiming transaction\<close>

definition stale_rows :: "database \<Rightarrow> delivery list" where
  "stale_rows db = take 200 (order_by d_destination_id (order_by d_destination_seq
     (filter (\<lambda>e. d_status e = Pending \<and> old_generation (d_destination_id e) db e) (deliveries db))))"

definition supersede_stale :: "time \<Rightarrow> database \<Rightarrow> delivery list \<times> database" where
  "supersede_stale now db =
     (let stale = stale_rows db
      in (stale, update_deliveries (\<lambda>d. d_id d \<in> set (map d_id stale)) (superseded_row now) db))"

definition clean_queues :: "time \<Rightarrow> (uuid \<Rightarrow> bool) \<Rightarrow> database \<Rightarrow> database" where
  "clean_queues now pick db =
     (case expire_due_deliveries now 500 pick (reap now db) of
        (expired, db1) \<Rightarrow>
          (case supersede_stale now (cascade_all now expired db1) of
             (stale, db2) \<Rightarrow>
               cascade_all now (map d_id (filter (\<lambda>d. d_relay_chain_id d \<noteq> None) stale)) db2))"

definition claim_next_event ::
  "time \<Rightarrow> settings \<Rightarrow> uuid \<Rightarrow> (uuid \<Rightarrow> bool) \<Rightarrow> (uuid \<Rightarrow> bool) \<Rightarrow> (uuid \<Rightarrow> bool) \<Rightarrow> database \<Rightarrow>
   claim option \<times> database" where
  "claim_next_event now s token pick locked_dest locked_row db =
     claim_head now s token locked_dest locked_row (clean_queues now pick db)"

section \<open>The claiming transaction keeps the tables\<close>

lemma reaped_row_evolves:
  assumes "d_status d = In_flight"
  shows "row_evolves d (reaped_row now d)"
  by (rule row_evolves_edge [OF lifecycle.back_to_queue])
    (use assms in \<open>simp_all add: copy_of_def reaped_row_def release_claim_def same_snapshot_def counters_grow_def\<close>)

lemma reap_keeps: "keeps db (reap now db)"
  unfolding reap_def by (rule keeps_update_deliveries) (simp add: reaped_row_evolves)

lemma heartbeat_keeps: "keeps db (snd (heartbeat now s i token db))"
  unfolding heartbeat_def snd_conv
  by (rule keeps_update_deliveries, rule row_evolves_stay)
    (simp_all add: copy_of_def same_snapshot_def counters_grow_def)

interpretation lease_beat: delivery_operation "\<lambda>db. snd (heartbeat now s i token db)" for now s i token
  by unfold_locales (rule heartbeat_keeps)

lemma stale_rows_mem:
  "d \<in> set (stale_rows db) \<Longrightarrow> d \<in> set (deliveries db) \<and> d_status d = Pending \<and>
   old_generation (d_destination_id d) db d"
  unfolding stale_rows_def by (auto dest: in_set_takeD)

lemma supersede_stale_keeps:
  assumes "keys_ok db"
  shows "keeps db (snd (supersede_stale now db))"
  unfolding supersede_stale_def Let_def snd_conv
proof (rule keeps_update_deliveries)
  fix d
  assume "d \<in> set (deliveries db)" "d_id d \<in> set (map d_id (stale_rows db))"
  moreover have "set (stale_rows db) \<subseteq> set (deliveries db)"
    using stale_rows_mem by blast
  ultimately have "d \<in> set (stale_rows db)"
    using keys_ok_member [OF assms] by blast
  then have "d_status d = Pending"
    using stale_rows_mem by blast
  then show "row_evolves d (superseded_row now d)"
    by (simp add: superseded_row_evolves)
qed

lemma clean_queues_keeps:
  assumes "db_ok db"
  shows "keeps db (clean_queues now pick db)"
proof -
  let ?db1 = "snd (expire_due_deliveries now 500 pick (reap now db))"
  let ?db2 = "cascade_all now (fst (expire_due_deliveries now 500 pick (reap now db))) ?db1"
  have "db_ok (reap now db)"
    using reap_keeps assms by (rule keeps_db_ok)
  then have 2: "keeps db ?db2"
    by (intro keeps_trans [OF keeps_trans [OF reap_keeps expire_due_keeps] cascade_all_keeps])
  then have "keys_ok ?db2"
    using assms keeps_db_ok by blast
  then show ?thesis
    using keeps_trans [OF keeps_trans [OF 2 supersede_stale_keeps] cascade_all_keeps]
    by (simp add: clean_queues_def case_prod_beta)
qed

interpretation queue_cleaning: delivery_operation "clean_queues now pick" for now pick
  by unfold_locales (rule clean_queues_keeps)

section \<open>What is claimed\<close>

lemma queue_mem: "e \<in> set (queue now dest rows) \<longleftrightarrow>
    e \<in> set rows \<and> d_destination_id e = dest \<and> deliverable now e"
  by (auto simp: queue_def)

lemma candidate_ready:
  assumes "candidate now locked db = Some d"
  shows "d \<in> set (destinations db)" "ready now (deliveries db) d" "\<not> locked (dest_id d)"
proof -
  let ?ds = "filter (\<lambda>d. ready now (deliveries db) d \<and> \<not> locked (dest_id d)) (destinations db)"
  obtain rest where "order_by (head_due_at now (deliveries db)) ?ds = d # rest"
    using assms by (auto simp: candidate_def split: list.splits)
  then have "d \<in> set (order_by (head_due_at now (deliveries db)) ?ds)" by simp
  then show "d \<in> set (destinations db)" "ready now (deliveries db) d" "\<not> locked (dest_id d)"
    by auto
qed

lemma picked_mem:
  assumes "picked now locked rows d = Some e"
  shows "e \<in> set (queue now (dest_id d) rows)" "relay_open rows e" "d_status e = Pending"
    "d_next_attempt_at e \<le> now" "d_not_before e = None \<or> null_le (d_not_before e) now"
    "d_confirmation_generation e = dest_confirmation_generation d" "\<not> locked (d_id e)"
proof -
  from assms obtain rest where
      f: "filter (\<lambda>e. relay_open rows e \<and> \<not> locked (d_id e)) (queue now (dest_id d) rows) = e # rest"
    and g: "d_status e = Pending \<and> d_next_attempt_at e \<le> now \<and>
       (d_not_before e = None \<or> null_le (d_not_before e) now) \<and>
       d_confirmation_generation e = dest_confirmation_generation d"
    by (auto simp: picked_def split: list.splits if_splits)
  have "e \<in> set (filter (\<lambda>e. relay_open rows e \<and> \<not> locked (d_id e)) (queue now (dest_id d) rows))"
    by (simp add: f)
  then show "e \<in> set (queue now (dest_id d) rows)" "relay_open rows e" "\<not> locked (d_id e)"
    by auto
  from g show "d_status e = Pending" "d_next_attempt_at e \<le> now"
    "d_not_before e = None \<or> null_le (d_not_before e) now"
    "d_confirmation_generation e = dest_confirmation_generation d"
    by auto
qed

lemma claim_head_Some:
  assumes "claim_head now s token ld lr db = (Some c, db')"
  obtains d e where "candidate now ld db = Some d" "picked now lr (deliveries db) d = Some e"
    "cl_row c = claim_row now s token e" "cl_url c = dest_url d"
    "deliveries db' = sql_update (\<lambda>x. d_id x = d_id e) (claim_row now s token) (deliveries db)"
    "destinations db' = (if recovers now d
       then sql_update (\<lambda>x. dest_id x = dest_id d) recovered_dest (destinations db) else destinations db)"
  using assms
  by (auto simp: claim_head_def update_delivery_row_def update_destination_row_def Let_def
      split: option.splits if_splits)

lemma claim_head_None: "claim_head now s token ld lr db = (None, db') \<Longrightarrow> db' = db"
  by (auto simp: claim_head_def Let_def split: option.splits)

text \<open>
  The guarantees of a claim, all taken from the statement: the copy was queued, its gate is open,
  its cutoff has not passed, it is due, the station before it has acknowledged; its destination
  is confirmed for this very location, receives, is not isolated (or is due a probe), and has
  nothing in flight.
\<close>

lemma claim_head_sound:
  assumes "claim_head now s token ld lr db = (Some c, db')"
  obtains d e where "d \<in> set (destinations db)" "e \<in> set (deliveries db)" "cl_row c = claim_row now s token e"
    "d_destination_id e = dest_id d" "d_status e = Pending" "gate_open (d_release_state e)"
    "d_deliver_by e = None \<or> null_gt (d_deliver_by e) now" "due_at e \<le> now"
    "relay_open (deliveries db) e" "dest_confirmation_state d = Confirmed"
    "d_confirmation_generation e = dest_confirmation_generation d" "\<not> paused now d"
    "dest_status d = Active \<or> recovers now d" "\<not> in_flight_to (dest_id d) (deliveries db)"
    "deliveries db' = sql_update (\<lambda>x. d_id x = d_id e) (claim_row now s token) (deliveries db)"
proof -
  from assms obtain d e where c: "candidate now ld db = Some d" and p: "picked now lr (deliveries db) d = Some e"
    and row: "cl_row c = claim_row now s token e"
    and db': "deliveries db' = sql_update (\<lambda>x. d_id x = d_id e) (claim_row now s token) (deliveries db)"
    by (rule claim_head_Some)
  note e = picked_mem [OF p]
  have due: "due_at e \<le> now"
    using e(4,5) by (cases "d_not_before e") (auto simp: due_at_def)
  have ready: "dest_confirmation_state d = Confirmed \<and> \<not> paused now d \<and>
      (dest_status d = Active \<or> recovers now d) \<and> \<not> in_flight_to (dest_id d) (deliveries db)"
    using candidate_ready(2) [OF c] by (auto simp: ready_def split: list.splits)
  show thesis
    by (rule that [OF candidate_ready(1) [OF c] _ row _ e(3) _ _ due e(2) _ e(6) _ _ _ db'])
      (use e(1) ready in \<open>auto simp: queue_mem deliverable_def gate_open_def\<close>)
qed

text \<open>With no row lock in the way the copy claimed is the oldest deliverable one of its queue.\<close>

lemma claim_head_fifo:
  assumes "claim_head now s token ld (\<lambda>_. False) db = (Some c, db')"
    and "x \<in> set (deliveries db)" "d_destination_id x = d_destination_id (cl_row c)" "deliverable now x"
  shows "d_destination_seq (cl_row c) \<le> d_destination_seq x"
proof -
  from assms(1) obtain d e where c: "candidate now ld db = Some d"
    and p: "picked now (\<lambda>_. False) (deliveries db) d = Some e" and row: "cl_row c = claim_row now s token e"
    by (rule claim_head_Some)
  from candidate_ready(2) [OF c] obtain oldest rest where
      q: "queue now (dest_id d) (deliveries db) = oldest # rest" and "relay_open (deliveries db) oldest"
    by (auto simp: ready_def split: list.splits)
  then have "e = oldest"
    using p by (auto simp: picked_def split: if_splits)
  moreover have "x \<in> set (filter (\<lambda>e. d_destination_id e = dest_id d \<and> deliverable now e) (deliveries db))"
    using assms(2-4) row picked_mem(1) [OF p] by (auto simp: queue_mem claim_row_def)
  then have "d_destination_seq oldest \<le> d_destination_seq x"
    by (rule order_by_head_le [OF q [unfolded queue_def]])
  ultimately show ?thesis by (simp add: row claim_row_def)
qed

section \<open>Claiming keeps the tables\<close>

lemma claim_row_claimed:
  assumes "d_status e = Pending" and "gate_open (d_release_state e)"
  shows "claimed_row e (claim_row now s token e)"
  using assms by (simp add: claimed_row_def claim_row_def same_snapshot_def counters_grow_def)

text \<open>A claim as a step: at most one row changes, from queued to in flight.\<close>

definition claims_row :: "database \<Rightarrow> delivery \<Rightarrow> (delivery \<Rightarrow> delivery) \<Rightarrow> bool" where
  "claims_row db e f \<longleftrightarrow> e \<in> set (deliveries db) \<and> claimed_row e (f e) \<and>
     relay_open (deliveries db) e \<and> \<not> in_flight_to (d_destination_id e) (deliveries db)"

definition claims :: "database \<Rightarrow> database \<Rightarrow> bool" where
  "claims db db' \<longleftrightarrow>
     (deliveries db' = deliveries db \<or>
      (\<exists>e f. claims_row db e f \<and> deliveries db' = sql_update (\<lambda>x. d_id x = d_id e) f (deliveries db))) \<and>
     (destinations_ok db \<longrightarrow> destinations_ok db')"

lemma claim_head_claims: "claims db (snd (claim_head now s token ld lr db))"
proof (cases "claim_head now s token ld lr db")
  case (Pair r db')
  show ?thesis
  proof (cases r)
    case None
    then show ?thesis
      using Pair claim_head_None [of now s token ld lr db db'] by (simp add: claims_def)
  next
    case (Some c)
    note run = Pair [unfolded Some]
    show ?thesis
    proof (rule claim_head_sound [OF run])
      fix d e
      assume "e \<in> set (deliveries db)" "d_status e = Pending" "gate_open (d_release_state e)"
        "relay_open (deliveries db) e" "d_destination_id e = dest_id d" "\<not> in_flight_to (dest_id d) (deliveries db)"
        and db': "deliveries db' = sql_update (\<lambda>x. d_id x = d_id e) (claim_row now s token) (deliveries db)"
      then have "claims_row db e (claim_row now s token)"
        by (simp add: claims_row_def claim_row_claimed)
      moreover have "destinations_ok db'" if "destinations_ok db"
      proof (rule claim_head_Some [OF run])
        fix d' e'
        assume "destinations db' = (if recovers now d'
            then sql_update (\<lambda>x. dest_id x = dest_id d') recovered_dest (destinations db) else destinations db)"
        with that show ?thesis
          by (auto simp: destinations_ok_def set_sql_update recovered_dest_def destination_check_def split: if_splits)
      qed
      ultimately show ?thesis
        using db' by (auto simp: claims_def Pair)
    qed
  qed
qed

lemma claimed_row_snapshot: "claimed_row d d' \<Longrightarrow> same_snapshot d d'"
  by (simp add: claimed_row_def)

lemma claims_rows:
  assumes "claims db db'" and "keys_ok db"
  shows "list_all2 (\<lambda>d d'. d' = d \<or> (claimed_row d d' \<and> relay_open (deliveries db) d))
    (deliveries db) (deliveries db')"
proof (cases "deliveries db' = deliveries db")
  case True
  then show ?thesis by (simp add: list_all2_same)
next
  case False
  with assms(1) obtain e f where e: "claims_row db e f"
    and db': "deliveries db' = sql_update (\<lambda>x. d_id x = d_id e) f (deliveries db)"
    by (auto simp: claims_def)
  have "x = e" if "x \<in> set (deliveries db)" "d_id x = d_id e" for x
    using that e assms(2) keys_ok_id unfolding claims_row_def by blast
  with e show ?thesis
    unfolding db' by (intro list_all2_sql_update) (auto simp: claims_row_def)
qed

lemma list_all2_in_right:
  assumes "list_all2 R xs ys" and "y \<in> set ys"
  shows "\<exists>x \<in> set xs. R x y"
  using assms by (induction rule: list_all2_induct) auto

lemma list_all2_in_left:
  assumes "list_all2 R xs ys" and "x \<in> set xs"
  shows "\<exists>y \<in> set ys. R x y"
  using assms by (induction rule: list_all2_induct) auto

lemma claims_db_ok:
  assumes "claims db db'" and "db_ok db"
  shows "db_ok db'"
proof -
  note rows = claims_rows [OF assms(1) db_ok_keys [OF assms(2)]]
  have "list_all2 same_snapshot (deliveries db) (deliveries db')"
    by (rule list_all2_mono [OF rows]) (auto intro: claimed_row_snapshot)
  then have "keys_ok db'"
    using assms(2) by (blast intro: keys_ok_rows)
  moreover have "copies_ok db'"
    unfolding copies_ok_def
  proof
    fix d'
    assume "d' \<in> set (deliveries db')"
    with rows obtain d where "d \<in> set (deliveries db)" "d' = d \<or> claimed_row d d'"
      by (blast dest: list_all2_in_right)
    with assms(2) show "row_ok d'"
      by (auto intro: claimed_row_ok row_ok_in)
  qed
  ultimately show ?thesis
    using assms by (simp add: claims_def db_ok_def)
qed

section \<open>One copy at a time\<close>

definition in_flight_count :: "uuid \<Rightarrow> delivery list \<Rightarrow> int" where
  "in_flight_count dest rows = count_rows (\<lambda>d. d_destination_id d = dest \<and> d_status d = In_flight) rows"

definition one_in_flight :: "database \<Rightarrow> bool" where
  "one_in_flight db \<longleftrightarrow> (\<forall>dest. in_flight_count dest (deliveries db) \<le> 1)"

lemma in_flight_count_evolves:
  assumes "evolves db db'"
  shows "in_flight_count dest (deliveries db') \<le> in_flight_count dest (deliveries db)"
proof -
  from assms obtain rows new where 1: "deliveries db' = rows @ new"
    "list_all2 row_evolves (deliveries db) rows" "list_all born new"
    by (auto simp: evolves_def)
  have "in_flight_count dest rows \<le> in_flight_count dest (deliveries db)"
    unfolding in_flight_count_def
  proof (rule count_rows_rel)
    show "list_all2 (\<lambda>x y. row_evolves y x) rows (deliveries db)"
      using 1(2) by (simp add: list_all2_conv_all_nth)
  qed (auto dest: row_evolves_in_flight row_evolves_snapshot simp: same_snapshot_def)
  moreover have "in_flight_count dest new = 0"
    unfolding in_flight_count_def using 1(3) by (intro count_rows_none) (auto simp: list_all_iff dest: born_not_sent)
  ultimately show ?thesis by (simp add: 1(1) in_flight_count_def)
qed

lemma one_in_flight_keeps: "keeps db db' \<Longrightarrow> one_in_flight db \<Longrightarrow> one_in_flight db'"
  unfolding keeps_def one_in_flight_def using in_flight_count_evolves order_trans by blast

lemma count_rows_one_update:
  assumes "distinct (map key rows)"
  shows "count_rows Q (sql_update (\<lambda>x. key x = i) f rows) \<le> count_rows Q rows + 1"
  using assms
proof (induction rows)
  case Nil
  then show ?case by simp
next
  case (Cons r rs)
  show ?case
  proof (cases "key r = i")
    case True
    from Cons.prems have "key r \<notin> key ` set rs" by simp
    with True have "\<And>x. x \<in> set rs \<Longrightarrow> key x \<noteq> i" by (metis imageI)
    then have "sql_update (\<lambda>x. key x = i) f rs = rs"
      by (rule sql_update_none)
    then show ?thesis by simp
  next
    case False
    with Cons show ?thesis by simp
  qed
qed

lemma one_in_flight_claims:
  assumes "claims db db'" and "keys_ok db" and "one_in_flight db"
  shows "one_in_flight db'"
proof (cases "deliveries db' = deliveries db")
  case True
  with assms(3) show ?thesis by (simp add: one_in_flight_def)
next
  case False
  with assms(1) obtain e f where e: "claims_row db e f"
    and db': "deliveries db' = sql_update (\<lambda>x. d_id x = d_id e) f (deliveries db)"
    by (auto simp: claims_def)
  note rows = claims_rows [OF assms(1,2)]
  show ?thesis
    unfolding one_in_flight_def
  proof
    fix dest
    show "in_flight_count dest (deliveries db') \<le> 1"
    proof (cases "dest = d_destination_id e")
      case True
      then have "in_flight_count dest (deliveries db) = 0"
        unfolding in_flight_count_def using e
        by (intro count_rows_none) (auto simp: claims_row_def in_flight_to_def)
      moreover have "in_flight_count dest (deliveries db') \<le> in_flight_count dest (deliveries db) + 1"
        unfolding in_flight_count_def db'
        by (rule count_rows_one_update) (use assms(2) in \<open>simp add: keys_ok_def\<close>)
      ultimately show ?thesis by simp
    next
      case False
      have "x = e" if "x \<in> set (deliveries db)" "d_id x = d_id e" for x
        using that e assms(2) keys_ok_id unfolding claims_row_def by blast
      then have "list_all2 (\<lambda>x y. d_destination_id y = dest \<and> d_status y = In_flight \<longrightarrow>
          d_destination_id x = dest \<and> d_status x = In_flight) (deliveries db) (deliveries db')"
        unfolding db' using False e
        by (intro list_all2_sql_update) (auto simp: claims_row_def claimed_row_def same_snapshot_def)
      then have "list_all2 (\<lambda>y x. d_destination_id y = dest \<and> d_status y = In_flight \<longrightarrow>
          d_destination_id x = dest \<and> d_status x = In_flight) (deliveries db') (deliveries db)"
        by (simp add: list_all2_conv_all_nth)
      then have "in_flight_count dest (deliveries db') \<le> in_flight_count dest (deliveries db)"
        unfolding in_flight_count_def by (rule count_rows_rel) simp
      with assms(3) show ?thesis
        by (auto simp: one_in_flight_def intro: order_trans)
    qed
  qed
qed

section \<open>The message\<close>

text \<open>
  What \<open>deliver\<close> posts. \<open>msg_payload\<close> is the field \<open>payload\<close> of the body; a field that the code
  adds only in a case is an option. The Idempotency-Key header is the dedupe key.
\<close>

record message =
  msg_url :: string
  msg_event_id :: "uuid option"
  msg_delivery_id :: uuid
  msg_event_type :: "string option"
  msg_destination_id :: uuid
  msg_destination_seq :: int
  msg_dedupe_key :: string
  msg_payload :: json
  msg_is_preview :: bool
  msg_preview_payload :: "json option"
  msg_consent_timeout :: "int option"
  msg_body_delivery_id :: "uuid option"
  msg_corrects_event_id :: "uuid option"
  msg_relay :: "(uuid \<times> int option) option"

text \<open>Python's \<open>value or {}\<close>: an empty object, array or string, zero, false and null are replaced.\<close>

fun falsy :: "json \<Rightarrow> bool" where
  "falsy JNull = True"
| "falsy (JBool b) = (\<not> b)"
| "falsy (JInt i) = (i = 0)"
| "falsy (JFloat x) = (x = Finite 0)"
| "falsy (JStr s) = (s = [])"
| "falsy (JArr xs) = (xs = [])"
| "falsy (JObj fs) = (fs = [])"

definition message_of :: "claim \<Rightarrow> message" where
  "message_of c =
    (let e = cl_row c; preview = (d_phase e = Preview) in
     \<lparr> msg_url = cl_url c, msg_event_id = d_event_id e, msg_delivery_id = d_id e,
       msg_event_type = d_event_type e, msg_destination_id = d_destination_id e,
       msg_destination_seq = d_destination_seq e, msg_dedupe_key = d_dedupe_key e,
       msg_payload = (if preview then JObj [] else d_payload e),
       msg_is_preview = preview,
       msg_preview_payload = (if preview
         then Some (if falsy (d_payload e) then JObj [] else d_payload e) else None),
       msg_consent_timeout = (if preview then d_consent_timeout_seconds e else None),
       msg_body_delivery_id = (if preview then d_body_delivery_id e else None),
       msg_corrects_event_id = cl_corrects c,
       msg_relay = map_option (\<lambda>chain. (chain, d_relay_station_no e)) (d_relay_chain_id e) \<rparr>)"

text \<open>The answer of the HTTP client: a response, or an exception with its text.\<close>

datatype http_answer = Response int string | Failed_call string

record send_result =
  res_started :: time
  res_finished :: time
  res_success :: bool
  res_status_code :: "int option"
  res_excerpt :: "string option"
  res_error :: "string option"

definition py_truncate :: "settings \<Rightarrow> string \<Rightarrow> string" where
  "py_truncate s text = take (max_response_body_bytes s) text"

fun send_result_of :: "settings \<Rightarrow> time \<Rightarrow> time \<Rightarrow> http_answer \<Rightarrow> send_result" where
  "send_result_of s started finished (Response code body) =
     (let ok = (200 \<le> code \<and> code < 300) in
      \<lparr> res_started = started, res_finished = finished, res_success = ok, res_status_code = Some code,
        res_excerpt = Some (py_truncate s body),
        res_error = (if ok then None else Some (''HTTP '' @ show_int code)) \<rparr>)"
| "send_result_of s started finished (Failed_call error) =
     \<lparr> res_started = started, res_finished = finished, res_success = False, res_status_code = None,
       res_excerpt = None, res_error = Some (py_truncate s error) \<rparr>"

section \<open>Statements of the result transaction\<close>

text \<open>\<open>min(maximum, base * 2 ** max(0, attempt - 1))\<close>, before the jitter is added.\<close>

definition backoff_base :: "time \<Rightarrow> time \<Rightarrow> int \<Rightarrow> time" where
  "backoff_base base maximum attempt = min maximum (base * 2 ^ nat (max 0 (attempt - 1)))"

definition backoff_delay :: "settings \<Rightarrow> time \<Rightarrow> int \<Rightarrow> time" where
  "backoff_delay s jitter attempt =
     backoff_base (retry_backoff_base_seconds s) (retry_backoff_max_seconds s) attempt + jitter"

definition sent_row :: "time \<Rightarrow> settings \<Rightarrow> delivery \<Rightarrow> delivery" where
  "sent_row now s d = (release_claim d)
     \<lparr> d_status := Delivered, d_last_error := None, d_updated_at := now, d_delivered_at := Some now,
       d_consecutive_failures := 0, d_reconcile_state := Awaiting,
       d_reconcile_deadline := Some (now + receipt_timeout_seconds s), d_reconciled_at := None,
       d_receipt_result := None, d_receipt_id := None \<rparr>"

definition failed_row :: "time \<Rightarrow> bool \<Rightarrow> time \<Rightarrow> string option \<Rightarrow> delivery \<Rightarrow> delivery" where
  "failed_row now dead next error d = (release_claim d)
     \<lparr> d_status := (if dead then Dead_lettered else Pending),
       d_consecutive_failures := d_consecutive_failures d + 1,
       d_last_error := (if dead then Some (''dead-lettered after '' @ show_int (d_consecutive_failures d + 1)
           @ '' consecutive delivery failures; last error: '' @ coalesce error ''(none)'') else error),
       d_next_attempt_at := next,
       d_dead_letter_reason := (if dead then Some Delivery_attempts_exhausted else d_dead_letter_reason d),
       d_dead_lettered_at := (if dead then Some now else d_dead_lettered_at d),
       d_updated_at := now \<rparr>"

definition failed_dest :: "settings \<Rightarrow> bool \<Rightarrow> time option \<Rightarrow> destination \<Rightarrow> destination" where
  "failed_dest s dead recoverable d =
    (let isolate = (failure_threshold s \<le> dest_failure_count d + 1) in d
     \<lparr> dest_failure_count := (if dead then 0 else dest_failure_count d + 1),
       dest_status := (if dead then Active else if isolate then Isolated else dest_status d),
       dest_recoverable_at := (if dead then None else if isolate then recoverable
                               else dest_recoverable_at d) \<rparr>)"

definition superseded_failed_row :: "time \<Rightarrow> string option \<Rightarrow> delivery \<Rightarrow> delivery" where
  "superseded_failed_row now error d = (release_claim d)
     \<lparr> d_status := Superseded,
       d_last_error := Some (''superseded after location change; last error: '' @ coalesce error ''(none)''),
       d_updated_at := now \<rparr>"

definition correction_failed_row :: "time \<Rightarrow> string option \<Rightarrow> delivery \<Rightarrow> delivery" where
  "correction_failed_row now error d = (release_claim d)
     \<lparr> d_status := Failed, d_last_error := error, d_updated_at := now \<rparr>"

definition audit_attempt :: "claim \<Rightarrow> send_result \<Rightarrow> bool \<Rightarrow> database \<Rightarrow> database" where
  "audit_attempt c r lost db = db\<lparr>delivery_attempts := delivery_attempts db @
     [\<lparr> a_delivery_id = d_id (cl_row c), a_event_id = d_event_id (cl_row c),
        a_destination_id = d_destination_id (cl_row c), a_attempt_no = d_attempts (cl_row c),
        a_started_at = res_started r, a_finished_at = res_finished r, a_success = res_success r,
        a_status_code = res_status_code r, a_error = res_error r, a_lost_lease = lost \<rparr>]\<rparr>"

section \<open>Writing a result\<close>

datatype worker_error = Stale_claim

definition cascade_if_relay :: "time \<Rightarrow> claim \<Rightarrow> database \<Rightarrow> database" where
  "cascade_if_relay now c db =
     (if d_relay_chain_id (cl_row c) \<noteq> None then cascade_after_stop now (d_id (cl_row c)) db else db)"

definition void_if_preview :: "time \<Rightarrow> claim \<Rightarrow> void_reason \<Rightarrow> database \<Rightarrow> database" where
  "void_if_preview now c reason db =
     (if d_phase (cl_row c) = Preview then void_body_after_preview_failure now (d_id (cl_row c)) reason db else db)"

text \<open>Each branch answers whether the copy missed its cutoff, or that the claim is stale.\<close>

definition preview_success :: "time \<Rightarrow> claim \<Rightarrow> send_result \<Rightarrow> database \<Rightarrow> worker_error + bool \<times> database" where
  "preview_success now c r db =
     (case mark_preview_delivered now (d_id (cl_row c)) (Some (res_finished r)) db of
        (True, db1) \<Rightarrow> Inr (False, db1)
      | (False, db1) \<Rightarrow>
          if map_option d_status (find_delivery db1 (d_id (cl_row c))) = Some Deadline_expired
          then Inr (True, cascade_if_relay now c db1) else Inl Stale_claim)"

definition body_success :: "time \<Rightarrow> settings \<Rightarrow> claim \<Rightarrow> send_result \<Rightarrow> database \<Rightarrow> worker_error + bool \<times> database" where
  "body_success now s c r db =
    (let i = d_id (cl_row c);
         hit = (\<lambda>d. owns i (d_claim_token (cl_row c)) d \<and>
                    (d_deliver_by d = None \<or> null_gt (d_deliver_by d) (res_finished r)))
     in if count_rows hit (deliveries db) = 1
        then Inr (False, reset_failures (d_destination_id (cl_row c)) (update_deliveries hit (sent_row now s) db))
        else (case expire_in_flight_delivery now i (Some (res_finished r)) db of
                (True, db1) \<Rightarrow> Inr (True, cascade_if_relay now c db1)
              | (False, _) \<Rightarrow> Inl Stale_claim))"

definition stale_generation :: "claim \<Rightarrow> database \<Rightarrow> bool" where
  "stale_generation c db = (case find_destination db (d_destination_id (cl_row c)) of None \<Rightarrow> True
     | Some d \<Rightarrow> dest_confirmation_generation d \<noteq> d_confirmation_generation (cl_row c))"

text \<open>\<open>UPDATE ... WHERE\<close> the claim is still ours; any other row count is a stale claim.\<close>

definition update_owned :: "claim \<Rightarrow> (delivery \<Rightarrow> delivery) \<Rightarrow> database \<Rightarrow> worker_error + database" where
  "update_owned c f db =
    (let mine = owns (d_id (cl_row c)) (d_claim_token (cl_row c))
     in if count_rows mine (deliveries db) = 1 then Inr (update_deliveries mine f db) else Inl Stale_claim)"

definition stale_failure :: "time \<Rightarrow> claim \<Rightarrow> send_result \<Rightarrow> database \<Rightarrow> worker_error + bool \<times> database" where
  "stale_failure now c r db =
     (case update_owned c (superseded_failed_row now (res_error r)) db of
        Inl err \<Rightarrow> Inl err
      | Inr db1 \<Rightarrow> Inr (False, cascade_if_relay now c (void_if_preview now c Void_preview_superseded db1)))"

definition correction_failure :: "time \<Rightarrow> claim \<Rightarrow> send_result \<Rightarrow> database \<Rightarrow> worker_error + bool \<times> database" where
  "correction_failure now c r db =
     (case update_owned c (correction_failed_row now (res_error r)) db of
        Inl err \<Rightarrow> Inl err | Inr db1 \<Rightarrow> Inr (False, db1))"

definition transport_failure ::
  "time \<Rightarrow> time \<Rightarrow> settings \<Rightarrow> time \<Rightarrow> claim \<Rightarrow> send_result \<Rightarrow> database \<Rightarrow> worker_error + bool \<times> database" where
  "transport_failure now clock s jitter c r db =
    (let e = cl_row c;
         dead = (max_delivery_attempts s \<le> d_consecutive_failures e + 1);
         recoverable = (if failure_threshold s \<le> d_attempts e then Some (clock + quarantine_seconds s) else None);
         next = clock + backoff_delay s jitter (d_attempts e)
     in case update_owned c (failed_row now dead next (res_error r)) db of
          Inl err \<Rightarrow> Inl err
        | Inr db1 \<Rightarrow>
            let db2 = update_destination_row (d_destination_id e) (failed_dest s dead recoverable) db1
            in Inr (False, if dead then cascade_if_relay now c (void_if_preview now c Void_preview_dead_lettered db2)
                           else db2))"

definition result_outcome ::
  "time \<Rightarrow> time \<Rightarrow> settings \<Rightarrow> time \<Rightarrow> claim \<Rightarrow> send_result \<Rightarrow> database \<Rightarrow> worker_error + bool \<times> database" where
  "result_outcome now clock s jitter c r db =
    (if res_success r
     then (if d_phase (cl_row c) = Preview then preview_success now c r db else body_success now s c r db)
     else if stale_generation c db then stale_failure now c r db
     else if cl_corrects c \<noteq> None then correction_failure now c r db
     else (case expire_in_flight_delivery now (d_id (cl_row c)) (Some (res_finished r)) db of
             (True, db1) \<Rightarrow> Inr (True, cascade_if_relay now c db1)
           | (False, _) \<Rightarrow> transport_failure now clock s jitter c r db))"

definition still_owns_lease :: "claim \<Rightarrow> database \<Rightarrow> bool" where
  "still_owns_lease c db \<longleftrightarrow>
     (\<exists>d \<in> set (deliveries db). owns (d_id (cl_row c)) (d_claim_token (cl_row c)) d)"

definition record_result ::
  "time \<Rightarrow> time \<Rightarrow> settings \<Rightarrow> time \<Rightarrow> claim \<Rightarrow> send_result \<Rightarrow> bool \<Rightarrow> database \<Rightarrow>
   worker_error + bool \<times> database" where
  "record_result now clock s jitter c r lost db =
    (if lost \<or> \<not> still_owns_lease c db
     then Inr (False, audit_attempt c r True db)
     else (case result_outcome now clock s jitter c r db of
             Inl err \<Rightarrow> Inl err
           | Inr (cutoff, db1) \<Rightarrow> Inr (cutoff, audit_attempt c r False db1)))"

section \<open>Writing a result keeps the tables\<close>

lemma sent_row_evolves:
  assumes "d_status d = In_flight" and "d_phase d = Body"
  shows "row_evolves d (sent_row now s d)"
  by (rule row_evolves_edge [OF lifecycle.handoff_body])
    (use assms in \<open>simp_all add: copy_of_def sent_row_def release_claim_def same_snapshot_def counters_grow_def\<close>)

lemma failed_row_evolves:
  assumes "d_status d = In_flight"
  shows "row_evolves d (failed_row now dead next error d)"
proof (cases dead)
  case True
  then show ?thesis
    by - (rule row_evolves_edge [OF lifecycle.park_transport],
      use assms in \<open>simp_all add: copy_of_def failed_row_def release_claim_def same_snapshot_def counters_grow_def\<close>)
next
  case False
  then show ?thesis
    by - (rule row_evolves_edge [OF lifecycle.back_to_queue],
      use assms in \<open>simp_all add: copy_of_def failed_row_def release_claim_def same_snapshot_def counters_grow_def\<close>)
qed

lemma superseded_failed_row_evolves:
  assumes "d_status d = In_flight"
  shows "row_evolves d (superseded_failed_row now error d)"
  by (rule row_evolves_edge [OF lifecycle.supersede])
    (use assms in \<open>simp_all add: copy_of_def superseded_failed_row_def release_claim_def same_snapshot_def counters_grow_def\<close>)

lemma correction_failed_row_evolves:
  assumes "d_status d = In_flight"
  shows "row_evolves d (correction_failed_row now error d)"
  by (rule row_evolves_edge [OF lifecycle.correction_failed])
    (use assms in \<open>simp_all add: copy_of_def correction_failed_row_def release_claim_def same_snapshot_def counters_grow_def\<close>)

text \<open>The claim describes the row it was taken from; snapshots never change, so it stays true.\<close>

definition claim_matches :: "claim \<Rightarrow> database \<Rightarrow> bool" where
  "claim_matches c db \<longleftrightarrow>
     (\<forall>d \<in> set (deliveries db). d_id d = d_id (cl_row c) \<longrightarrow> same_snapshot (cl_row c) d)"

lemma update_owned_keeps:
  assumes "update_owned c f db = Inr db'" and "\<And>d. d_status d = In_flight \<Longrightarrow> row_evolves d (f d)"
  shows "keeps db db'"
proof -
  have "db' = update_deliveries (owns (d_id (cl_row c)) (d_claim_token (cl_row c))) f db"
    using assms(1) by (simp add: update_owned_def Let_def split: if_splits)
  then show ?thesis
    using assms(2) by (auto simp: owns_def intro: keeps_update_deliveries)
qed

lemma cascade_if_relay_keeps: "keeps db (cascade_if_relay now c db)"
  by (simp add: cascade_if_relay_def cascade_after_stop_keeps)

lemma void_if_preview_keeps: "keeps db (void_if_preview now c reason db)"
  by (simp add: void_if_preview_def void_body_after_preview_failure_keeps)

lemma failed_dest_check: "destination_check d \<Longrightarrow> destination_check (failed_dest s dead recoverable d)"
  by (simp add: failed_dest_def destination_check_def Let_def)

lemma audit_attempt_keeps: "keeps db (audit_attempt c r lost db)"
  by (rule keeps_same) (simp_all add: audit_attempt_def)

lemma expire_then_cascade_keeps:
  assumes "db_ok db" and "expire_in_flight_delivery now i finished db = (b, db1)"
  shows "keeps db (cascade_if_relay now c db1)"
  using expire_in_flight_keeps [OF assms(1), of now i finished] assms(2)
  by (auto intro: keeps_trans cascade_if_relay_keeps)

lemma preview_success_keeps:
  assumes "preview_success now c r db = Inr (cutoff, db')" and "db_ok db" "claim_matches c db"
    and "d_phase (cl_row c) = Preview"
  shows "keeps db db'"
proof -
  obtain b db1 where m: "mark_preview_delivered now (d_id (cl_row c)) (Some (res_finished r)) db = (b, db1)"
    by fastforce
  have "keeps db (snd (mark_preview_delivered now (d_id (cl_row c)) (Some (res_finished r)) db))"
    using assms(2-4) by (intro mark_preview_delivered_keeps) (auto simp: claim_matches_def same_snapshot_def)
  then have "keeps db db1" by (simp add: m)
  with assms(1) show ?thesis
    by (cases b) (auto simp: preview_success_def m split: if_splits intro: keeps_trans cascade_if_relay_keeps)
qed

lemma body_success_keeps:
  assumes "body_success now s c r db = Inr (cutoff, db')" and "db_ok db" "claim_matches c db"
    and "d_phase (cl_row c) = Body"
  shows "keeps db db'"
proof -
  let ?hit = "\<lambda>d. owns (d_id (cl_row c)) (d_claim_token (cl_row c)) d \<and>
    (d_deliver_by d = None \<or> null_gt (d_deliver_by d) (res_finished r))"
  have "keeps db (update_deliveries ?hit (sent_row now s) db)"
    using assms(3,4)
    by (intro keeps_update_deliveries sent_row_evolves) (auto simp: owns_def claim_matches_def same_snapshot_def)
  then have "keeps db (reset_failures dest (update_deliveries ?hit (sent_row now s) db))" for dest
    by (rule keeps_trans [OF _ reset_failures_keeps])
  then show ?thesis
    using assms(1) expire_then_cascade_keeps [OF assms(2)]
    by (auto simp: body_success_def Let_def split: if_splits prod.splits bool.splits)
qed

lemma transport_failure_keeps:
  assumes "transport_failure now clock s jitter c r db = Inr (cutoff, db')"
  shows "keeps db db'"
proof -
  define dead where "dead = (max_delivery_attempts s \<le> d_consecutive_failures (cl_row c) + 1)"
  from assms obtain db1 rec nxt where
      1: "update_owned c (failed_row now dead nxt (res_error r)) db = Inr db1"
    and db': "db' = (if dead then cascade_if_relay now c (void_if_preview now c Void_preview_dead_lettered
          (update_destination_row (d_destination_id (cl_row c)) (failed_dest s dead rec) db1))
        else update_destination_row (d_destination_id (cl_row c)) (failed_dest s dead rec) db1)"
    unfolding transport_failure_def Let_def dead_def by (auto split: sum.splits)
  have "keeps db (update_destination_row (d_destination_id (cl_row c)) (failed_dest s dead rec) db1)"
    by (rule keeps_trans [OF update_owned_keeps [OF 1] keeps_update_destination])
      (simp_all add: failed_row_evolves failed_dest_check)
  then show ?thesis
    unfolding db'
    using keeps_trans [OF _ keeps_trans [OF void_if_preview_keeps cascade_if_relay_keeps]]
    by (cases dead) simp_all
qed

lemma stale_failure_keeps: "stale_failure now c r db = Inr (cutoff, db') \<Longrightarrow> keeps db db'"
  unfolding stale_failure_def
  by (auto split: sum.splits dest!: update_owned_keeps intro: superseded_failed_row_evolves
      keeps_trans [OF _ keeps_trans [OF void_if_preview_keeps cascade_if_relay_keeps]])

lemma correction_failure_keeps: "correction_failure now c r db = Inr (cutoff, db') \<Longrightarrow> keeps db db'"
  unfolding correction_failure_def
  by (auto split: sum.splits dest!: update_owned_keeps intro: correction_failed_row_evolves)

lemma result_outcome_keeps:
  assumes "result_outcome now clock s jitter c r db = Inr (cutoff, db')"
    and "db_ok db" "claim_matches c db"
  shows "keeps db db'"
proof (cases "res_success r")
  case True
  then show ?thesis
    using assms(1) preview_success_keeps [OF _ assms(2,3)] body_success_keeps [OF _ assms(2,3)]
    by (cases "d_phase (cl_row c)") (auto simp: result_outcome_def)
next
  case False
  then show ?thesis
    using assms(1) stale_failure_keeps [of now c r db] correction_failure_keeps [of now c r db]
      expire_then_cascade_keeps [OF assms(2)] transport_failure_keeps [of now clock s jitter c r db]
    by (auto simp: result_outcome_def split: if_splits prod.splits bool.splits)
qed

lemma record_result_keeps:
  assumes "record_result now clock s jitter c r lost db = Inr (cutoff, db')"
    and "db_ok db" "claim_matches c db"
  shows "keeps db db'"
proof (cases "lost \<or> \<not> still_owns_lease c db")
  case True
  with assms(1) show ?thesis by (auto simp: record_result_def audit_attempt_keeps)
next
  case False
  with assms(1) obtain db1 where 1: "result_outcome now clock s jitter c r db = Inr (cutoff, db1)"
    and db': "db' = audit_attempt c r False db1"
    by (auto simp: record_result_def split: sum.splits)
  show ?thesis
    unfolding db' by (rule keeps_trans [OF result_outcome_keeps [OF 1 assms(2,3)] audit_attempt_keeps])
qed

section \<open>Probing a destination\<close>

definition confirmation_backoff_delay :: "settings \<Rightarrow> time \<Rightarrow> int \<Rightarrow> time" where
  "confirmation_backoff_delay s jitter count =
     backoff_base (confirm_backoff_base_seconds s) (confirm_backoff_max_seconds s) count + jitter"

record probe =
  pr_destination :: uuid
  pr_url :: string
  pr_challenge :: "string option"
  pr_round :: int

definition due_probe :: "time \<Rightarrow> database \<Rightarrow> destination option" where
  "due_probe now db = (case order_by dest_next_probe_at
       (filter (\<lambda>d. dest_confirmation_state d = Conf_pending \<and> dest_next_probe_at d \<le> now) (destinations db))
     of [] \<Rightarrow> None | d # _ \<Rightarrow> Some d)"

definition claim_probe ::
  "time \<Rightarrow> settings \<Rightarrow> (uuid \<Rightarrow> string) \<Rightarrow> time \<Rightarrow> database \<Rightarrow> probe option \<times> database" where
  "claim_probe now s token jitter db =
    (let db1 = snd (expire_due_rounds now s token 50 db)
     in case due_probe now db1 of
          None \<Rightarrow> (None, db1)
        | Some d \<Rightarrow>
            let n = dest_confirmation_attempt_count d + 1
            in (Some \<lparr>pr_destination = dest_id d, pr_url = dest_url d,
                      pr_challenge = dest_challenge_token d, pr_round = dest_confirmation_round d\<rparr>,
                update_destination_row (dest_id d)
                  (\<lambda>d. d\<lparr>dest_confirmation_attempt_count := n,
                         dest_next_probe_at := now + confirmation_backoff_delay s jitter n\<rparr>) db1))"

text \<open>
  The echo in the body of a probe's answer, parsed as JSON when it is JSON: the member \<open>echo\<close>,
  or \<open>challenge\<close> when \<open>echo\<close> is missing or falsy.
\<close>

definition member :: "string \<Rightarrow> (string \<times> json) list \<Rightarrow> json" where
  "member k fs = (case map_of fs k of None \<Rightarrow> JNull | Some v \<Rightarrow> v)"

definition probe_echo :: "json option \<Rightarrow> json" where
  "probe_echo body = (case body of
      Some (JObj fs) \<Rightarrow> (if falsy (member ''echo'' fs) then member ''challenge'' fs else member ''echo'' fs)
    | _ \<Rightarrow> JNull)"

definition echo_text :: "json \<Rightarrow> string option" where
  "echo_text v = (case v of JStr t \<Rightarrow> (if t = [] then None else Some t) | _ \<Rightarrow> None)"

definition record_probe ::
  "time \<Rightarrow> settings \<Rightarrow> string \<Rightarrow> probe \<Rightarrow> bool \<Rightarrow> json option \<Rightarrow> database \<Rightarrow>
   api_error + echo_disposition option \<times> database" where
  "record_probe now s token p success body db =
    (let db1 = log_confirmation_attempt (pr_destination p) (pr_round p) Kind_challenge
                 (if success then Result_sent else Result_failed) db
     in case (if success then echo_text (probe_echo body) else None) of
          None \<Rightarrow> Inr (None, db1)
        | Some echo \<Rightarrow>
            (case apply_echo now s token (pr_destination p) echo db1 of
               Inl err \<Rightarrow> Inl err
             | Inr ((disposition, _), db2) \<Rightarrow> Inr (Some disposition, db2)))"

lemma claim_probe_keeps:
  assumes "db_ok db"
  shows "keeps db (snd (claim_probe now s token jitter db))"
proof -
  let ?db1 = "snd (expire_due_rounds now s token 50 db)"
  have ok: "destinations_ok ?db1"
    using expire_due_rounds_keeps assms by (rule db_ok_destinations [OF keeps_db_ok])
  have "keeps ?db1 (update_destination_row (dest_id d)
      (\<lambda>x. x\<lparr>dest_confirmation_attempt_count := dest_confirmation_attempt_count d + 1,
        dest_next_probe_at := t\<rparr>) ?db1)" if "due_probe now ?db1 = Some d" for d t
  proof (rule keeps_update_destination)
    have "d \<in> set (order_by dest_next_probe_at (filter (\<lambda>d. dest_confirmation_state d = Conf_pending \<and>
        dest_next_probe_at d \<le> now) (destinations ?db1)))"
      using that unfolding due_probe_def by (auto split: list.splits simp del: set_order_by)
    with ok have "0 \<le> dest_confirmation_attempt_count d"
      by (auto simp: destinations_ok_def destination_check_def)
    then show "destination_check (x\<lparr>dest_confirmation_attempt_count := dest_confirmation_attempt_count d + 1,
        dest_next_probe_at := t\<rparr>)" if "destination_check x" for x
      using that by (simp add: destination_check_def)
  qed
  then have "keeps ?db1 (snd (claim_probe now s token jitter db))"
    by (auto simp: claim_probe_def Let_def split: option.split)
  then show ?thesis by (rule keeps_trans [OF expire_due_rounds_keeps])
qed

interpretation probe: delivery_operation "\<lambda>db. snd (claim_probe now s token jitter db)" for now s token jitter
  by unfold_locales (rule claim_probe_keeps)

lemma record_probe_keeps:
  assumes "record_probe now s token p success body db = Inr (r, db')"
  shows "keeps db db'"
proof -
  let ?db1 = "log_confirmation_attempt (pr_destination p) (pr_round p) Kind_challenge
    (if success then Result_sent else Result_failed) db"
  have "keeps ?db1 db'"
    using assms by (auto simp: record_probe_def Let_def split: option.splits sum.splits prod.splits if_splits
        intro: apply_echo_keeps)
  then show ?thesis by (rule keeps_trans [OF log_confirmation_attempt_keeps])
qed

interpretation probe_answer: delivery_operation "\<lambda>db. committed (record_probe now s token p success body db) db"
  for now s token p success body
  by unfold_locales (auto intro!: keeps_committed intro: record_probe_keeps)

section \<open>Bounds of the backoff\<close>

lemma backoff_base_le: "backoff_base base maximum attempt \<le> maximum"
  by (simp add: backoff_base_def)

lemma backoff_base_ge: "0 \<le> base \<Longrightarrow> base \<le> maximum \<Longrightarrow> base \<le> backoff_base base maximum attempt"
proof -
  assume "0 \<le> base" "base \<le> maximum"
  moreover from \<open>0 \<le> base\<close> have "base * 1 \<le> base * 2 ^ n" for n
    by (intro mult_left_mono) simp_all
  ultimately show ?thesis by (simp add: backoff_base_def)
qed

lemma backoff_base_mono:
  assumes "0 \<le> base" and "a \<le> b"
  shows "backoff_base base maximum a \<le> backoff_base base maximum b"
proof -
  have "(2::int) ^ nat (max 0 (a - 1)) \<le> 2 ^ nat (max 0 (b - 1))"
    using assms(2) by (intro power_increasing) (simp_all add: nat_mono)
  then have "base * 2 ^ nat (max 0 (a - 1)) \<le> base * 2 ^ nat (max 0 (b - 1))"
    using assms(1) by (intro mult_left_mono)
  then show ?thesis by (simp add: backoff_base_def min_le_iff_disj)
qed

section \<open>What a result does\<close>

text \<open>A worker that lost its lease only leaves an audit row.\<close>

lemma record_result_lost:
  assumes "lost \<or> \<not> still_owns_lease c db"
  shows "record_result now clock s jitter c r lost db = Inr (False, audit_attempt c r True db)"
    "deliveries (audit_attempt c r True db) = deliveries db"
    "destinations (audit_attempt c r True db) = destinations db"
  using assms by (auto simp: record_result_def audit_attempt_def)

text \<open>The row a claim still owns is the only one, and it is the claimed copy.\<close>

lemma owned_unique:
  assumes "keys_ok db" and "still_owns_lease c db"
  shows "\<exists>d \<in> set (deliveries db). owns (d_id (cl_row c)) (d_claim_token (cl_row c)) d \<and>
    (\<forall>x \<in> set (deliveries db). d_id x = d_id (cl_row c) \<longrightarrow> x = d)"
proof -
  from assms(2) obtain d where d: "d \<in> set (deliveries db)" "owns (d_id (cl_row c)) (d_claim_token (cl_row c)) d"
    by (auto simp: still_owns_lease_def)
  have "x = d" if "x \<in> set (deliveries db)" "d_id x = d_id (cl_row c)" for x
    using that d keys_ok_id [OF assms(1) that(1) d(1)] by (simp add: owns_def)
  with d show ?thesis by blast
qed

lemma count_rows_single:
  assumes "distinct (map key rows)" and "d \<in> set rows" "P d" and "\<And>x. x \<in> set rows \<Longrightarrow> P x \<Longrightarrow> x = d"
  shows "count_rows P rows = 1"
  using assms
proof (induction rows)
  case Nil
  then show ?case by simp
next
  case (Cons r rs)
  show ?case
  proof (cases "r = d")
    case True
    have "\<not> P x" if "x \<in> set rs" for x
    proof
      assume "P x"
      with Cons.prems(4) that True have "key x = key r" by auto
      moreover from Cons.prems(1) have "key r \<notin> key ` set rs" by simp
      ultimately show False using that by (metis imageI)
    qed
    then have "count_rows P rs = 0" by (rule count_rows_none)
    with True Cons.prems(3) show ?thesis by simp
  next
    case False
    then have "\<not> P r" using Cons.prems(4) [of r] by auto
    moreover have "count_rows P rs = 1"
    proof (rule Cons.IH)
      show "distinct (map key rs)" using Cons.prems(1) by simp
      show "d \<in> set rs" using Cons.prems(2) False by simp
      show "x = d" if "x \<in> set rs" "P x" for x using Cons.prems(4) [of x] that by simp
    qed (rule Cons.prems(3))
    ultimately show ?thesis by simp
  qed
qed

lemma owned_count:
  assumes "keys_ok db" and "still_owns_lease c db"
  shows "count_rows (owns (d_id (cl_row c)) (d_claim_token (cl_row c))) (deliveries db) = 1"
proof -
  let ?mine = "owns (d_id (cl_row c)) (d_claim_token (cl_row c))"
  obtain d where d: "d \<in> set (deliveries db)" "?mine d"
    and uniq: "\<forall>x \<in> set (deliveries db). d_id x = d_id (cl_row c) \<longrightarrow> x = d"
    using owned_unique [OF assms] by blast
  show ?thesis
  proof (rule count_rows_single)
    show "distinct (map d_id (deliveries db))" using assms(1) by (simp add: keys_ok_def)
    show "x = d" if "x \<in> set (deliveries db)" "?mine x" for x
      using uniq that unfolding owns_def by blast
  qed (rule d)+
qed

lemma update_owned_result:
  assumes "keys_ok db" and "still_owns_lease c db"
  shows "update_owned c f db = Inr (update_deliveries (owns (d_id (cl_row c)) (d_claim_token (cl_row c))) f db)"
  by (simp add: update_owned_def owned_count [OF assms])

text \<open>A correction that fails ends there: no destination is charged, no other copy is touched.\<close>

lemma correction_failure_isolated:
  assumes "keys_ok db" and "still_owns_lease c db" and "\<not> res_success r" "\<not> stale_generation c db"
    and "cl_corrects c \<noteq> None"
  shows "\<exists>db'. record_result now clock s jitter c r False db = Inr (False, db') \<and>
    destinations db' = destinations db \<and>
    deliveries db' = map (\<lambda>d. if owns (d_id (cl_row c)) (d_claim_token (cl_row c)) d
      then correction_failed_row now (res_error r) d else d) (deliveries db)"
  using assms update_owned_result [OF assms(1,2)]
  by (simp add: record_result_def result_outcome_def correction_failure_def audit_attempt_def
      sql_update_def update_deliveries_def)

text \<open>A 2xx that came in time: the copy is handed off and its receipt window opens.\<close>

lemma find_destination_simps [simp]:
  "find_destination (update_deliveries P f db) i = find_destination db i"
  "find_destination (audit_attempt c r lost db) i = find_destination db i"
  "find_delivery (audit_attempt c r lost db) i = find_delivery db i"
  by (simp_all add: find_destination_def find_delivery_def audit_attempt_def)

lemma find_delivery_destination_row [simp]:
  "find_delivery (update_destination_row i f db) j = find_delivery db j"
  by (simp add: find_delivery_def)

lemma record_result_handoff:
  assumes "keys_ok db" and "still_owns_lease c db" and "res_success r" "d_phase (cl_row c) = Body"
    and "find_delivery db (d_id (cl_row c)) = Some d"
    and "d_deliver_by d = None \<or> null_gt (d_deliver_by d) (res_finished r)"
  shows "\<exists>db'. record_result now clock s jitter c r False db = Inr (False, db') \<and>
    find_delivery db' (d_id (cl_row c)) = Some (sent_row now s d) \<and>
    find_destination db' (d_destination_id (cl_row c))
      = map_option (\<lambda>x. x\<lparr>dest_failure_count := 0\<rparr>) (find_destination db (d_destination_id (cl_row c)))"
proof -
  let ?hit = "\<lambda>d. owns (d_id (cl_row c)) (d_claim_token (cl_row c)) d \<and>
    (d_deliver_by d = None \<or> null_gt (d_deliver_by d) (res_finished r))"
  obtain x where x: "x \<in> set (deliveries db)" "owns (d_id (cl_row c)) (d_claim_token (cl_row c)) x"
    and uniq: "\<forall>y \<in> set (deliveries db). d_id y = d_id (cl_row c) \<longrightarrow> y = x"
    using owned_unique [OF assms(1,2)] by blast
  have "x = d"
    using uniq find_delivery_key [OF assms(5)] by blast
  with x assms(6) have hit: "?hit d" by simp
  have "count_rows ?hit (deliveries db) = 1"
  proof (rule count_rows_single [where d = d])
    show "distinct (map d_id (deliveries db))" using assms(1) by (simp add: keys_ok_def)
    show "d \<in> set (deliveries db)" using x \<open>x = d\<close> by simp
    show "?hit d" by (rule hit)
    show "y = d" if "y \<in> set (deliveries db)" "?hit y" for y
      using uniq that \<open>x = d\<close> unfolding owns_def by blast
  qed
  then have "body_success now s c r db = Inr (False, reset_failures (d_destination_id (cl_row c))
      (update_deliveries ?hit (sent_row now s) db))"
    by (simp add: body_success_def)
  moreover have "find_delivery (update_deliveries ?hit (sent_row now s) db) (d_id (cl_row c)) = Some (sent_row now s d)"
    using hit assms(5) by (subst find_delivery_update) (simp_all add: sent_row_def)
  ultimately show ?thesis
    using assms(2-4)
    by (simp add: record_result_def result_outcome_def reset_failures_def find_destination_row_update)
qed

text \<open>
  A failed attempt of an ordinary copy: the copy's own streak decides between retry and the
  dead-letter area, the destination's tally decides isolation, and a parked copy frees its
  destination.
\<close>

lemma transport_failure_result:
  assumes "keys_ok db" and "still_owns_lease c db" and "find_delivery db (d_id (cl_row c)) = Some d"
    and "d_relay_chain_id (cl_row c) = None" and "d_phase (cl_row c) = Body"
    and "find_destination db (d_destination_id (cl_row c)) = Some t"
    and dead: "dead = (max_delivery_attempts s \<le> d_consecutive_failures (cl_row c) + 1)"
    and rec: "recoverable = (if failure_threshold s \<le> d_attempts (cl_row c) then Some (clock + quarantine_seconds s) else None)"
  shows "\<exists>db'. transport_failure now clock s jitter c r db = Inr (False, db') \<and>
    find_delivery db' (d_id (cl_row c))
      = Some (failed_row now dead (clock + backoff_delay s jitter (d_attempts (cl_row c))) (res_error r) d) \<and>
    find_destination db' (d_destination_id (cl_row c)) = Some (failed_dest s dead recoverable t)"
proof -
  let ?mine = "owns (d_id (cl_row c)) (d_claim_token (cl_row c))"
  let ?f = "failed_row now dead (clock + backoff_delay s jitter (d_attempts (cl_row c))) (res_error r)"
  obtain x where x: "?mine x" and uniq: "\<forall>y \<in> set (deliveries db). d_id y = d_id (cl_row c) \<longrightarrow> y = x"
    using owned_unique [OF assms(1,2)] by blast
  have "x = d"
    using uniq find_delivery_key [OF assms(3)] by blast
  have "find_delivery (update_deliveries ?mine ?f db) (d_id (cl_row c)) = Some (?f d)"
    using x \<open>x = d\<close> assms(3) by (subst find_delivery_update) (simp_all add: failed_row_def)
  then show ?thesis
    using assms(4-6) update_owned_result [OF assms(1,2)]
    by (cases dead) (simp_all add: transport_failure_def Let_def dead [symmetric] rec [symmetric] cascade_if_relay_def
        void_if_preview_def find_destination_row_update failed_dest_def)
qed

lemma failed_dest_isolated:
  assumes "\<not> dead" and "failure_threshold s \<le> dest_failure_count t + 1"
  shows "dest_status (failed_dest s dead recoverable t) = Isolated"
    "dest_recoverable_at (failed_dest s dead recoverable t) = recoverable"
  using assms by (simp_all add: failed_dest_def Let_def)

text \<open>An isolated destination without a recovery time never becomes a candidate.\<close>

lemma isolated_forever:
  assumes "dest_status t = Isolated" and "dest_recoverable_at t = None"
  shows "\<not> ready now rows t"
  using assms by (simp add: ready_def recovers_def split: list.split)

end
