(* ===== verification/Event_Status.thy ===== *)
theory Event_Status
  imports Worker
begin

text \<open>
  The standing of a whole event in app/main.py: the counts of \<open>EVENT_WITH_COUNTS_SQL\<close> over the
  event's copies, and the transport status, reconciliation status and quorum that
  \<open>event_response\<close> derives from them.
\<close>

section \<open>Counts\<close>

record counts =
  n_delivery :: int
  n_delivered :: int
  n_pending :: int
  n_acknowledged :: int
  n_superseded :: int
  n_dead_lettered :: int
  n_deadline_expired :: int
  n_failed :: int
  n_relay_skipped :: int
  n_relay_stopped :: int
  n_bodies_waiting :: int
  n_bodies_released :: int
  n_bodies_denied :: int
  n_bodies_expired :: int
  n_bodies_voided :: int
  n_previews_delivered :: int
  n_shadow_delivery :: int
  n_shadow_delivered :: int
  n_shadow_pending :: int
  n_shadow_acknowledged :: int
  n_shadow_superseded :: int
  n_shadow_dead_lettered :: int
  n_shadow_deadline_expired :: int
  n_shadow_failed :: int
  n_shadow_bodies_waiting :: int
  n_shadow_bodies_released :: int
  n_shadow_bodies_closed :: int
  n_shadow_previews_delivered :: int
  n_filtered_out :: int
  n_shadow_filtered_out :: int

definition copies_of :: "database \<Rightarrow> uuid \<Rightarrow> delivery list" where
  "copies_of db event = filter (\<lambda>d. d_event_id d = Some event) (deliveries db)"

definition real_body :: "delivery \<Rightarrow> bool" where
  "real_body d \<longleftrightarrow> \<not> d_observe_only d \<and> d_phase d = Body"

definition shadow_body :: "delivery \<Rightarrow> bool" where
  "shadow_body d \<longleftrightarrow> d_observe_only d \<and> d_phase d = Body"

definition queued_status :: "delivery \<Rightarrow> bool" where
  "queued_status d \<longleftrightarrow> d_status d = Pending \<or> d_status d = In_flight"

definition withheld :: "database \<Rightarrow> uuid \<Rightarrow> bool \<Rightarrow> int" where
  "withheld db event shadow = count_rows
     (\<lambda>f. \<not> fe_matched f \<and> fe_event_id f = event \<and> fe_observe_only f = shadow)
     (subscription_filter_evaluations db)"

definition event_counts :: "database \<Rightarrow> uuid \<Rightarrow> counts" where
  "event_counts db event =
    (let rows = copies_of db event;
         real = (\<lambda>P. count_rows (\<lambda>d. real_body d \<and> P d) rows);
         shadow = (\<lambda>P. count_rows (\<lambda>d. shadow_body d \<and> P d) rows)
     in \<lparr> n_delivery = real (\<lambda>d. True),
          n_delivered = real (\<lambda>d. d_status d = Delivered),
          n_pending = real queued_status,
          n_acknowledged = real (\<lambda>d. d_reconcile_state d = Acknowledged),
          n_superseded = real (\<lambda>d. d_status d = Superseded),
          n_dead_lettered = real (\<lambda>d. d_status d = Dead_lettered),
          n_deadline_expired = real (\<lambda>d. d_status d = Deadline_expired),
          n_failed = real (\<lambda>d. d_status d = Failed),
          n_relay_skipped = real (\<lambda>d. d_status d = Relay_skipped),
          n_relay_stopped = count_rows (\<lambda>d. d_relay_chain_id d \<noteq> None \<and> stop_state d) rows,
          n_bodies_waiting = real (\<lambda>d. d_release_state d = Some Held),
          n_bodies_released = real (\<lambda>d. d_release_state d = Some Released),
          n_bodies_denied = real (\<lambda>d. d_status d = Release_denied),
          n_bodies_expired = real (\<lambda>d. d_status d = Release_expired),
          n_bodies_voided = real (\<lambda>d. d_status d = Release_voided),
          n_previews_delivered = count_rows
            (\<lambda>d. \<not> d_observe_only d \<and> d_phase d = Preview \<and> d_status d = Delivered) rows,
          n_shadow_delivery = shadow (\<lambda>d. True),
          n_shadow_delivered = shadow (\<lambda>d. d_status d = Delivered),
          n_shadow_pending = shadow queued_status,
          n_shadow_acknowledged = shadow (\<lambda>d. d_reconcile_state d = Acknowledged),
          n_shadow_superseded = shadow (\<lambda>d. d_status d = Superseded),
          n_shadow_dead_lettered = shadow (\<lambda>d. d_status d = Dead_lettered),
          n_shadow_deadline_expired = shadow (\<lambda>d. d_status d = Deadline_expired),
          n_shadow_failed = shadow (\<lambda>d. d_status d = Failed),
          n_shadow_bodies_waiting = shadow (\<lambda>d. d_release_state d = Some Held),
          n_shadow_bodies_released = shadow (\<lambda>d. d_release_state d = Some Released),
          n_shadow_bodies_closed = shadow
            (\<lambda>d. d_status d = Release_denied \<or> d_status d = Release_expired \<or> d_status d = Release_voided),
          n_shadow_previews_delivered = count_rows
            (\<lambda>d. d_observe_only d \<and> d_phase d = Preview \<and> d_status d = Delivered) rows,
          n_filtered_out = withheld db event False,
          n_shadow_filtered_out = withheld db event True \<rparr>)"

section \<open>Status of an event\<close>

datatype event_state =
  Ev_cancelled | Ev_relay_halted | Ev_superseded | Ev_release_closed | Ev_deadline_expired | Ev_filtered
| Ev_unrouted | Ev_pending | Ev_dead_lettered | Ev_failed | Ev_delivered

definition release_closed_count :: "counts \<Rightarrow> int" where
  "release_closed_count n = n_bodies_denied n + n_bodies_expired n + n_bodies_voided n"

definition live_count :: "counts \<Rightarrow> int" where
  "live_count n = n_delivery n - n_superseded n - release_closed_count n - n_relay_skipped n
     - n_deadline_expired n"

definition shadow_live_count :: "counts \<Rightarrow> int" where
  "shadow_live_count n = n_shadow_delivery n - n_shadow_superseded n - n_shadow_bodies_closed n
     - n_shadow_deadline_expired n"

definition relay_halted :: "counts \<Rightarrow> bool" where
  "relay_halted n \<longleftrightarrow> n_relay_stopped n \<noteq> 0 \<and> n_acknowledged n < n_delivery n"

text \<open>The branch of \<open>event_status\<close> for an event with no live for-real copy.\<close>

definition shadow_status :: "counts \<Rightarrow> event_state" where
  "shadow_status n =
    (if shadow_live_count n = 0 then
       (if n_superseded n > 0 \<or> n_shadow_superseded n > 0 then Ev_superseded
        else if release_closed_count n > 0 then Ev_release_closed
        else if n_deadline_expired n > 0 then Ev_deadline_expired
        else if n_filtered_out n > 0 then Ev_filtered
        else Ev_unrouted)
     else if n_shadow_pending n > 0 then Ev_pending
     else if n_shadow_deadline_expired n > 0 \<and> n_shadow_delivered n = 0 then Ev_deadline_expired
     else if n_shadow_dead_lettered n > 0 \<and> n_shadow_delivered n = 0 then Ev_dead_lettered
     else if n_shadow_failed n > 0 \<and> n_shadow_delivered n = 0 then Ev_failed
     else if n_shadow_delivered n \<ge> shadow_live_count n then Ev_delivered
     else Ev_pending)"

definition event_status :: "time option \<Rightarrow> bool \<Rightarrow> counts \<Rightarrow> event_state" where
  "event_status cancelled_at halted n =
    (if cancelled_at \<noteq> None then Ev_cancelled
     else if halted \<and> live_count n = 0 then Ev_relay_halted
     else if live_count n = 0 then shadow_status n
     else if halted then Ev_relay_halted
     else if n_pending n > 0 then Ev_pending
     else if n_deadline_expired n > 0 then Ev_deadline_expired
     else if n_dead_lettered n > 0 then Ev_dead_lettered
     else if n_failed n > 0 then Ev_failed
     else if n_delivered n \<ge> live_count n then Ev_delivered
     else Ev_pending)"

datatype reconcile_status = Rs_pending | Rs_partially_acknowledged | Rs_acknowledged

definition event_reconcile_status :: "int \<Rightarrow> int \<Rightarrow> int option \<Rightarrow> reconcile_status" where
  "event_reconcile_status live acknowledged required =
    (let r = coalesce required live in
     if r > 0 \<and> acknowledged \<ge> r then Rs_acknowledged
     else if acknowledged > 0 then Rs_partially_acknowledged
     else Rs_pending)"

record event_view =
  v_status :: event_state
  v_reconcile_status :: reconcile_status
  v_delivery_count :: int
  v_required_ack_count :: int
  v_acknowledged_quorum :: bool
  v_unacknowledged_count :: int
  v_shadow_unacknowledged_count :: int

definition event_response :: "event \<Rightarrow> counts \<Rightarrow> event_view" where
  "event_response e n =
    (let live = live_count n;
         required = min (coalesce (e_required_ack_count e) live) live
     in \<lparr> v_status = event_status (e_cancelled_at e) (relay_halted n) n,
          v_reconcile_status = event_reconcile_status live (n_acknowledged n) (Some required),
          v_delivery_count = live,
          v_required_ack_count = required,
          v_acknowledged_quorum = (required > 0 \<and> n_acknowledged n \<ge> required),
          v_unacknowledged_count = live - n_acknowledged n,
          v_shadow_unacknowledged_count = shadow_live_count n - n_shadow_acknowledged n \<rparr>)"

definition view_event :: "database \<Rightarrow> uuid \<Rightarrow> event_view option" where
  "view_event db i = map_option (\<lambda>e. event_response e (event_counts db i)) (find_event db i)"

section \<open>What the counts say\<close>

text \<open>A copy counts as live unless it ended without ever having been meant to arrive.\<close>

definition live_status :: "delivery_status \<Rightarrow> bool" where
  "live_status st \<longleftrightarrow> st \<notin> {Superseded, Release_denied, Release_expired, Release_voided,
     Relay_skipped, Deadline_expired}"

definition live_copies :: "database \<Rightarrow> uuid \<Rightarrow> delivery list" where
  "live_copies db event = filter (\<lambda>d. real_body d \<and> live_status (d_status d)) (copies_of db event)"

lemma live_count_rows:
  "live_count (event_counts db event) = int (length (live_copies db event))"
proof -
  have "count_rows (\<lambda>d. real_body d \<and> True) rows - count_rows (\<lambda>d. real_body d \<and> d_status d = Superseded) rows
    - (count_rows (\<lambda>d. real_body d \<and> d_status d = Release_denied) rows
       + count_rows (\<lambda>d. real_body d \<and> d_status d = Release_expired) rows
       + count_rows (\<lambda>d. real_body d \<and> d_status d = Release_voided) rows)
    - count_rows (\<lambda>d. real_body d \<and> d_status d = Relay_skipped) rows
    - count_rows (\<lambda>d. real_body d \<and> d_status d = Deadline_expired) rows
    = int (length (filter (\<lambda>d. real_body d \<and> live_status (d_status d)) rows))" for rows
    by (induction rows) (auto simp: live_status_def)
  then show ?thesis
    by (simp add: live_count_def release_closed_count_def event_counts_def Let_def live_copies_def)
qed

lemma acknowledged_live:
  assumes "row_ok d" and "d_reconcile_state d = Acknowledged"
  shows "d_status d = Delivered"
  using assms by (auto simp: row_ok_def copy_ok_def dest: status_ok_receipt_states)

lemma acknowledged_count_rows:
  assumes "copies_ok db"
  shows "n_acknowledged (event_counts db event)
    = count_rows (\<lambda>d. d_reconcile_state d = Acknowledged) (live_copies db event)"
proof -
  have "count_rows (\<lambda>d. real_body d \<and> d_reconcile_state d = Acknowledged) rows
    = count_rows (\<lambda>d. d_reconcile_state d = Acknowledged)
        (filter (\<lambda>d. real_body d \<and> live_status (d_status d)) rows)"
    if "\<forall>d \<in> set rows. row_ok d" for rows
    using that by (induction rows) (auto simp: live_status_def dest: acknowledged_live)
  moreover have "\<forall>d \<in> set (copies_of db event). row_ok d"
    using assms by (simp add: copies_of_def copies_ok_def)
  ultimately show ?thesis
    by (simp add: event_counts_def Let_def live_copies_def)
qed

lemma acknowledged_le_live:
  "copies_ok db \<Longrightarrow> n_acknowledged (event_counts db event) \<le> live_count (event_counts db event)"
  by (simp add: acknowledged_count_rows live_count_rows count_rows_le_length)

text \<open>
  An event that reads \<open>delivered\<close> while it has live for-real copies: every one of them has been
  handed off.
\<close>

lemma delivered_all_sent:
  assumes "v_status (event_response e (event_counts db event)) = Ev_delivered"
    and "live_copies db event \<noteq> []"
  shows "\<forall>d \<in> set (live_copies db event). d_status d = Delivered"
proof -
  let ?n = "event_counts db event"
  have "live_count ?n \<noteq> 0"
    using assms(2) by (simp add: live_count_rows)
  with assms(1) have "live_count ?n \<le> n_delivered ?n"
    by (auto simp: event_response_def event_status_def Let_def split: if_splits)
  moreover have "count_rows (\<lambda>d. real_body d \<and> d_status d = Delivered) rows
    = count_rows (\<lambda>d. d_status d = Delivered) (filter (\<lambda>d. real_body d \<and> live_status (d_status d)) rows)" for rows
    by (induction rows) (auto simp: live_status_def)
  then have "n_delivered ?n = count_rows (\<lambda>d. d_status d = Delivered) (live_copies db event)"
    by (simp add: event_counts_def Let_def live_copies_def)
  ultimately have "count_rows (\<lambda>d. d_status d = Delivered) (live_copies db event) = int (length (live_copies db event))"
    using count_rows_le_length [of "\<lambda>d. d_status d = Delivered" "live_copies db event"]
    by (simp add: live_count_rows)
  then show ?thesis by (simp add: count_rows_all)
qed

section \<open>An acknowledged event stays acknowledged\<close>

text \<open>What a step may do to the copies of an event that get no new sibling.\<close>

lemma live_status_evolves:
  assumes "row_evolves d d'" and "row_ok d" and "live_status (d_status d')"
  shows "live_status (d_status d)"
proof (rule ccontr)
  assume dead: "\<not> live_status (d_status d)"
  then have "closed_status (d_status d)"
    by (auto simp: live_status_def closed_status_def)
  then have "d_status d' = d_status d \<or> d_status d' = Release_voided"
    using assms(1,2) lifecycles_closed [of "copy_of d" "copy_of d'"]
    by (simp add: row_evolves_def row_ok_def)
  with dead assms(3) show False by (auto simp: live_status_def)
qed

lemma count_rows_filter: "count_rows P (filter Q rows) = count_rows (\<lambda>d. Q d \<and> P d) rows"
proof -
  have "(\<lambda>x. P x \<and> Q x) = (\<lambda>d. Q d \<and> P d)" by auto
  then show ?thesis by (simp add: count_rows_def)
qed

lemma evolves_counts:
  assumes "evolves db db'" and "copies_ok db"
    and "length (copies_of db' event) = length (copies_of db event)"
  shows "live_count (event_counts db' event) \<le> live_count (event_counts db event)"
    and "n_acknowledged (event_counts db event) \<le> n_acknowledged (event_counts db' event)"
proof -
  from assms(1) obtain rows new where 1: "deliveries db' = rows @ new"
    "list_all2 row_evolves (deliveries db) rows" "list_all born new"
    by (auto simp: evolves_def)
  have rel: "list_all2 (\<lambda>d d'. row_evolves d d' \<and> row_ok d) (deliveries db) rows"
    using 1(2) assms(2) by (auto simp: list_all2_conv_all_nth copies_ok_def)
  have split: "copies_of db' event = filter (\<lambda>d. d_event_id d = Some event) rows @ filter (\<lambda>d. d_event_id d = Some event) new"
    by (simp add: copies_of_def 1(1))
  have ev: "d_event_id d' = d_event_id d \<and> real_body d' = real_body d" if "row_evolves d d'" for d d'
    using row_evolves_snapshot [OF that] by (simp add: same_snapshot_def real_body_def)
  have "length (filter (\<lambda>d. d_event_id d = Some event) rows) = length (copies_of db event)"
    unfolding copies_of_def using rel
    by (induction rule: list_all2_induct) (auto simp: ev)
  then have none: "filter (\<lambda>d. d_event_id d = Some event) new = []"
    using assms(3) split by simp
  have all: "copies_of db' event = filter (\<lambda>d. d_event_id d = Some event) rows"
    by (simp add: split none)
  have "int (length (live_copies db' event)) = count_rows (\<lambda>d. d_event_id d = Some event \<and> real_body d \<and> live_status (d_status d)) rows"
    by (simp add: live_copies_def all count_rows_def conj_commute conj_left_commute)
  also have "\<dots> \<le> count_rows (\<lambda>d. d_event_id d = Some event \<and> real_body d \<and> live_status (d_status d)) (deliveries db)"
  proof (rule count_rows_rel)
    show "list_all2 (\<lambda>d' d. row_evolves d d' \<and> row_ok d) rows (deliveries db)"
      using rel by (simp add: list_all2_conv_all_nth)
  qed (auto simp: ev intro: live_status_evolves)
  also have "\<dots> = int (length (live_copies db event))"
    by (simp add: live_copies_def copies_of_def count_rows_def conj_commute conj_left_commute)
  finally show "live_count (event_counts db' event) \<le> live_count (event_counts db event)"
    by (simp add: live_count_rows)
  have "count_rows (\<lambda>d. d_event_id d = Some event \<and> real_body d \<and> d_reconcile_state d = Acknowledged) (deliveries db)
    \<le> count_rows (\<lambda>d. d_event_id d = Some event \<and> real_body d \<and> d_reconcile_state d = Acknowledged) rows"
    by (rule count_rows_rel [OF rel]) (auto simp: ev dest: row_evolves_acknowledged)
  moreover have "n_acknowledged (event_counts db' event)
      = count_rows (\<lambda>d. d_event_id d = Some event \<and> real_body d \<and> d_reconcile_state d = Acknowledged) rows"
    by (simp add: event_counts_def Let_def all count_rows_filter)
  moreover have "n_acknowledged (event_counts db event)
      = count_rows (\<lambda>d. d_event_id d = Some event \<and> real_body d \<and> d_reconcile_state d = Acknowledged) (deliveries db)"
    by (simp add: event_counts_def Let_def copies_of_def count_rows_filter)
  ultimately show "n_acknowledged (event_counts db event) \<le> n_acknowledged (event_counts db' event)"
    by simp
qed

lemma quorum_acknowledged:
  "v_reconcile_status (event_response e n) = Rs_acknowledged \<longleftrightarrow> v_acknowledged_quorum (event_response e n)"
  by (simp add: event_response_def event_reconcile_status_def Let_def)

lemma acknowledged_stays:
  assumes "evolves db db'" and "copies_ok db"
    and "length (copies_of db' event) = length (copies_of db event)"
    and "e_required_ack_count e' = e_required_ack_count e"
    and "v_acknowledged_quorum (event_response e (event_counts db event))"
  shows "v_acknowledged_quorum (event_response e' (event_counts db' event))"
proof -
  let ?n = "event_counts db event" and ?n' = "event_counts db' event"
  note c = evolves_counts [OF assms(1-3)]
  have "copies_ok db'"
    using assms(1,2) by (rule evolves_copies_ok)
  then have "n_acknowledged ?n' \<le> live_count ?n'"
    by (rule acknowledged_le_live)
  with c assms(4,5) show ?thesis
    by (cases "e_required_ack_count e") (auto simp: event_response_def Let_def)
qed

end
