(* ===== verification/Ingest.thy ===== *)
theory Ingest
  imports Ingest_Auth Subscriptions Event_Status
begin

text \<open>
  POST /v1/events of app/main.py: validation of the body (\<open>EventIn\<close> of app/schemas.py), the
  idempotent insertion of the event, and its routing: along the active relay chain, as
  preview/body pairs of a gated type, or as one copy for each confirmed subscriber whose
  condition holds.
\<close>

section \<open>The body of an event\<close>

record event_in =
  in_event_type :: string
  in_dedupe_key :: string
  in_payload :: json
  in_not_before :: "time option"
  in_deliver_by :: "time option"
  in_preview_payload :: "json option"

definition normalize_optional_datetime :: "wall_clock option \<Rightarrow> time option" where
  "normalize_optional_datetime value =
     (case value of None \<Rightarrow> None | Some (Naive t) \<Rightarrow> Some t | Some (Aware t) \<Rightarrow> Some t)"

text \<open>An optional datetime field: None when the value is refused.\<close>

definition datetime_field :: "runtime \<Rightarrow> (string \<times> json) list \<Rightarrow> string \<Rightarrow> time option option" where
  "datetime_field rt fs key =
     (if field fs key = JNull then Some None
      else (case rt_iso_datetime rt (field fs key) of
              None \<Rightarrow> None | Some t \<Rightarrow> Some (normalize_optional_datetime (Some t))))"

definition object_field :: "(string \<times> json) list \<Rightarrow> string \<Rightarrow> json option option" where
  "object_field fs key =
     (if field fs key = JNull then Some None
      else if is_dict (field fs key) then Some (Some (field fs key)) else None)"

definition validate_event_in :: "runtime \<Rightarrow> (string \<times> json) list \<Rightarrow> event_in option" where
  "validate_event_in rt fs =
     (case (field fs ''event_type'', field fs ''dedupe_key'', field fs ''payload'') of
        (JStr type, JStr key, JObj payload) \<Rightarrow>
          (case (normalize_event_type type, datetime_field rt fs ''not_before'',
                 datetime_field rt fs ''deliver_by'', object_field fs ''preview_payload'') of
             (Some t, Some nb, Some dby, Some preview) \<Rightarrow>
               if key \<noteq> [] \<and> length key \<le> 256
               then Some \<lparr>in_event_type = t, in_dedupe_key = key, in_payload = JObj payload,
                          in_not_before = nb, in_deliver_by = dby, in_preview_payload = preview\<rparr>
               else None
           | _ \<Rightarrow> None)
      | _ \<Rightarrow> None)"

section \<open>Routing\<close>

definition ack_threshold_of :: "database \<Rightarrow> string \<Rightarrow> int option" where
  "ack_threshold_of db type = map_option t_ack_threshold
     (first_row (\<lambda>t. t_event_type t = type) (event_type_ack_thresholds db))"

text \<open>The confirmed subscribers of a type in the order of their ids.\<close>

definition is_confirmed :: "destination \<Rightarrow> bool" where
  "is_confirmed d \<longleftrightarrow> dest_confirmation_state d = Confirmed"

definition target_of :: "database \<Rightarrow> subscription \<Rightarrow> target option" where
  "target_of db s = (case find_destination db (s_destination_id s) of
     None \<Rightarrow> None
   | Some d \<Rightarrow> if is_confirmed d then Some (dest_id d, dest_observe_only d, s_filter_spec s) else None)"

definition subscribers :: "database \<Rightarrow> string \<Rightarrow> target list" where
  "subscribers db type = order_by fst (List.map_filter (target_of db)
     (filter (\<lambda>s. s_event_type s = type) (destination_subscriptions db)))"

definition total_subscribers :: "database \<Rightarrow> string \<Rightarrow> int" where
  "total_subscribers db type = count_rows (\<lambda>s. s_event_type s = type) (destination_subscriptions db)"

definition insert_evaluation :: "filter_evaluation \<Rightarrow> database \<Rightarrow> database" where
  "insert_evaluation f db =
     (if list_ex (\<lambda>g. fe_event_id g = fe_event_id f \<and> fe_destination_id g = fe_destination_id f)
           (subscription_filter_evaluations db)
      then db
      else db\<lparr>subscription_filter_evaluations := subscription_filter_evaluations db @ [f]\<rparr>)"

definition evaluation_row :: "uuid \<Rightarrow> string \<Rightarrow> target \<Rightarrow> json \<Rightarrow> bool \<Rightarrow> filter_evaluation" where
  "evaluation_row eid type t spec matched =
     \<lparr>fe_event_id = eid, fe_destination_id = fst t, fe_event_type = type, fe_matched = matched,
      fe_filter_spec = spec, fe_observe_only = fst (snd t)\<rparr>"

record routed =
  ro_targets :: "target list"
  ro_filtered_real :: int
  ro_filtered_shadow :: int

fun route_subscribers :: "uuid \<Rightarrow> string \<Rightarrow> json \<Rightarrow> target list \<Rightarrow> routed \<Rightarrow> database \<Rightarrow> (routed \<times> database) option" where
  "route_subscribers eid type payload [] r db = Some (r, db)"
| "route_subscribers eid type payload (t # ts) r db =
     (case t of (dest, shadow, spec) \<Rightarrow>
       (case spec of
          None \<Rightarrow> route_subscribers eid type payload ts (r\<lparr>ro_targets := ro_targets r @ [t]\<rparr>) db
        | Some s \<Rightarrow>
            (case evaluate s payload of
               None \<Rightarrow> None
             | Some matched \<Rightarrow>
                 route_subscribers eid type payload ts
                   (if matched then r\<lparr>ro_targets := ro_targets r @ [t]\<rparr>
                    else if shadow then r\<lparr>ro_filtered_shadow := ro_filtered_shadow r + 1\<rparr>
                    else r\<lparr>ro_filtered_real := ro_filtered_real r + 1\<rparr>)
                   (insert_evaluation (evaluation_row eid type t s matched) db))))"

definition ordinary_copy ::
  "time \<Rightarrow> uuid \<Rightarrow> uuid \<Rightarrow> event_in \<Rightarrow> bool \<Rightarrow> json option \<Rightarrow> destination \<Rightarrow> delivery" where
  "ordinary_copy now i eid b shadow spec dest =
     (new_delivery now i eid (dest_id dest) (in_event_type b) (in_dedupe_key b) (in_payload b) 0)
       \<lparr> d_not_before := in_not_before b, d_deliver_by := in_deliver_by b,
         d_observe_only := shadow, d_filter_spec := spec \<rparr>"

fun fan_out_copies ::
  "time \<Rightarrow> (nat \<Rightarrow> uuid \<times> uuid) \<Rightarrow> uuid \<Rightarrow> event_in \<Rightarrow> nat \<Rightarrow> target list \<Rightarrow> database \<Rightarrow> api_error + database" where
  "fan_out_copies now gen eid b n [] db = Inr db"
| "fan_out_copies now gen eid b n (t # ts) db =
     (case t of (dest, shadow, spec) \<Rightarrow>
       (case insert_copy is_confirmed dest (ordinary_copy now (fst (gen n)) eid b shadow spec) db of
          Inl err \<Rightarrow> Inl err
        | Inr db' \<Rightarrow> fan_out_copies now gen eid b (n + 1) ts db'))"

section \<open>Fan-out of an accepted event\<close>

record fan_out =
  fo_real :: int
  fo_shadow :: int
  fo_filtered_real :: int
  fo_filtered_shadow :: int
  fo_disposition :: ingest_disposition

definition fan_out_chain ::
  "time \<Rightarrow> (nat \<Rightarrow> uuid \<times> uuid) \<Rightarrow> uuid \<Rightarrow> event_in \<Rightarrow> relay_chain \<times> relay_station list \<Rightarrow> database \<Rightarrow>
   api_error + fan_out \<times> database" where
  "fan_out_chain now gen eid b chain db =
     (case fan_out_relay_event now (\<lambda>n. fst (gen (nat n))) eid chain (in_dedupe_key b) (in_payload b)
             (in_not_before b) (in_deliver_by b) db of
        Inl err \<Rightarrow> Inl err
      | Inr db' \<Rightarrow> Inr (\<lparr>fo_real = int (length (snd chain)), fo_shadow = 0, fo_filtered_real = 0,
                        fo_filtered_shadow = 0, fo_disposition = Accepted\<rparr>, db'))"

definition is_shadow :: "target \<Rightarrow> bool" where
  "is_shadow t \<longleftrightarrow> fst (snd t)"

definition disposition_of :: "target list \<Rightarrow> target list \<Rightarrow> int \<Rightarrow> ingest_disposition" where
  "disposition_of routed subscribed count =
     (if routed = [] then
        (if subscribed = [] then (if count = 0 then Unrouted else Pending_confirmation) else Filtered)
      else Accepted)"

text \<open>The copies of the routed subscribers, as (for-real, shadow) counts and the database.\<close>

definition fan_out_routed ::
  "time \<Rightarrow> (nat \<Rightarrow> uuid \<times> uuid) \<Rightarrow> uuid \<Rightarrow> event_in \<Rightarrow> preview_policy option \<Rightarrow> json option \<Rightarrow> target list \<Rightarrow>
   database \<Rightarrow> api_error + (int \<times> int) \<times> database" where
  "fan_out_routed now gen eid b policy preview targets db =
     (case policy of
        Some p \<Rightarrow> fan_out_gated_event now gen eid (in_event_type b) (in_dedupe_key b) (in_payload b) preview
          (in_not_before b) (in_deliver_by b) (p_consent_timeout_seconds p) targets db
      | None \<Rightarrow>
          (case fan_out_copies now gen eid b 0 targets db of
             Inl err \<Rightarrow> Inl err
           | Inr db' \<Rightarrow> Inr ((count_rows (\<lambda>t. \<not> is_shadow t) targets, count_rows is_shadow targets), db')))"

definition fan_out_subscribers ::
  "time \<Rightarrow> (nat \<Rightarrow> uuid \<times> uuid) \<Rightarrow> uuid \<Rightarrow> event_in \<Rightarrow> preview_policy option \<Rightarrow> json option \<Rightarrow> database \<Rightarrow>
   api_error + fan_out \<times> database" where
  "fan_out_subscribers now gen eid b policy preview db =
     (let subscribed = subscribers db (in_event_type b) in
      case route_subscribers eid (in_event_type b) (in_payload b) subscribed
             \<lparr>ro_targets = [], ro_filtered_real = 0, ro_filtered_shadow = 0\<rparr> db of
        None \<Rightarrow> Inl Type_error
      | Some (r, db1) \<Rightarrow>
          (case fan_out_routed now gen eid b policy preview (ro_targets r) db1 of
             Inl err \<Rightarrow> Inl err
           | Inr ((reals, shadows), db2) \<Rightarrow>
               Inr (\<lparr>fo_real = reals, fo_shadow = shadows, fo_filtered_real = ro_filtered_real r,
                     fo_filtered_shadow = ro_filtered_shadow r,
                     fo_disposition = disposition_of (ro_targets r) subscribed
                       (total_subscribers db (in_event_type b))\<rparr>, db2)))"

text \<open>The relay chain, when there is one, is the whole routing decision.\<close>

definition fan_out_event ::
  "time \<Rightarrow> (nat \<Rightarrow> uuid \<times> uuid) \<Rightarrow> uuid \<Rightarrow> event_in \<Rightarrow> preview_policy option \<Rightarrow> json option \<Rightarrow>
   (relay_chain \<times> relay_station list) option \<Rightarrow> database \<Rightarrow> api_error + fan_out \<times> database" where
  "fan_out_event now gen eid b policy preview chain db =
     (case chain of Some c \<Rightarrow> fan_out_chain now gen eid b c db
      | None \<Rightarrow> fan_out_subscribers now gen eid b policy preview db)"

section \<open>Storing an event\<close>

record ingest_reply =
  rep_event :: event
  rep_view :: event_view
  rep_relay :: "relay_run option"
  rep_duplicate :: bool

definition event_row :: "time \<Rightarrow> uuid \<Rightarrow> event_source \<Rightarrow> event_in \<Rightarrow> json option \<Rightarrow> event" where
  "event_row now eid source b preview =
     \<lparr>e_id = eid, e_source_id = Some (src_id source), e_event_type = in_event_type b,
      e_dedupe_key = in_dedupe_key b, e_payload = in_payload b, e_not_before = in_not_before b,
      e_deliver_by = in_deliver_by b, e_cancelled_at = None, e_created_at = now,
      e_preview_payload = preview, e_required_ack_count = Some 0, e_corrects_event_id = None\<rparr>"

definition find_event_by_key :: "database \<Rightarrow> string \<Rightarrow> event option" where
  "find_event_by_key db key = first_row (\<lambda>e. e_dedupe_key e = key) (events db)"

text \<open>The counts the response of an accepted push carries, built without asking the database.\<close>

definition fresh_counts :: "fan_out \<Rightarrow> bool \<Rightarrow> counts" where
  "fresh_counts fo gated =
     \<lparr> n_delivery = fo_real fo, n_delivered = 0, n_pending = fo_real fo, n_acknowledged = 0,
       n_superseded = 0, n_dead_lettered = 0, n_deadline_expired = 0, n_failed = 0,
       n_relay_skipped = 0, n_relay_stopped = 0,
       n_bodies_waiting = (if gated then fo_real fo else 0), n_bodies_released = 0,
       n_bodies_denied = 0, n_bodies_expired = 0, n_bodies_voided = 0, n_previews_delivered = 0,
       n_shadow_delivery = fo_shadow fo, n_shadow_delivered = 0, n_shadow_pending = fo_shadow fo,
       n_shadow_acknowledged = 0, n_shadow_superseded = 0, n_shadow_dead_lettered = 0,
       n_shadow_deadline_expired = 0, n_shadow_failed = 0,
       n_shadow_bodies_waiting = (if gated then fo_shadow fo else 0),
       n_shadow_bodies_released = 0, n_shadow_bodies_closed = 0, n_shadow_previews_delivered = 0,
       n_filtered_out = fo_filtered_real fo, n_shadow_filtered_out = fo_filtered_shadow fo \<rparr>"

definition required_ack_count_of :: "bool \<Rightarrow> int option \<Rightarrow> int \<Rightarrow> int" where
  "required_ack_count_of relayed threshold bodies =
     (if relayed then bodies else (case threshold of None \<Rightarrow> bodies | Some n \<Rightarrow> min n bodies))"

definition store_duplicate ::
  "time \<Rightarrow> event_in \<Rightarrow> event_source \<Rightarrow> time \<Rightarrow> event \<Rightarrow> database \<Rightarrow> (ingest_reply \<times> int) admission" where
  "store_duplicate now b source signed_at existing db =
     (let db' = log_attempt now Duplicate_event (Some (src_id source)) (Some (src_name source))
            (Some (e_id existing)) (Some (in_dedupe_key b)) (Some (in_event_type b)) (Some signed_at) db
      in (Inr (\<lparr>rep_event = existing, rep_view = event_response existing (event_counts db (e_id existing)),
               rep_relay = build_event_relay db (e_id existing), rep_duplicate = True\<rparr>, 200), db'))"

text \<open>
  From the inserted event row to the commit. Any exception on the way rolls the transaction
  back, so an error value stands beside the database the request started with.
\<close>

definition store_fresh ::
  "time \<Rightarrow> uuid \<Rightarrow> (nat \<Rightarrow> uuid \<times> uuid) \<Rightarrow> event_in \<Rightarrow> event_source \<Rightarrow> time \<Rightarrow> preview_policy option \<Rightarrow>
   database \<Rightarrow> (ingest_reply \<times> int) admission" where
  "store_fresh now eid gen b source signed_at policy db =
     (let preview = (if policy \<noteq> None then in_preview_payload b else None);
          chain = get_active_chain db (in_event_type b);
          row = event_row now eid source b preview;
          db1 = db\<lparr>events := events db @ [row]\<rparr>
      in case fan_out_event now gen eid b policy preview chain db1 of
           Inl err \<Rightarrow> (Inl (Crashed err), db)
         | Inr (fo, db2) \<Rightarrow>
             let required = required_ack_count_of (chain \<noteq> None) (ack_threshold_of db (in_event_type b)) (fo_real fo);
                 db3 = update_event_row eid (\<lambda>e. e\<lparr>e_required_ack_count := Some required\<rparr>) db2;
                 db4 = log_attempt now (fo_disposition fo) (Some (src_id source)) (Some (src_name source))
                         (Some eid) (Some (in_dedupe_key b)) (Some (in_event_type b)) (Some signed_at) db3;
                 row' = row\<lparr>e_required_ack_count := Some required\<rparr>
             in (Inr (\<lparr>rep_event = row',
                       rep_view = event_response row' (fresh_counts fo (policy \<noteq> None)),
                       rep_relay = (if chain \<noteq> None then build_event_relay db4 eid else None),
                       rep_duplicate = False\<rparr>, 201), db4))"

text \<open>A JSONB column takes neither NaN nor an infinity, which \<open>json.loads\<close> lets through.\<close>

definition jsonb_ok :: "event_in \<Rightarrow> bool" where
  "jsonb_ok b \<longleftrightarrow> finite_json (in_payload b) \<and>
     (case in_preview_payload b of None \<Rightarrow> True | Some p \<Rightarrow> finite_json p)"

definition store_event ::
  "time \<Rightarrow> uuid \<Rightarrow> (nat \<Rightarrow> uuid \<times> uuid) \<Rightarrow> event_in \<Rightarrow> event_source \<Rightarrow> time \<Rightarrow> database \<Rightarrow>
   (ingest_reply \<times> int) admission" where
  "store_event now eid gen b source signed_at db =
     (let policy = get_policy db (in_event_type b) in
      if policy = None \<and> in_preview_payload b \<noteq> None
      then (Inl (Refused 422 Invalid_body),
            log_attempt now Invalid_body (Some (src_id source)) (Some (src_name source)) None
              (Some (in_dedupe_key b)) (Some (in_event_type b)) (Some signed_at) db)
      else if \<not> jsonb_ok b then (Inl (Crashed Bad_cast), db)
      else (case find_event_by_key db (in_dedupe_key b) of
              Some existing \<Rightarrow> store_duplicate now b source signed_at existing db
            | None \<Rightarrow>
                if find_event db eid \<noteq> None then (Inl (Crashed Constraint_violation), db)
                else store_fresh now eid gen b source signed_at policy db))"

section \<open>The request\<close>

text \<open>A value of the parsed body as the driver stores it into a TEXT column (None: NULL).\<close>

definition text_value :: "runtime \<Rightarrow> json \<Rightarrow> api_error + string option" where
  "text_value rt v =
     (if v = JNull then Inr None
      else (case rt_text_column rt v of None \<Rightarrow> Inl Type_error | Some s \<Rightarrow> Inr (Some s)))"

definition refuse_body ::
  "runtime \<Rightarrow> time \<Rightarrow> event_source \<Rightarrow> time \<Rightarrow> (string \<times> json) list \<Rightarrow> database \<Rightarrow> 'a admission" where
  "refuse_body rt now source signed_at fs db =
     (case (text_value rt (field fs ''dedupe_key''), text_value rt (field fs ''event_type'')) of
        (Inr key, Inr type) \<Rightarrow>
          (Inl (Refused 422 Invalid_body),
           log_attempt now Invalid_body (Some (src_id source)) (Some (src_name source)) None key type
             (Some signed_at) db)
      | _ \<Rightarrow> (Inl (Crashed Type_error), db))"

definition create_event ::
  "runtime \<Rightarrow> settings \<Rightarrow> time \<Rightarrow> time \<Rightarrow> uuid \<Rightarrow> (nat \<Rightarrow> uuid \<times> uuid) \<Rightarrow> request \<Rightarrow> database \<Rightarrow>
   (ingest_reply \<times> int) admission" where
  "create_event rt cfg clock now eid gen rq db =
     (case authenticate rt cfg clock now rq db of
        (Inl err, db1) \<Rightarrow> (Inl err, db1)
      | (Inr (source, signed_at), db1) \<Rightarrow>
          (case parse_event_body rt now source signed_at (rq_body rq) db1 of
             (Inl err, db2) \<Rightarrow> (Inl err, db2)
           | (Inr fs, db2) \<Rightarrow>
               (case validate_event_in rt fs of
                  None \<Rightarrow> refuse_body rt now source signed_at fs db2
                | Some b \<Rightarrow> store_event now eid gen b source signed_at db2)))"

section \<open>Routing reads the database and writes only judgements\<close>

lemma insert_evaluation_simps [simp]:
  "deliveries (insert_evaluation f db) = deliveries db"
  "destinations (insert_evaluation f db) = destinations db"
  "events (insert_evaluation f db) = events db"
  by (simp_all add: insert_evaluation_def)

lemma route_step:
  assumes "route_subscribers eid type payload (t # ts) r db = Some out"
  obtains (plain) "snd (snd t) = None"
      "route_subscribers eid type payload ts (r\<lparr>ro_targets := ro_targets r @ [t]\<rparr>) db = Some out"
  | (judged) spec matched where "snd (snd t) = Some spec" "evaluate spec payload = Some matched"
      "route_subscribers eid type payload ts
         (if matched then r\<lparr>ro_targets := ro_targets r @ [t]\<rparr>
          else if is_shadow t then r\<lparr>ro_filtered_shadow := ro_filtered_shadow r + 1\<rparr>
          else r\<lparr>ro_filtered_real := ro_filtered_real r + 1\<rparr>)
         (insert_evaluation (evaluation_row eid type t spec matched) db) = Some out"
proof -
  obtain dest shadow spec where t: "t = (dest, shadow, spec)" by (cases t)
  show thesis
  proof (cases spec)
    case None
    with assms t show thesis by (intro plain) simp_all
  next
    case (Some s)
    with assms t obtain matched where "evaluate s payload = Some matched"
      by (auto split: option.splits)
    with assms t Some show thesis
      by (intro judged [of s matched]) (simp_all add: is_shadow_def split del: if_split cong: if_cong)
  qed
qed

definition passes :: "json \<Rightarrow> target \<Rightarrow> bool" where
  "passes payload t \<longleftrightarrow> (case snd (snd t) of None \<Rightarrow> True | Some s \<Rightarrow> evaluate s payload = Some True)"

lemma route_subscribers_result:
  "route_subscribers eid type payload ts r db = Some (r', db') \<Longrightarrow>
   deliveries db' = deliveries db \<and> destinations db' = destinations db \<and> events db' = events db \<and>
   ro_targets r' = ro_targets r @ filter (passes payload) ts"
proof (induction ts arbitrary: r db)
  case Nil
  then show ?case by simp
next
  case (Cons t ts)
  from Cons.prems show ?case
  proof (cases rule: route_step)
    case plain
    then show ?thesis using Cons.IH [OF plain(2)] by (simp add: passes_def)
  next
    case (judged spec matched)
    then show ?thesis using Cons.IH [OF judged(3)] by (cases matched) (simp_all add: passes_def)
  qed
qed

section \<open>The insertions keep the tables\<close>

lemma ordinary_copy_fresh:
  "0 \<le> dest_next_event_seq d \<Longrightarrow> fresh_row (numbered (ordinary_copy now i eid b shadow spec) d)"
  by (simp add: numbered_def fresh_row_def ordinary_copy_def new_delivery_def delivery_check_def copy_shape_def)

lemma fan_out_copies_step:
  assumes "fan_out_copies now gen eid b n (t # ts) db = Inr db'"
  obtains db1 where
    "insert_copy is_confirmed (fst t) (ordinary_copy now (fst (gen n)) eid b (is_shadow t) (snd (snd t))) db = Inr db1"
    "fan_out_copies now gen eid b (n + 1) ts db1 = Inr db'"
  using assms by (auto simp: is_shadow_def split: prod.splits sum.splits)

lemma fan_out_copies_keeps:
  "fan_out_copies now gen eid b n ts db = Inr db' \<Longrightarrow> destinations_ok db \<Longrightarrow> keeps db db'"
proof (induction ts arbitrary: n db)
  case Nil
  then show ?case by simp
next
  case (Cons t ts)
  from Cons.prems(1) obtain db1 where
    1: "insert_copy is_confirmed (fst t) (ordinary_copy now (fst (gen n)) eid b (is_shadow t) (snd (snd t))) db = Inr db1"
    and 2: "fan_out_copies now gen eid b (n + 1) ts db1 = Inr db'"
    by (rule fan_out_copies_step)
  have k: "keeps db db1"
    using 1 Cons.prems(2) by (rule insert_copy_keeps) (rule ordinary_copy_fresh)
  then have "destinations_ok db1" using Cons.prems(2) by (simp add: keeps_def)
  with Cons.IH [OF 2] have "keeps db1 db'" .
  with k show ?case by (rule keeps_trans)
qed

lemma fan_out_routed_keeps:
  "fan_out_routed now gen eid b policy preview ts db = Inr (r, db') \<Longrightarrow> destinations_ok db \<Longrightarrow> keeps db db'"
  unfolding fan_out_routed_def
  by (auto split: option.splits sum.splits intro: fan_out_copies_keeps fan_out_gated_event_keeps)

lemma fan_out_subscribers_step:
  assumes "fan_out_subscribers now gen eid b policy preview db = Inr (fo, db')"
  obtains r db1 where
    "route_subscribers eid (in_event_type b) (in_payload b) (subscribers db (in_event_type b))
       \<lparr>ro_targets = [], ro_filtered_real = 0, ro_filtered_shadow = 0\<rparr> db = Some (r, db1)"
    "fan_out_routed now gen eid b policy preview (ro_targets r) db1 = Inr ((fo_real fo, fo_shadow fo), db')"
    "fo_filtered_real fo = ro_filtered_real r" "fo_filtered_shadow fo = ro_filtered_shadow r"
    "fo_disposition fo = disposition_of (ro_targets r) (subscribers db (in_event_type b))
       (total_subscribers db (in_event_type b))"
  using assms unfolding fan_out_subscribers_def Let_def
  by (auto split: option.splits sum.splits)

lemma fan_out_subscribers_keeps:
  assumes "fan_out_subscribers now gen eid b policy preview db = Inr (fo, db')" and "destinations_ok db"
  shows "keeps db db'"
  using assms(1)
proof (cases rule: fan_out_subscribers_step)
  case (1 r db1)
  have same: "deliveries db1 = deliveries db" "destinations db1 = destinations db"
    using route_subscribers_result [OF 1(1)] by simp_all
  then have "destinations_ok db1" using assms(2) by (simp add: destinations_ok_def)
  with fan_out_routed_keeps [OF 1(2)] have "keeps db1 db'" .
  moreover have "keeps db db1" using same by (rule keeps_same)
  ultimately show ?thesis by (rule keeps_trans [rotated])
qed

lemma fan_out_chain_step:
  assumes "fan_out_chain now gen eid b chain db = Inr (fo, db')"
  shows "fan_out_relay_event now (\<lambda>n. fst (gen (nat n))) eid chain (in_dedupe_key b) (in_payload b)
      (in_not_before b) (in_deliver_by b) db = Inr db'"
    and "fo = \<lparr>fo_real = int (length (snd chain)), fo_shadow = 0, fo_filtered_real = 0,
      fo_filtered_shadow = 0, fo_disposition = Accepted\<rparr>"
  using assms by (auto simp: fan_out_chain_def split: sum.splits)

lemma fan_out_event_keeps:
  "fan_out_event now gen eid b policy preview chain db = Inr (fo, db') \<Longrightarrow> destinations_ok db \<Longrightarrow> keeps db db'"
  by (cases chain)
    (auto simp: fan_out_event_def intro: fan_out_subscribers_keeps fan_out_relay_event_keeps dest: fan_out_chain_step(1))

text \<open>What a first push leaves, read off \<open>store_event\<close>.\<close>

lemma store_event_created:
  assumes "store_event now eid gen b source t db = (Inr (rep, 201), db')"
  obtains fo db2 row preview required where
    "find_event_by_key db (in_dedupe_key b) = None" "find_event db eid = None" "jsonb_ok b"
    "preview = (if get_policy db (in_event_type b) \<noteq> None then in_preview_payload b else None)"
    "row = event_row now eid source b preview"
    "fan_out_event now gen eid b (get_policy db (in_event_type b)) preview
       (get_active_chain db (in_event_type b)) (db\<lparr>events := events db @ [row]\<rparr>) = Inr (fo, db2)"
    "required = required_ack_count_of (get_active_chain db (in_event_type b) \<noteq> None)
       (ack_threshold_of db (in_event_type b)) (fo_real fo)"
    "db' = log_attempt now (fo_disposition fo) (Some (src_id source)) (Some (src_name source)) (Some eid)
       (Some (in_dedupe_key b)) (Some (in_event_type b)) (Some t)
       (update_event_row eid (\<lambda>e. e\<lparr>e_required_ack_count := Some required\<rparr>) db2)"
    "rep_event rep = row\<lparr>e_required_ack_count := Some required\<rparr>"
    "rep_view rep = event_response (row\<lparr>e_required_ack_count := Some required\<rparr>)
       (fresh_counts fo (get_policy db (in_event_type b) \<noteq> None))"
    "rep_duplicate rep = False"
  using assms
  by (auto simp: store_event_def store_fresh_def store_duplicate_def fan_out_event_def Let_def
      split: if_splits option.splits sum.splits)


lemma store_event_keeps:
  assumes "store_event now eid gen b source t db = (Inr r, db')" and "destinations_ok db"
  shows "keeps db db'"
proof (cases "find_event_by_key db (in_dedupe_key b)")
  case None
  with assms(1) obtain fo db2 row preview required where
    out: "fan_out_event now gen eid b (get_policy db (in_event_type b)) preview
       (get_active_chain db (in_event_type b)) (db\<lparr>events := events db @ [row]\<rparr>) = Inr (fo, db2)"
    and db': "db' = log_attempt now (fo_disposition fo) (Some (src_id source)) (Some (src_name source)) (Some eid)
       (Some (in_dedupe_key b)) (Some (in_event_type b)) (Some t)
       (update_event_row eid (\<lambda>e. e\<lparr>e_required_ack_count := Some required\<rparr>) db2)"
    by (auto simp: store_event_def store_fresh_def Let_def split: if_splits sum.splits)
  have "keeps (db\<lparr>events := events db @ [row]\<rparr>) db2"
    using out by (rule fan_out_event_keeps) (simp add: destinations_ok_def assms(2) [unfolded destinations_ok_def])
  moreover have "keeps db (db\<lparr>events := events db @ [row]\<rparr>)" by (rule keeps_same) simp_all
  moreover have "keeps db2 db'" unfolding db' by (rule keeps_same) (simp_all add: log_attempt_def)
  ultimately show ?thesis by (meson keeps_trans)
next
  case (Some existing)
  with assms(1) have "only_logged db db'"
    by (auto simp: store_event_def store_duplicate_def Let_def log_attempt_only split: if_splits)
  then show ?thesis by (rule only_logged_keeps)
qed

lemma store_event_refused: "store_event now eid gen b source t db = (Inl err, db') \<Longrightarrow> only_logged db db'"
  by (auto simp: store_event_def store_fresh_def store_duplicate_def Let_def log_attempt_only
      split: if_splits option.splits sum.splits)

lemma refuse_body_only_logs: "refuse_body rt now source t fs db = (r, db') \<Longrightarrow> only_logged db db' \<and> (\<exists>err. r = Inl err)"
  by (auto simp: refuse_body_def log_attempt_only split: sum.splits)

text \<open>How a request ends: refused somewhere on the way, or stored.\<close>

lemma create_event_cases:
  assumes "create_event rt cfg clock now eid gen rq db = (r, db')"
  obtains (refused) err where "r = Inl err" "only_logged db db'"
  | (stored) source t fs b rep where "r = Inr rep"
      "authenticate rt cfg clock now rq db = (Inr (source, t), db)"
      "rt_loads rt (rq_body rq) = Some (JObj fs)" "validate_event_in rt fs = Some b"
      "store_event now eid gen b source t db = (Inr rep, db')"
proof -
  obtain a db1 where a: "authenticate rt cfg clock now rq db = (a, db1)" by fastforce
  show thesis
  proof (cases a)
    case (Inl err)
    with assms a authenticate_only_logs [OF a] show thesis
      by (intro refused [of err]) (auto simp: create_event_def)
  next
    case (Inr p)
    obtain source t where p: "p = (source, t)" by (cases p)
    have db1: "db1 = db" using authenticate_accepts a Inr p by blast
    obtain q db2 where q: "parse_event_body rt now source t (rq_body rq) db = (q, db2)" by fastforce
    have logs: "only_logged db db2" using q by (rule parse_event_body_only_logs)
    show thesis
    proof (cases q)
      case err: (Inl err)
      with assms a Inr p q logs db1 show thesis
        by (intro refused [of err]) (auto simp: create_event_def)
    next
      case fs: (Inr fs)
      with q have body: "rt_loads rt (rq_body rq) = Some (JObj fs)" and db2: "db2 = db"
        by (auto simp: parse_event_body_def Let_def split: option.splits json.splits)
      show thesis
      proof (cases "validate_event_in rt fs")
        case None
        then have "refuse_body rt now source t fs db = (r, db')"
          using assms a Inr p q fs db1 db2 by (simp add: create_event_def)
        from refuse_body_only_logs [OF this] show thesis by (auto intro: refused)
      next
        case (Some b)
        then have st: "store_event now eid gen b source t db = (r, db')"
          using assms a Inr p q fs db1 db2 by (simp add: create_event_def)
        show thesis
        proof (cases r)
          case err: (Inl err)
          with st have "only_logged db db'" by (auto intro: store_event_refused)
          with err show thesis by (rule refused)
        next
          case rep: (Inr rep)
          show thesis
            by (rule stored [OF rep _ body Some]) (use a Inr p db1 st rep in simp_all)
        qed
      qed
    qed
  qed
qed

lemma create_event_keeps:
  assumes "create_event rt cfg clock now eid gen rq db = (r, db')" and "destinations_ok db"
  shows "keeps db db'"
  using assms(1)
proof (cases rule: create_event_cases)
  case (refused err)
  then show ?thesis by (intro only_logged_keeps)
next
  case (stored source t fs b rep)
  then show ?thesis using assms(2) by (intro store_event_keeps)
qed

interpretation ingest: delivery_operation "\<lambda>db. snd (create_event rt cfg clock now eid gen rq db)"
  for rt cfg clock now eid gen rq
proof
  fix db
  assume "db_ok db"
  then have "destinations_ok db" by blast
  then show "keeps db (snd (create_event rt cfg clock now eid gen rq db))"
    by (rule create_event_keeps [OF prod.collapse [symmetric]])
qed

end
