(* ===== verification/Ingest_Routing.thy ===== *)
theory Ingest_Routing
  imports Ingest
begin

text \<open>
  Which copies an accepted event has: for each of the three routings the rows that are inserted,
  the judgements that are recorded, and the counts that follow from them.
\<close>

section \<open>The copies of an accepted event\<close>

definition fresh_copy :: "uuid \<Rightarrow> bool \<Rightarrow> delivery \<Rightarrow> bool" where
  "fresh_copy eid gated d \<longleftrightarrow> d_event_id d = Some eid \<and> d_status d = Pending \<and> d_reconcile_state d = Rec_none \<and>
     d_release_state d = (if gated \<and> d_phase d = Body then Some Held else None)"

definition target_of_copy :: "delivery \<Rightarrow> target" where
  "target_of_copy d = (d_destination_id d, d_observe_only d, d_filter_spec d)"

definition bodies :: "delivery list \<Rightarrow> delivery list" where
  "bodies rows = filter (\<lambda>d. d_phase d = Body) rows"

lemma bodies_simps [simp]:
  "bodies [] = []" "bodies (d # rows) = (if d_phase d = Body then d # bodies rows else bodies rows)"
  "bodies (xs @ ys) = bodies xs @ bodies ys"
  by (simp_all add: bodies_def)

lemma count_rows_guarded:
  "(\<And>d. d \<in> set rows \<Longrightarrow> Q d \<Longrightarrow> P d = c) \<Longrightarrow>
   count_rows (\<lambda>d. Q d \<and> P d) rows = (if c then count_rows Q rows else 0)"
  by (induction rows) auto

lemma count_rows_map: "count_rows P (map f rows) = count_rows (P \<circ> f) rows"
  by (induction rows) auto

lemma count_real_bodies: "count_rows real_body rows = count_rows (\<lambda>t. \<not> is_shadow t) (map target_of_copy (bodies rows))"
  by (induction rows) (simp_all add: real_body_def is_shadow_def target_of_copy_def)

lemma count_shadow_bodies: "count_rows shadow_body rows = count_rows is_shadow (map target_of_copy (bodies rows))"
  by (induction rows) (simp_all add: shadow_body_def is_shadow_def target_of_copy_def)

text \<open>The counts of an event whose copies are all as they were inserted.\<close>

lemma event_counts_fresh:
  assumes rows: "copies_of db eid = new" and fresh: "\<And>d. d \<in> set new \<Longrightarrow> fresh_copy eid gated d"
    and n: "count_rows real_body new = fo_real fo" "count_rows shadow_body new = fo_shadow fo"
    and w: "withheld db eid False = fo_filtered_real fo" "withheld db eid True = fo_filtered_shadow fo"
  shows "event_counts db eid = fresh_counts fo gated"
proof -
  have real: "count_rows (\<lambda>d. real_body d \<and> P d) new = (if c then fo_real fo else 0)"
    if "\<And>d. fresh_copy eid gated d \<Longrightarrow> d_phase d = Body \<Longrightarrow> P d = c" for P c
    unfolding n(1) [symmetric] by (rule count_rows_guarded) (simp add: that fresh real_body_def)
  have shadow: "count_rows (\<lambda>d. shadow_body d \<and> P d) new = (if c then fo_shadow fo else 0)"
    if "\<And>d. fresh_copy eid gated d \<Longrightarrow> d_phase d = Body \<Longrightarrow> P d = c" for P c
    unfolding n(2) [symmetric] by (rule count_rows_guarded) (simp add: that fresh shadow_body_def)
  have zero: "count_rows P new = 0" if "\<And>d. fresh_copy eid gated d \<Longrightarrow> \<not> P d" for P
    by (rule count_rows_none) (simp add: that fresh)
  have "count_rows (\<lambda>d. real_body d \<and> True) new = fo_real fo"
    "count_rows (\<lambda>d. real_body d \<and> queued_status d) new = fo_real fo"
    "count_rows (\<lambda>d. real_body d \<and> d_release_state d = Some Held) new = (if gated then fo_real fo else 0)"
    "count_rows (\<lambda>d. shadow_body d \<and> True) new = fo_shadow fo"
    "count_rows (\<lambda>d. shadow_body d \<and> queued_status d) new = fo_shadow fo"
    "count_rows (\<lambda>d. shadow_body d \<and> d_release_state d = Some Held) new = (if gated then fo_shadow fo else 0)"
    by (subst real [where c = True] real [where c = gated] shadow [where c = True] shadow [where c = gated];
        simp add: fresh_copy_def queued_status_def)+
  moreover have "count_rows (\<lambda>d. d_relay_chain_id d \<noteq> None \<and> stop_state d) new = 0"
    "count_rows (\<lambda>d. \<not> d_observe_only d \<and> d_phase d = Preview \<and> d_status d = Delivered) new = 0"
    "count_rows (\<lambda>d. d_observe_only d \<and> d_phase d = Preview \<and> d_status d = Delivered) new = 0"
    by (rule zero; simp add: fresh_copy_def stop_state_def)+
  moreover have state: "fresh_copy eid gated d \<Longrightarrow> d_status d = Pending \<and> d_reconcile_state d = Rec_none \<and>
      d_release_state d \<noteq> Some Released" for d
    by (auto simp: fresh_copy_def)
  moreover have "count_rows (\<lambda>d. real_body d \<and> d_status d = st) new = 0"
    "count_rows (\<lambda>d. shadow_body d \<and> d_status d = st) new = 0" if "st \<noteq> Pending" for st
    by (rule zero; use state that in auto)+
  moreover have "count_rows (\<lambda>d. real_body d \<and> d_reconcile_state d = Acknowledged) new = 0"
    "count_rows (\<lambda>d. shadow_body d \<and> d_reconcile_state d = Acknowledged) new = 0"
    "count_rows (\<lambda>d. real_body d \<and> d_release_state d = Some Released) new = 0"
    "count_rows (\<lambda>d. shadow_body d \<and> d_release_state d = Some Released) new = 0"
    "count_rows (\<lambda>d. shadow_body d \<and> (d_status d = Release_denied \<or> d_status d = Release_expired \<or>
       d_status d = Release_voided)) new = 0"
    by (rule zero; use state in auto)+
  ultimately show ?thesis
    unfolding event_counts_def Let_def fresh_counts_def rows w by simp
qed


section \<open>What each routing inserts\<close>

lemma find_destination_bump_any:
  "find_destination (append_delivery x (bump_seq dest db)) i
   = map_option (\<lambda>d. if i = dest then bumped d else d) (find_destination db i)"
proof -
  have "first_row (\<lambda>d. dest_id d = i) (sql_update (\<lambda>d. dest_id d = dest) bumped ds)
    = map_option (\<lambda>d. if i = dest then bumped d else d) (first_row (\<lambda>d. dest_id d = i) ds)" for ds
    by (induction ds) (auto simp: bumped_def)
  then show ?thesis
    by (simp add: find_destination_def bump_seq_def update_destination_row_def append_delivery_def)
qed

definition confirmed_in :: "database \<Rightarrow> target \<Rightarrow> bool" where
  "confirmed_in db t \<longleftrightarrow> (\<exists>d. find_destination db (fst t) = Some d \<and> is_confirmed d)"

lemma confirmed_in_bump: "confirmed_in (append_delivery x (bump_seq dest db)) t = confirmed_in db t"
  unfolding confirmed_in_def find_destination_bump_any
  by (cases "find_destination db (fst t)") (simp_all add: is_confirmed_def bumped_def)

lemma insert_copy_new:
  assumes "insert_copy guard dest row db = Inr db'" and "find_destination db dest = Some d" and "guard d"
  shows "db' = append_delivery (numbered row (bumped d)) (bump_seq dest db)"
  using assms by (auto simp: insert_copy_def Let_def split: if_splits)

lemma append_bump_same [simp]:
  "subscription_filter_evaluations (append_delivery x (bump_seq dest db)) = subscription_filter_evaluations db"
  "events (bump_seq dest db) = events db"
  by (simp_all add: append_delivery_def bump_seq_def update_destination_row_def)

definition copy_from :: "uuid \<Rightarrow> bool \<Rightarrow> event_in \<Rightarrow> delivery \<Rightarrow> bool" where
  "copy_from eid gated b d \<longleftrightarrow> fresh_copy eid gated d \<and>
     (d_phase d = Body \<longrightarrow> d_payload d = in_payload b \<and> d_dedupe_key d = in_dedupe_key b)"

lemma find_destination_id: "find_destination db i = Some d \<Longrightarrow> dest_id d = i"
  by (simp add: find_destination_key)

lemma fan_out_copies_result:
  "fan_out_copies now gen eid b n ts db = Inr db' \<Longrightarrow> list_all (confirmed_in db) ts \<Longrightarrow>
   \<exists>new. deliveries db' = deliveries db @ new \<and>
     subscription_filter_evaluations db' = subscription_filter_evaluations db \<and> events db' = events db \<and>
     list_all (copy_from eid False b) new \<and> map target_of_copy (bodies new) = ts"
proof (induction ts arbitrary: n db)
  case Nil
  then show ?case by simp
next
  case (Cons t ts)
  from Cons.prems(1) obtain db1 where
    1: "insert_copy is_confirmed (fst t) (ordinary_copy now (fst (gen n)) eid b (is_shadow t) (snd (snd t))) db = Inr db1"
    and 2: "fan_out_copies now gen eid b (n + 1) ts db1 = Inr db'"
    by (rule fan_out_copies_step)
  from Cons.prems(2) obtain d where d: "find_destination db (fst t) = Some d" "is_confirmed d"
    by (auto simp: confirmed_in_def)
  define x where "x = numbered (ordinary_copy now (fst (gen n)) eid b (is_shadow t) (snd (snd t))) (bumped d)"
  have db1: "db1 = append_delivery x (bump_seq (fst t) db)"
    unfolding x_def by (rule insert_copy_new [OF 1 d])
  have "list_all (confirmed_in db1) ts"
    using Cons.prems(2) by (simp add: db1 confirmed_in_bump list_all_iff)
  from Cons.IH [OF 2 this] obtain new where new: "deliveries db' = deliveries db1 @ new"
    "subscription_filter_evaluations db' = subscription_filter_evaluations db1" "events db' = events db1"
    "list_all (copy_from eid False b) new" "map target_of_copy (bodies new) = ts" by blast
  have "copy_from eid False b x" "target_of_copy x = t" "d_phase x = Body"
    using find_destination_id [OF d(1)]
    by (simp_all add: x_def numbered_def ordinary_copy_def new_delivery_def copy_from_def fresh_copy_def
        target_of_copy_def bumped_def is_shadow_def)
  with new show ?case
    by (intro exI [of _ "x # new"]) (simp add: db1)
qed

lemma fan_out_pairs_result:
  "fan_out_pairs now gen eid type key payload preview nb dby timeout n ts db = Inr db' \<Longrightarrow>
   \<exists>new. deliveries db' = deliveries db @ new \<and>
     subscription_filter_evaluations db' = subscription_filter_evaluations db \<and> events db' = events db \<and>
     list_all (fresh_copy eid True) new \<and>
     list_all (\<lambda>d. d_phase d = Body \<longrightarrow> d_payload d = payload \<and> d_dedupe_key d = key) new \<and>
     map target_of_copy (bodies new) = ts \<and>
     map target_of_copy (filter (\<lambda>d. d_phase d = Preview) new) = ts"
proof (induction ts arbitrary: n db)
  case Nil
  then show ?case by simp
next
  case (Cons t ts)
  from Cons.prems obtain db1 where 1: "fan_out_pair now (fst (gen n)) (snd (gen n)) eid type key payload preview
      nb dby timeout t db = Inr db1"
    and 2: "fan_out_pairs now gen eid type key payload preview nb dby timeout (n + 1) ts db1 = Inr db'"
    by (auto split: sum.splits)
  obtain dest shadow spec where t: "t = (dest, shadow, spec)" by (cases t)
  from 1[unfolded t] obtain d p c where d: "find_destination db dest = Some d"
    and p: "p = (numbered (preview_copy now (fst (gen n)) eid type key preview nb dby timeout shadow spec) (bumped d))
        \<lparr>d_body_delivery_id := Some (snd (gen n))\<rparr>"
    and c: "c = numbered (body_copy now (snd (gen n)) eid type key payload nb dby timeout shadow spec (fst (gen n)))
        (bumped (bumped d))"
    and rows: "deliveries db1 = deliveries db @ [p, c]"
    by (rule fan_out_pair_result)
  have evals: "subscription_filter_evaluations db1 = subscription_filter_evaluations db" "events db1 = events db"
    using 1 unfolding t fan_out_pair_def
    by (auto simp: insert_one_def insert_copy_def Let_def update_deliveries_def split: sum.splits option.splits if_splits)
  from Cons.IH [OF 2] obtain new where new: "deliveries db' = deliveries db1 @ new"
    "subscription_filter_evaluations db' = subscription_filter_evaluations db1" "events db' = events db1"
    "list_all (fresh_copy eid True) new"
    "list_all (\<lambda>d. d_phase d = Body \<longrightarrow> d_payload d = payload \<and> d_dedupe_key d = key) new"
    "map target_of_copy (bodies new) = ts"
    "map target_of_copy (filter (\<lambda>d. d_phase d = Preview) new) = ts" by blast
  have "d_phase p = Preview" "fresh_copy eid True p" "target_of_copy p = t"
    "d_phase c = Body" "fresh_copy eid True c" "target_of_copy c = t" "d_payload c = payload" "d_dedupe_key c = key"
    using find_destination_id [OF d]
    by (simp_all add: p c numbered_def preview_copy_def body_copy_def new_delivery_def fresh_copy_def
        target_of_copy_def bumped_def t)
  with new show ?case
    by (intro exI [of _ "p # c # new"]) (simp add: rows evals)
qed

lemma fan_out_stations_result:
  "fan_out_stations now gen eid chain key payload nb dby n ds db = Inr db' \<Longrightarrow>
   list_all (\<lambda>i. find_destination db i \<noteq> None) ds \<Longrightarrow>
   \<exists>new. deliveries db' = deliveries db @ new \<and>
     subscription_filter_evaluations db' = subscription_filter_evaluations db \<and> events db' = events db \<and>
     list_all (\<lambda>d. fresh_copy eid False d \<and> d_phase d = Body \<and> \<not> d_observe_only d \<and>
       d_relay_chain_id d = Some (ch_id chain)) new \<and>
     map d_destination_id new = ds \<and>
     map d_relay_station_no new = map Some [n..n + int (length ds) - 1]"
proof (induction ds arbitrary: n db)
  case Nil
  then show ?case by simp
next
  case (Cons dest ds)
  let ?row = "relay_copy now (gen n) eid chain n key payload nb dby"
  from Cons.prems(1) obtain db1 where 1: "insert_copy (\<lambda>_. True) dest ?row db = Inr db1"
    and 2: "fan_out_stations now gen eid chain key payload nb dby (n + 1) ds db1 = Inr db'"
    by (auto split: sum.splits)
  from Cons.prems(2) obtain d where d: "find_destination db dest = Some d" by auto
  define x where "x = numbered ?row (bumped d)"
  have db1: "db1 = append_delivery x (bump_seq dest db)"
    unfolding x_def by (rule insert_copy_new [OF 1 d TrueI])
  have "list_all (\<lambda>i. find_destination db1 i \<noteq> None) ds"
    using Cons.prems(2) by (simp add: db1 find_destination_bump_any list_all_iff)
  from Cons.IH [OF 2 this] obtain new where new: "deliveries db' = deliveries db1 @ new"
    "subscription_filter_evaluations db' = subscription_filter_evaluations db1" "events db' = events db1"
    "list_all (\<lambda>d. fresh_copy eid False d \<and> d_phase d = Body \<and> \<not> d_observe_only d \<and>
       d_relay_chain_id d = Some (ch_id chain)) new"
    "map d_destination_id new = ds" "map d_relay_station_no new = map Some [n + 1..n + 1 + int (length ds) - 1]"
    by blast
  have x: "fresh_copy eid False x" "d_phase x = Body" "\<not> d_observe_only x" "d_relay_chain_id x = Some (ch_id chain)"
    "d_destination_id x = dest" "d_relay_station_no x = Some n"
    using find_destination_id [OF d]
    by (simp_all add: x_def numbered_def relay_copy_def new_delivery_def fresh_copy_def bumped_def)
  have "[n..n + int (length (dest # ds)) - 1] = n # [n + 1..n + 1 + int (length ds) - 1]"
    by (subst upto_rec1) (simp_all add: algebra_simps)
  with new x show ?case
    by (intro exI [of _ "x # new"]) (simp add: db1)
qed

section \<open>The judgements of an event\<close>

definition judged_before :: "database \<Rightarrow> uuid \<Rightarrow> uuid set" where
  "judged_before db eid = fe_destination_id ` {f \<in> set (subscription_filter_evaluations db). fe_event_id f = eid}"

lemma insert_evaluation_new:
  assumes "fe_event_id f = eid" and "fe_destination_id f \<notin> judged_before db eid"
  shows "subscription_filter_evaluations (insert_evaluation f db) = subscription_filter_evaluations db @ [f]"
proof -
  have "\<not> list_ex (\<lambda>g. fe_event_id g = fe_event_id f \<and> fe_destination_id g = fe_destination_id f)
      (subscription_filter_evaluations db)"
  proof
    assume "list_ex (\<lambda>g. fe_event_id g = fe_event_id f \<and> fe_destination_id g = fe_destination_id f)
      (subscription_filter_evaluations db)"
    then obtain g where "g \<in> set (subscription_filter_evaluations db)" "fe_event_id g = eid"
        "fe_destination_id g = fe_destination_id f"
      using assms(1) by (auto simp: list_ex_iff)
    then have "fe_destination_id f \<in> judged_before db eid"
      unfolding judged_before_def by (metis (mono_tags, lifting) imageI mem_Collect_eq)
    with assms(2) show False ..
  qed
  then show ?thesis unfolding insert_evaluation_def by (simp only: if_False) simp
qed

lemma evaluation_row_simps [simp]:
  "fe_event_id (evaluation_row eid type t spec matched) = eid"
  "fe_destination_id (evaluation_row eid type t spec matched) = fst t"
  "fe_matched (evaluation_row eid type t spec matched) = matched"
  "fe_observe_only (evaluation_row eid type t spec matched) = is_shadow t"
  by (simp_all add: evaluation_row_def is_shadow_def)

lemma judged_before_append:
  assumes "subscription_filter_evaluations db' = subscription_filter_evaluations db @ [f]" and "fe_event_id f = eid"
  shows "judged_before db' eid = insert (fe_destination_id f) (judged_before db eid)"
proof -
  have "{g \<in> set (subscription_filter_evaluations db'). fe_event_id g = eid}
    = insert f {g \<in> set (subscription_filter_evaluations db). fe_event_id g = eid}"
    using assms by auto
  then show ?thesis by (simp add: judged_before_def)
qed

lemma route_withheld:
  "route_subscribers eid type payload ts r db = Some (r', db') \<Longrightarrow> distinct (map fst ts) \<Longrightarrow>
   fst ` set ts \<inter> judged_before db eid = {} \<Longrightarrow>
   withheld db' eid False - ro_filtered_real r' = withheld db eid False - ro_filtered_real r \<and>
   withheld db' eid True - ro_filtered_shadow r' = withheld db eid True - ro_filtered_shadow r"
proof (induction ts arbitrary: r db)
  case Nil
  then show ?case by simp
next
  case (Cons t ts)
  from Cons.prems(1) show ?case
  proof (cases rule: route_step)
    case plain
    with Cons.IH [OF plain(2)] Cons.prems(2,3) show ?thesis by simp
  next
    case (judged spec matched)
    let ?f = "evaluation_row eid type t spec matched"
    have evals: "subscription_filter_evaluations (insert_evaluation ?f db) = subscription_filter_evaluations db @ [?f]"
      by (rule insert_evaluation_new [of _ eid]) (use Cons.prems(3) in simp_all)
    then have "judged_before (insert_evaluation ?f db) eid = insert (fst t) (judged_before db eid)"
      by (simp add: judged_before_append)
    then have "fst ` set ts \<inter> judged_before (insert_evaluation ?f db) eid = {}"
      using Cons.prems(2,3) by auto
    moreover have "withheld (insert_evaluation ?f db) eid False
        = withheld db eid False + (if \<not> matched \<and> \<not> is_shadow t then 1 else 0)"
      "withheld (insert_evaluation ?f db) eid True
        = withheld db eid True + (if \<not> matched \<and> is_shadow t then 1 else 0)"
      by (simp_all add: withheld_def evals)
    ultimately show ?thesis
      using Cons.IH [OF judged(3)] Cons.prems(2) by (auto split: if_splits)
  qed
qed

section \<open>The subscribers of a type\<close>

lemma target_of_Some:
  "target_of db s = Some t \<Longrightarrow> fst t = s_destination_id s \<and> confirmed_in db t"
  by (auto simp: target_of_def confirmed_in_def find_destination_id split: option.splits if_splits)

lemma map_filter_distinct:
  assumes "\<And>x y. x \<in> set xs \<Longrightarrow> f x = Some y \<Longrightarrow> k y = j x" and "distinct (map j xs)"
  shows "distinct (map k (List.map_filter f xs))"
  using assms
proof (induction xs)
  case Nil
  then show ?case by (simp add: map_filter_simps)
next
  case (Cons x xs)
  have "k ` set (List.map_filter f xs) \<subseteq> j ` set xs"
    using Cons.prems(1) by (fastforce simp: map_filter_def image_iff)
  moreover have "k y = j x" if "f x = Some y" for y using Cons.prems(1) that by simp
  moreover have "distinct (map k (List.map_filter f xs))" using Cons by simp
  ultimately show ?case
    using Cons.prems(2) by (cases "f x") (auto simp: map_filter_simps)
qed

lemma subscribers_confirmed: "t \<in> set (subscribers db type) \<Longrightarrow> confirmed_in db t"
  by (auto simp: subscribers_def map_filter_def dest: target_of_Some)

lemma subscribers_distinct:
  assumes "subscription_keys (destination_subscriptions db)"
  shows "distinct (map fst (subscribers db type))"
proof -
  have "distinct (map s_destination_id (filter (\<lambda>s. s_event_type s = type) rows))" if "subscription_keys rows" for rows
    using that by (induction rows) (auto simp: subscription_keys_def)
  then have "distinct (map fst (List.map_filter (target_of db)
      (filter (\<lambda>s. s_event_type s = type) (destination_subscriptions db))))"
    by (intro map_filter_distinct [where j = s_destination_id]) (auto dest: target_of_Some simp: assms)
  then show ?thesis
    by (simp add: subscribers_def order_by_def distinct_map)
qed

section \<open>What a first push stores\<close>

text \<open>
  The foreign keys and unique keys the routing relies on: a copy and a judgement belong to a
  stored event, a station to a stored destination, and a destination subscribes to a type once.
\<close>

definition references_ok :: "database \<Rightarrow> bool" where
  "references_ok db \<longleftrightarrow>
     (\<forall>d \<in> set (deliveries db). \<forall>e. d_event_id d = Some e \<longrightarrow> find_event db e \<noteq> None) \<and>
     (\<forall>f \<in> set (subscription_filter_evaluations db). find_event db (fe_event_id f) \<noteq> None) \<and>
     (\<forall>s \<in> set (relay_chain_stations db). find_destination db (st_destination_id s) \<noteq> None) \<and>
     subscription_keys (destination_subscriptions db)"

lemma references_no_copies: "references_ok db \<Longrightarrow> find_event db eid = None \<Longrightarrow> copies_of db eid = []"
  by (fastforce simp: references_ok_def copies_of_def filter_empty_conv)

lemma references_not_judged: "references_ok db \<Longrightarrow> find_event db eid = None \<Longrightarrow> judged_before db eid = {}"
  by (force simp: references_ok_def judged_before_def)

lemma withheld_none: "judged_before db eid = {} \<Longrightarrow> withheld db eid shadow = 0"
  by (auto simp: withheld_def judged_before_def intro!: count_rows_none)

text \<open>The same facts for a database that differs by the inserted event row only.\<close>

lemma same_tables:
  assumes "deliveries db1 = deliveries db" "destinations db1 = destinations db"
    "subscription_filter_evaluations db1 = subscription_filter_evaluations db"
    "destination_subscriptions db1 = destination_subscriptions db"
  shows "copies_of db1 eid = copies_of db eid" "judged_before db1 eid = judged_before db eid"
    "find_destination db1 i = find_destination db i" "confirmed_in db1 t = confirmed_in db t"
    "subscribers db1 type = subscribers db type" "withheld db1 eid shadow = withheld db eid shadow"
proof -
  show dest: "find_destination db1 i = find_destination db i" for i
    by (simp add: find_destination_def assms)
  have "target_of db1 = target_of db"
    by (rule ext) (simp add: target_of_def dest)
  then show "subscribers db1 type = subscribers db type"
    by (simp add: subscribers_def assms)
  show "copies_of db1 eid = copies_of db eid" "judged_before db1 eid = judged_before db eid"
    "confirmed_in db1 t = confirmed_in db t" "withheld db1 eid shadow = withheld db eid shadow"
    by (simp_all add: copies_of_def judged_before_def confirmed_in_def withheld_def dest assms)
qed

lemma copies_of_append:
  assumes "deliveries db' = deliveries db @ new" and "copies_of db eid = []"
    and "\<And>d. d \<in> set new \<Longrightarrow> d_event_id d = Some eid"
  shows "copies_of db' eid = new"
  using assms by (simp add: copies_of_def)

lemma fresh_copy_event: "fresh_copy eid gated d \<Longrightarrow> d_event_id d = Some eid"
  by (simp add: fresh_copy_def)

lemma is_shadow_fun:
  "(\<lambda>(_, shadow, _). shadow) = is_shadow" "(\<lambda>(_, shadow, _). \<not> shadow) = (\<lambda>t. \<not> is_shadow t)"
  by (auto simp: fun_eq_iff is_shadow_def)

text \<open>Fan-out to subscribers, ordinary or gated.\<close>

lemma fan_out_subscribers_result:
  assumes out: "fan_out_subscribers now gen eid b policy preview db = Inr (fo, db')"
    and keys: "subscription_keys (destination_subscriptions db)"
    and none: "judged_before db eid = {}"
  obtains new where "deliveries db' = deliveries db @ new" "events db' = events db"
    "list_all (fresh_copy eid (policy \<noteq> None)) new"
    "list_all (\<lambda>d. d_phase d = Body \<longrightarrow> d_payload d = in_payload b \<and> d_dedupe_key d = in_dedupe_key b) new"
    "map target_of_copy (bodies new) = filter (passes (in_payload b)) (subscribers db (in_event_type b))"
    "count_rows real_body new = fo_real fo" "count_rows shadow_body new = fo_shadow fo"
    "withheld db' eid False = fo_filtered_real fo" "withheld db' eid True = fo_filtered_shadow fo"
    "fo_disposition fo = disposition_of (map target_of_copy (bodies new)) (subscribers db (in_event_type b))
       (total_subscribers db (in_event_type b))"
  using out
proof (cases rule: fan_out_subscribers_step)
  case (1 r db1)
  let ?subs = "subscribers db (in_event_type b)"
  note routed = route_subscribers_result [OF 1(1)]
  have targets: "ro_targets r = filter (passes (in_payload b)) ?subs" using routed by simp
  have "distinct (map fst ?subs)" using keys by (rule subscribers_distinct)
  then have w: "withheld db1 eid False = ro_filtered_real r" "withheld db1 eid True = ro_filtered_shadow r"
    using route_withheld [OF 1(1)] none withheld_none [OF none] by simp_all
  have "confirmed_in db1 t = confirmed_in db t" for t
    using routed by (simp add: confirmed_in_def find_destination_def)
  then have conf: "list_all (confirmed_in db1) (ro_targets r)"
    using subscribers_confirmed by (auto simp: list_all_iff targets)
  have "\<exists>new. deliveries db' = deliveries db1 @ new \<and> events db' = events db1 \<and>
      subscription_filter_evaluations db' = subscription_filter_evaluations db1 \<and>
      list_all (fresh_copy eid (policy \<noteq> None)) new \<and>
      list_all (\<lambda>d. d_phase d = Body \<longrightarrow> d_payload d = in_payload b \<and> d_dedupe_key d = in_dedupe_key b) new \<and>
      map target_of_copy (bodies new) = ro_targets r \<and>
      fo_real fo = count_rows (\<lambda>t. \<not> is_shadow t) (ro_targets r) \<and> fo_shadow fo = count_rows is_shadow (ro_targets r)"
  proof (cases policy)
    case None
    with 1(2) have "fan_out_copies now gen eid b 0 (ro_targets r) db1 = Inr db'"
      and n: "fo_real fo = count_rows (\<lambda>t. \<not> is_shadow t) (ro_targets r)" "fo_shadow fo = count_rows is_shadow (ro_targets r)"
      by (auto simp: fan_out_routed_def split: sum.splits)
    from fan_out_copies_result [OF this(1) conf] show ?thesis
      unfolding n by (auto simp: None copy_from_def list_all_iff)
  next
    case (Some p)
    with 1(2) have "fan_out_pairs now gen eid (in_event_type b) (in_dedupe_key b) (in_payload b) preview
        (in_not_before b) (in_deliver_by b) (p_consent_timeout_seconds p) 0 (ro_targets r) db1 = Inr db'"
      and n: "fo_real fo = count_rows (\<lambda>t. \<not> is_shadow t) (ro_targets r)" "fo_shadow fo = count_rows is_shadow (ro_targets r)"
      by (auto simp: fan_out_routed_def fan_out_gated_event_def is_shadow_fun split: sum.splits)
    from fan_out_pairs_result [OF this(1)] show ?thesis
      unfolding n by (auto simp: Some)
  qed
  then obtain new where new: "deliveries db' = deliveries db1 @ new" "events db' = events db1"
      "subscription_filter_evaluations db' = subscription_filter_evaluations db1"
      "list_all (fresh_copy eid (policy \<noteq> None)) new"
      "list_all (\<lambda>d. d_phase d = Body \<longrightarrow> d_payload d = in_payload b \<and> d_dedupe_key d = in_dedupe_key b) new"
      "map target_of_copy (bodies new) = ro_targets r"
      "fo_real fo = count_rows (\<lambda>t. \<not> is_shadow t) (ro_targets r)" "fo_shadow fo = count_rows is_shadow (ro_targets r)"
    by blast
  show thesis
    by (rule that [of new])
      (use new w routed 1(3-5) in \<open>simp_all add: targets withheld_def count_real_bodies count_shadow_bodies\<close>)
qed


text \<open>Fan-out along a chain.\<close>

lemma fan_out_chain_result:
  assumes out: "fan_out_chain now gen eid b chain db = Inr (fo, db')"
    and found: "list_all (\<lambda>s. find_destination db (st_destination_id s) \<noteq> None) (snd chain)"
    and none: "judged_before db eid = {}"
  obtains new where "deliveries db' = deliveries db @ new" "events db' = events db"
    "list_all (fresh_copy eid False) new"
    "map d_destination_id new = map st_destination_id (snd chain)"
    "map d_relay_station_no new = map Some [1..int (length (snd chain))]"
    "count_rows real_body new = fo_real fo" "count_rows shadow_body new = fo_shadow fo"
    "withheld db' eid False = fo_filtered_real fo" "withheld db' eid True = fo_filtered_shadow fo"
proof -
  have fo: "fo_real fo = int (length (snd chain))" "fo_shadow fo = 0" "fo_filtered_real fo = 0" "fo_filtered_shadow fo = 0"
    using fan_out_chain_step(2) [OF out] by simp_all
  obtain gid where "fan_out_stations now gid eid (fst chain) (in_dedupe_key b) (in_payload b)
      (in_not_before b) (in_deliver_by b) 1 (map st_destination_id (snd chain)) db = Inr db'"
    using fan_out_chain_step(1) [OF out] unfolding fan_out_relay_event_def by blast
  from fan_out_stations_result [OF this] found obtain new where new: "deliveries db' = deliveries db @ new"
      "subscription_filter_evaluations db' = subscription_filter_evaluations db" "events db' = events db"
      "list_all (\<lambda>d. fresh_copy eid False d \<and> d_phase d = Body \<and> \<not> d_observe_only d \<and>
        d_relay_chain_id d = Some (ch_id (fst chain))) new"
      "map d_destination_id new = map st_destination_id (snd chain)"
      "map d_relay_station_no new = map Some [1..1 + int (length (map st_destination_id (snd chain))) - 1]"
    by (auto simp: list_all_iff)
  have "count_rows real_body new = int (length new)"
    using new(4) by (induction new) (auto simp: real_body_def count_rows_def)
  moreover have "count_rows shadow_body new = 0"
    using new(4) by (intro count_rows_none) (auto simp: shadow_body_def list_all_iff)
  moreover have "length new = length (snd chain)" using new(5) by (metis length_map)
  moreover have "withheld db' eid shadow = 0" for shadow
    using withheld_none [OF none] new(2) by (simp add: withheld_def)
  ultimately show thesis
    by (intro that [of new]) (use new fo in \<open>simp_all add: list_all_iff\<close>)
qed

definition routed_as_required :: "database \<Rightarrow> event_in \<Rightarrow> delivery list \<Rightarrow> bool" where
  "routed_as_required db b rows \<longleftrightarrow>
     (case get_active_chain db (in_event_type b) of
        Some chain \<Rightarrow> map d_destination_id rows = map st_destination_id (snd chain) \<and>
          map d_relay_station_no rows = map Some [1..int (length (snd chain))]
      | None \<Rightarrow> map target_of_copy (bodies rows)
          = filter (passes (in_payload b)) (subscribers db (in_event_type b)))"

lemma active_chain_gate:
  assumes "gate_exclusive db" and "get_active_chain db type = Some c"
  shows "get_policy db type = None"
proof -
  from assms(2) obtain row where "row \<in> set (relay_chains db)" "ch_event_type row = type" "ch_active row"
    by (auto simp: get_active_chain_def active_chain_row_def dest!: first_row_Some split: option.splits)
  then have "p_event_type p \<noteq> type" if "p \<in> set (event_type_preview_policies db)" for p
    using assms(1) that unfolding gate_exclusive_def by blast
  then show ?thesis
    by (simp add: get_policy_def first_row_None)
qed

lemma chain_stations_found:
  "references_ok db \<Longrightarrow> get_active_chain db type = Some c \<Longrightarrow>
   list_all (\<lambda>s. find_destination db (st_destination_id s) \<noteq> None) (snd c)"
  by (auto simp: references_ok_def get_active_chain_def chain_stations_def list_all_iff split: option.splits)

lemma fan_out_event_result:
  assumes out: "fan_out_event now gen eid b (get_policy db (in_event_type b)) preview
      (get_active_chain db (in_event_type b)) db1 = Inr (fo, db2)"
    and same: "deliveries db1 = deliveries db" "destinations db1 = destinations db"
      "subscription_filter_evaluations db1 = subscription_filter_evaluations db"
      "destination_subscriptions db1 = destination_subscriptions db"
    and refs: "references_ok db" and fresh: "find_event db eid = None" and gate: "gate_exclusive db"
  obtains new where "deliveries db2 = deliveries db @ new" "events db2 = events db1"
    "list_all (fresh_copy eid (get_policy db (in_event_type b) \<noteq> None)) new"
    "routed_as_required db b new"
    "count_rows real_body new = fo_real fo" "count_rows shadow_body new = fo_shadow fo"
    "withheld db2 eid False = fo_filtered_real fo" "withheld db2 eid True = fo_filtered_shadow fo"
proof (cases "get_active_chain db (in_event_type b)")
  case None
  have keys: "subscription_keys (destination_subscriptions db1)" and none: "judged_before db1 eid = {}"
    using refs references_not_judged [OF refs fresh] same_tables(2) [OF same] by (simp_all add: references_ok_def same)
  have "fan_out_subscribers now gen eid b (get_policy db (in_event_type b)) preview db1 = Inr (fo, db2)"
    using out None by (simp add: fan_out_event_def)
  from fan_out_subscribers_result [OF this keys none] obtain new where
      new: "deliveries db2 = deliveries db1 @ new" "events db2 = events db1"
      "list_all (fresh_copy eid (get_policy db (in_event_type b) \<noteq> None)) new"
      "map target_of_copy (bodies new) = filter (passes (in_payload b)) (subscribers db1 (in_event_type b))"
      "count_rows real_body new = fo_real fo" "count_rows shadow_body new = fo_shadow fo"
      "withheld db2 eid False = fo_filtered_real fo" "withheld db2 eid True = fo_filtered_shadow fo"
    by blast
  from new(4) have "routed_as_required db b new"
    by (simp add: routed_as_required_def None same_tables(5) [OF same])
  with new show thesis by (intro that [of new]) (simp_all only: same)
next
  case (Some c)
  have found: "list_all (\<lambda>s. find_destination db1 (st_destination_id s) \<noteq> None) (snd c)" and none: "judged_before db1 eid = {}"
    using chain_stations_found [OF refs Some] references_not_judged [OF refs fresh]
    by (simp_all only: same_tables [OF same])
  have "fan_out_chain now gen eid b c db1 = Inr (fo, db2)"
    using out Some by (simp add: fan_out_event_def)
  from fan_out_chain_result [OF this found none] obtain new where
      new: "deliveries db2 = deliveries db1 @ new" "events db2 = events db1"
      "list_all (fresh_copy eid False) new"
      "map d_destination_id new = map st_destination_id (snd c)"
      "map d_relay_station_no new = map Some [1..int (length (snd c))]"
      "count_rows real_body new = fo_real fo" "count_rows shadow_body new = fo_shadow fo"
      "withheld db2 eid False = fo_filtered_real fo" "withheld db2 eid True = fo_filtered_shadow fo"
    by blast
  from new(4,5) have "routed_as_required db b new"
    by (simp add: routed_as_required_def Some)
  with new active_chain_gate [OF gate Some] show thesis
    by (intro that [of new]) (simp_all add: same)
qed

text \<open>
  A first push: the new copies are those its routing asks for, and the response built without
  asking the database is the view the counts would give.
\<close>

lemma first_row_update_last:
  assumes "\<And>e. e \<in> set es \<Longrightarrow> e_id e \<noteq> i" and "e_id row = i" and "\<And>e. e_id (f e) = e_id e"
  shows "first_row (\<lambda>e. e_id e = i) (sql_update (\<lambda>e. e_id e = i) f (es @ [row])) = Some (f row)"
  using assms by (induction es) auto

lemma store_event_stored:
  assumes st: "store_event now eid gen b source t db = (Inr (rep, 201), db')"
    and refs: "references_ok db" and gate: "gate_exclusive db"
  shows "deliveries db' = deliveries db @ copies_of db' eid" "routed_as_required db b (copies_of db' eid)"
    "list_all (fresh_copy eid (get_policy db (in_event_type b) \<noteq> None)) (copies_of db' eid)"
    "find_event db' eid = Some (rep_event rep)" "view_event db' eid = Some (rep_view rep)"
proof -
  obtain fo db2 row preview required where
    fresh: "find_event db eid = None"
    and row: "row = event_row now eid source b preview"
    and out: "fan_out_event now gen eid b (get_policy db (in_event_type b)) preview
       (get_active_chain db (in_event_type b)) (db\<lparr>events := events db @ [row]\<rparr>) = Inr (fo, db2)"
    and db': "db' = log_attempt now (fo_disposition fo) (Some (src_id source)) (Some (src_name source)) (Some eid)
       (Some (in_dedupe_key b)) (Some (in_event_type b)) (Some t)
       (update_event_row eid (\<lambda>e. e\<lparr>e_required_ack_count := Some required\<rparr>) db2)"
    and rep: "rep_event rep = row\<lparr>e_required_ack_count := Some required\<rparr>"
    and view: "rep_view rep = event_response (row\<lparr>e_required_ack_count := Some required\<rparr>)
       (fresh_counts fo (get_policy db (in_event_type b) \<noteq> None))"
    by (rule store_event_created [OF st]) (rule that, assumption+)
  define db1 where "db1 = db\<lparr>events := events db @ [row]\<rparr>"
  have same: "deliveries db1 = deliveries db" "destinations db1 = destinations db"
      "subscription_filter_evaluations db1 = subscription_filter_evaluations db"
      "destination_subscriptions db1 = destination_subscriptions db" and ev: "events db1 = events db @ [row]"
    by (simp_all add: db1_def)
  from fan_out_event_result [OF out [folded db1_def] same refs fresh gate] obtain new where
    new: "deliveries db2 = deliveries db @ new" "events db2 = events db @ [row]"
    "list_all (fresh_copy eid (get_policy db (in_event_type b) \<noteq> None)) new" "routed_as_required db b new"
    and counts: "count_rows real_body new = fo_real fo" "count_rows shadow_body new = fo_shadow fo"
    "withheld db2 eid False = fo_filtered_real fo" "withheld db2 eid True = fo_filtered_shadow fo"
    unfolding ev by blast
  have rows: "deliveries db' = deliveries db @ new" and evals: "subscription_filter_evaluations db' = subscription_filter_evaluations db2"
    using new(1) by (simp_all add: db' log_attempt_def update_event_row_def)
  have copies: "copies_of db' eid = new"
    using rows references_no_copies [OF refs fresh]
    by (rule copies_of_append) (use new(3) in \<open>auto simp: list_all_iff fresh_copy_event\<close>)
  have "e_id row = eid" by (simp add: row event_row_def)
  moreover have "e_id e \<noteq> eid" if "e \<in> set (events db)" for e
    using fresh that by (simp add: find_event_def first_row_None)
  ultimately have found: "find_event db' eid = Some (rep_event rep)"
    unfolding find_event_def rep db'
    by (simp add: log_attempt_def update_event_row_def new(2) first_row_update_last del: sql_update_simps)
  have "event_counts db' eid = fresh_counts fo (get_policy db (in_event_type b) \<noteq> None)"
    using copies by (rule event_counts_fresh)
      (use new(3) counts evals in \<open>auto simp: list_all_iff withheld_def\<close>)
  with found show "view_event db' eid = Some (rep_view rep)"
    by (simp add: view_event_def view rep)
  show "deliveries db' = deliveries db @ copies_of db' eid" "routed_as_required db b (copies_of db' eid)"
    "list_all (fresh_copy eid (get_policy db (in_event_type b) \<noteq> None)) (copies_of db' eid)"
    "find_event db' eid = Some (rep_event rep)"
    using rows copies new found by simp_all
qed

section \<open>Idempotence, admission and the logged disposition\<close>

lemma store_event_key:
  assumes st: "store_event now eid gen b source t db = (Inr (rep, 201), db')"
    and refs: "references_ok db" and gate: "gate_exclusive db"
    and unique: "\<And>e e'. e \<in> set (events db') \<Longrightarrow> e' \<in> set (events db') \<Longrightarrow> e_dedupe_key e = e_dedupe_key e' \<Longrightarrow> e = e'"
  shows "find_event_by_key db' (in_dedupe_key b) = Some (rep_event rep)"
proof -
  have key: "e_dedupe_key (rep_event rep) = in_dedupe_key b"
    by (rule store_event_created [OF st]) (simp add: event_row_def)
  have mem: "rep_event rep \<in> set (events db')"
    using store_event_stored(4) [OF st refs gate] by (simp add: find_event_key)
  show ?thesis
  proof (cases "find_event_by_key db' (in_dedupe_key b)")
    case None
    with key mem show ?thesis by (auto simp: find_event_by_key_def first_row_None)
  next
    case (Some e)
    then have "e \<in> set (events db')" "e_dedupe_key e = in_dedupe_key b"
      by (auto simp: find_event_by_key_def dest: first_row_Some)
    with unique [OF this(1) mem] key Some show ?thesis by simp
  qed
qed

lemma store_event_duplicate:
  assumes "find_event_by_key db (in_dedupe_key b) = Some e" and "jsonb_ok b"
    and "in_preview_payload b = None \<or> get_policy db (in_event_type b) \<noteq> None"
  obtains rep db' where "store_event now eid gen b source t db = (Inr (rep, 200), db')"
    "rep_event rep = e" "rep_duplicate rep" "rep_view rep = event_response e (event_counts db (e_id e))"
    "only_logged db db'"
proof -
  define db' where "db' = log_attempt now Duplicate_event (Some (src_id source)) (Some (src_name source))
    (Some (e_id e)) (Some (in_dedupe_key b)) (Some (in_event_type b)) (Some t) db"
  define rep where "rep = \<lparr>rep_event = e, rep_view = event_response e (event_counts db (e_id e)),
    rep_relay = build_event_relay db (e_id e), rep_duplicate = True\<rparr>"
  have "store_event now eid gen b source t db = (Inr (rep, 200), db')"
    using assms by (auto simp: store_event_def store_duplicate_def Let_def db'_def rep_def)
  then show thesis
    by (rule that) (simp_all add: rep_def db'_def log_attempt_only)
qed

lemma store_event_code:
  "store_event now eid gen b source t db = (Inr (rep, code), db') \<Longrightarrow> code = (if rep_duplicate rep then 200 else 201)"
  by (auto simp: store_event_def store_fresh_def store_duplicate_def Let_def split: if_splits option.splits sum.splits)

lemma create_event_admitted:
  assumes "create_event rt cfg clock now eid gen rq db = (Inr rep, db')"
  obtains s t where "s \<in> set (event_sources db)" "rt_cast_uuid rt (header_value (rq_source_id rq)) = Some (src_id s)"
    "parse_signed_at rt (header_value (rq_signed_at rq)) = Inr t"
    "admissible rt cfg clock (header_value (rq_signed_at rq)) (rq_body rq) (header_value (rq_signature rq)) s t"
  using assms
proof (cases rule: create_event_cases)
  case (stored source t fs b r)
  with authenticate_accepts [OF stored(2)] show thesis by (intro that) auto
qed simp

lemma store_event_disposition:
  assumes st: "store_event now eid gen b source t db = (Inr (rep, 201), db')"
    and chain: "get_active_chain db (in_event_type b) = None"
  shows "ia_disposition (last (ingestion_attempts db'))
    = disposition_of (filter (passes (in_payload b)) (subscribers db (in_event_type b)))
        (subscribers db (in_event_type b)) (total_subscribers db (in_event_type b))"
proof -
  obtain fo db2 row preview required where
    out: "fan_out_event now gen eid b (get_policy db (in_event_type b)) preview
       (get_active_chain db (in_event_type b)) (db\<lparr>events := events db @ [row]\<rparr>) = Inr (fo, db2)"
    and db': "db' = log_attempt now (fo_disposition fo) (Some (src_id source)) (Some (src_name source)) (Some eid)
       (Some (in_dedupe_key b)) (Some (in_event_type b)) (Some t)
       (update_event_row eid (\<lambda>e. e\<lparr>e_required_ack_count := Some required\<rparr>) db2)"
    by (rule store_event_created [OF st]) (rule that, assumption+)
  let ?db1 = "db\<lparr>events := events db @ [row]\<rparr>"
  have "fan_out_subscribers now gen eid b (get_policy db (in_event_type b)) preview ?db1 = Inr (fo, db2)"
    using out by (simp add: fan_out_event_def chain)
  then have "fo_disposition fo = disposition_of
      (filter (passes (in_payload b)) (subscribers ?db1 (in_event_type b))) (subscribers ?db1 (in_event_type b))
      (total_subscribers ?db1 (in_event_type b))"
  proof (cases rule: fan_out_subscribers_step)
    case (1 r db1)
    then show ?thesis using route_subscribers_result [OF 1(1)] by simp
  qed
  moreover have "subscribers ?db1 type = subscribers db type" for type
    by (rule same_tables(5)) simp_all
  ultimately show ?thesis
    by (simp add: db' log_attempt_def total_subscribers_def)
qed

text \<open>The number of acknowledgements asked for never exceeds the for-real bodies of the event.\<close>

lemma store_event_required:
  assumes st: "store_event now eid gen b source t db = (Inr (rep, 201), db')"
    and refs: "references_ok db" and gate: "gate_exclusive db"
  shows "e_required_ack_count (rep_event rep) = Some (required_ack_count_of
      (get_active_chain db (in_event_type b) \<noteq> None) (ack_threshold_of db (in_event_type b))
      (count_rows real_body (copies_of db' eid)))"
proof -
  obtain fo db2 row preview required where fresh: "find_event db eid = None"
    and out: "fan_out_event now gen eid b (get_policy db (in_event_type b)) preview
       (get_active_chain db (in_event_type b)) (db\<lparr>events := events db @ [row]\<rparr>) = Inr (fo, db2)"
    and req: "required = required_ack_count_of (get_active_chain db (in_event_type b) \<noteq> None)
       (ack_threshold_of db (in_event_type b)) (fo_real fo)"
    and rep: "rep_event rep = row\<lparr>e_required_ack_count := Some required\<rparr>"
    and db': "db' = log_attempt now (fo_disposition fo) (Some (src_id source)) (Some (src_name source)) (Some eid)
       (Some (in_dedupe_key b)) (Some (in_event_type b)) (Some t)
       (update_event_row eid (\<lambda>e. e\<lparr>e_required_ack_count := Some required\<rparr>) db2)"
    by (rule store_event_created [OF st]) (rule that, assumption+)
  let ?db1 = "db\<lparr>events := events db @ [row]\<rparr>"
  have same: "deliveries ?db1 = deliveries db" "destinations ?db1 = destinations db"
      "subscription_filter_evaluations ?db1 = subscription_filter_evaluations db"
      "destination_subscriptions ?db1 = destination_subscriptions db" by simp_all
  from fan_out_event_result [OF out same refs fresh gate] obtain new where
    new: "deliveries db2 = deliveries db @ new" "count_rows real_body new = fo_real fo" by blast
  have "deliveries db @ copies_of db' eid = deliveries db @ new"
    using store_event_stored(1) [OF st refs gate] new(1) by (simp add: db' log_attempt_def)
  then show ?thesis using new(2) by (simp add: rep req)
qed

end
