(* ===== verification/Corrections.thy ===== *)
theory Corrections
  imports Ingest_Routing
begin

text \<open>
  POST /v1/events/{id}/corrections of app/main.py: an additional entry of its own that goes to
  exactly the destinations a body of the original event reached, less those whose current
  condition withholds the corrected payload.
\<close>

section \<open>Who is corrected\<close>

definition reached_body :: "uuid \<Rightarrow> delivery \<Rightarrow> bool" where
  "reached_body event d \<longleftrightarrow> d_event_id d = Some event \<and> d_delivered_at d \<noteq> None \<and> d_phase d = Body"

definition current_condition :: "database \<Rightarrow> uuid \<Rightarrow> string \<Rightarrow> json option" where
  "current_condition db dest type =
     (case first_row (\<lambda>s. s_destination_id s = dest \<and> s_event_type s = type) (destination_subscriptions db) of
        None \<Rightarrow> None | Some s \<Rightarrow> s_filter_spec s)"

text \<open>SELECT DISTINCT over the joined rows, in the order of the destination ids.\<close>

definition reached_targets :: "database \<Rightarrow> event \<Rightarrow> target list" where
  "reached_targets db e = order_by fst (remdups
     (map (\<lambda>d. (d_destination_id d, d_observe_only d,
                current_condition db (d_destination_id d) (e_event_type e)))
       (filter (\<lambda>d. reached_body (e_id e) d \<and> find_destination db (d_destination_id d) \<noteq> None)
         (deliveries db))))"

text \<open>Whether a condition withholds the correction: None when the evaluator raises.\<close>

definition target_withheld :: "json \<Rightarrow> target \<Rightarrow> bool option" where
  "target_withheld payload t =
     (case snd (snd t) of None \<Rightarrow> Some False | Some s \<Rightarrow> map_option Not (evaluate s payload))"

definition all_evaluate :: "json \<Rightarrow> target list \<Rightarrow> bool" where
  "all_evaluate payload ts \<longleftrightarrow> list_all (\<lambda>t. target_withheld payload t \<noteq> None) ts"

definition correction_copy ::
  "time \<Rightarrow> uuid \<Rightarrow> uuid \<Rightarrow> string \<Rightarrow> string \<Rightarrow> json \<Rightarrow> bool \<Rightarrow> json option \<Rightarrow> destination \<Rightarrow> delivery" where
  "correction_copy now i cid type key payload shadow spec dest =
     (new_delivery now i cid (dest_id dest) type key payload 0)
       \<lparr>d_observe_only := shadow, d_filter_spec := spec\<rparr>"

fun fan_out_corrections ::
  "time \<Rightarrow> (nat \<Rightarrow> uuid) \<Rightarrow> uuid \<Rightarrow> string \<Rightarrow> string \<Rightarrow> json \<Rightarrow> nat \<Rightarrow> target list \<Rightarrow> database \<Rightarrow>
   api_error + database" where
  "fan_out_corrections now gen cid type key payload n [] db = Inr db"
| "fan_out_corrections now gen cid type key payload n (t # ts) db =
     (case insert_copy (\<lambda>_. True) (fst t)
             (correction_copy now (gen n) cid type key payload (is_shadow t) (snd (snd t))) db of
        Inl err \<Rightarrow> Inl err
      | Inr db' \<Rightarrow> fan_out_corrections now gen cid type key payload (n + 1) ts db')"

definition record_judgement :: "uuid \<Rightarrow> string \<Rightarrow> json \<Rightarrow> target \<Rightarrow> database \<Rightarrow> database" where
  "record_judgement cid type payload t db =
     (case snd (snd t) of
        None \<Rightarrow> db
      | Some s \<Rightarrow> insert_evaluation (evaluation_row cid type t s (target_withheld payload t = Some False)) db)"

section \<open>The request\<close>

definition correction_row :: "time \<Rightarrow> uuid \<Rightarrow> event \<Rightarrow> string \<Rightarrow> json \<Rightarrow> int \<Rightarrow> event" where
  "correction_row now cid e key payload required =
     \<lparr>e_id = cid, e_source_id = e_source_id e, e_event_type = e_event_type e, e_dedupe_key = key,
      e_payload = payload, e_not_before = None, e_deliver_by = None, e_cancelled_at = None,
      e_created_at = now, e_preview_payload = None, e_required_ack_count = Some required,
      e_corrects_event_id = Some (e_id e)\<rparr>"

record correction_reply =
  cr_event :: event
  cr_view :: event_view
  cr_duplicate :: bool
  cr_code :: int

definition correction_duplicate :: "uuid \<Rightarrow> event \<Rightarrow> database \<Rightarrow> api_error + correction_reply \<times> database" where
  "correction_duplicate event existing db =
     (if e_corrects_event_id existing \<noteq> Some event then Inl (Http 409)
      else Inr (\<lparr>cr_event = existing, cr_view = event_response existing (event_counts db (e_id existing)),
                 cr_duplicate = True, cr_code = 200\<rparr>, db))"

definition store_correction ::
  "time \<Rightarrow> uuid \<Rightarrow> (nat \<Rightarrow> uuid) \<Rightarrow> event \<Rightarrow> string \<Rightarrow> json \<Rightarrow> target list \<Rightarrow> target list \<Rightarrow> database \<Rightarrow>
   api_error + correction_reply \<times> database" where
  "store_correction now cid gen e key payload targets routed db =
     (let type = e_event_type e;
          db1 = db\<lparr>events := events db @ [correction_row now cid e key payload 0]\<rparr>
      in case fan_out_corrections now gen cid type key payload 0 routed db1 of
           Inl err \<Rightarrow> Inl err
         | Inr db2 \<Rightarrow>
             let db3 = fold (record_judgement cid type payload) targets db2;
                 bodies = count_rows (\<lambda>t. \<not> is_shadow t) routed;
                 required = required_ack_count_of False (ack_threshold_of db type) bodies;
                 withheld_to = (\<lambda>shadow. count_rows (\<lambda>t. target_withheld payload t = Some True \<and>
                                 is_shadow t = shadow) targets);
                 fo = \<lparr>fo_real = bodies, fo_shadow = count_rows is_shadow routed,
                       fo_filtered_real = withheld_to False, fo_filtered_shadow = withheld_to True,
                       fo_disposition = Accepted\<rparr>;
                 row = correction_row now cid e key payload required
             in Inr (\<lparr>cr_event = row, cr_view = event_response row (fresh_counts fo False),
                      cr_duplicate = False, cr_code = 201\<rparr>,
                     update_event_row cid (\<lambda>x. x\<lparr>e_required_ack_count := Some required\<rparr>) db3))"

definition create_correction ::
  "time \<Rightarrow> uuid \<Rightarrow> (nat \<Rightarrow> uuid) \<Rightarrow> uuid \<Rightarrow> string \<Rightarrow> json \<Rightarrow> database \<Rightarrow>
   api_error + correction_reply \<times> database" where
  "create_correction now cid gen event key payload db =
     (case find_event db event of
        None \<Rightarrow> Inl (Http 404)
      | Some e \<Rightarrow>
          let targets = reached_targets db e;
              routed = filter (\<lambda>t. target_withheld payload t = Some False) targets
          in if targets = [] then Inl (Http 409)
             else if \<not> all_evaluate payload targets then Inl Type_error
             else if routed = [] then Inl (Http 409)
             else if \<not> finite_json payload then Inl Bad_cast
             else (case find_event_by_key db key of
                     Some existing \<Rightarrow> correction_duplicate event existing db
                   | None \<Rightarrow>
                       if find_event db cid \<noteq> None then Inl Constraint_violation
                       else store_correction now cid gen e key payload targets routed db))"

section \<open>The operation keeps the tables\<close>

lemma correction_copy_fresh:
  "0 \<le> dest_next_event_seq d \<Longrightarrow> fresh_row (numbered (correction_copy now i cid type key payload shadow spec) d)"
  by (simp add: numbered_def fresh_row_def correction_copy_def new_delivery_def delivery_check_def copy_shape_def)

lemma fan_out_corrections_step:
  assumes "fan_out_corrections now gen cid type key payload n (t # ts) db = Inr db'"
  obtains db1 where
    "insert_copy (\<lambda>_. True) (fst t)
       (correction_copy now (gen n) cid type key payload (is_shadow t) (snd (snd t))) db = Inr db1"
    "fan_out_corrections now gen cid type key payload (n + 1) ts db1 = Inr db'"
  using assms by (auto split: sum.splits)

lemma fan_out_corrections_keeps:
  "fan_out_corrections now gen cid type key payload n ts db = Inr db' \<Longrightarrow> destinations_ok db \<Longrightarrow> keeps db db'"
proof (induction ts arbitrary: n db)
  case Nil
  then show ?case by simp
next
  case (Cons t ts)
  from Cons.prems(1) obtain db1 where
    1: "insert_copy (\<lambda>_. True) (fst t)
       (correction_copy now (gen n) cid type key payload (is_shadow t) (snd (snd t))) db = Inr db1"
    and 2: "fan_out_corrections now gen cid type key payload (n + 1) ts db1 = Inr db'"
    by (rule fan_out_corrections_step)
  have k: "keeps db db1"
    using 1 Cons.prems(2) by (rule insert_copy_keeps) (rule correction_copy_fresh)
  then have "destinations_ok db1" using Cons.prems(2) by (simp add: keeps_def)
  with Cons.IH [OF 2] have "keeps db1 db'" .
  with k show ?case by (rule keeps_trans)
qed

lemma record_judgement_simps [simp]:
  "deliveries (record_judgement cid type payload t db) = deliveries db"
  "destinations (record_judgement cid type payload t db) = destinations db"
  "events (record_judgement cid type payload t db) = events db"
  by (simp_all add: record_judgement_def split: option.split)

lemma record_judgements_simps [simp]:
  "deliveries (fold (record_judgement cid type payload) ts db) = deliveries db"
  "destinations (fold (record_judgement cid type payload) ts db) = destinations db"
  "events (fold (record_judgement cid type payload) ts db) = events db"
  by (induction ts arbitrary: db) simp_all

lemma store_correction_step:
  assumes "store_correction now cid gen e key payload targets routed db = Inr (r, db')"
  obtains db2 where
    "fan_out_corrections now gen cid (e_event_type e) key payload 0 routed
       (db\<lparr>events := events db @ [correction_row now cid e key payload 0]\<rparr>) = Inr db2"
    "deliveries db' = deliveries db2" "destinations db' = destinations db2"
    "cr_duplicate r = False" "e_corrects_event_id (cr_event r) = Some (e_id e)"
  using assms unfolding store_correction_def Let_def
  by (auto simp: correction_row_def split: sum.splits)

lemma create_correction_cases:
  assumes "create_correction now cid gen event key payload db = Inr (r, db')"
  obtains (duplicate) existing where "find_event_by_key db key = Some existing"
      "e_corrects_event_id existing = Some event" "cr_event r = existing" "cr_duplicate r" "db' = db"
  | (created) e targets routed where "find_event db event = Some e" "targets = reached_targets db e"
      "routed = filter (\<lambda>t. target_withheld payload t = Some False) targets"
      "targets \<noteq> []" "all_evaluate payload targets" "routed \<noteq> []"
      "find_event_by_key db key = None" "find_event db cid = None"
      "store_correction now cid gen e key payload targets routed db = Inr (r, db')"
  using assms
  by (auto simp: create_correction_def correction_duplicate_def Let_def
      split: option.splits if_splits)

lemma create_correction_keeps:
  assumes "create_correction now cid gen event key payload db = Inr (r, db')" and "destinations_ok db"
  shows "keeps db db'"
  using assms(1)
proof (cases rule: create_correction_cases)
  case (duplicate existing)
  then show ?thesis by simp
next
  case (created e targets routed)
  from store_correction_step [OF created(9)] obtain db2 where
    out: "fan_out_corrections now gen cid (e_event_type e) key payload 0 routed
       (db\<lparr>events := events db @ [correction_row now cid e key payload 0]\<rparr>) = Inr db2"
    and same: "deliveries db' = deliveries db2" "destinations db' = destinations db2" by blast
  have "keeps (db\<lparr>events := events db @ [correction_row now cid e key payload 0]\<rparr>) db2"
    using out by (rule fan_out_corrections_keeps) (simp add: destinations_ok_def assms(2) [unfolded destinations_ok_def])
  moreover have "keeps db (db\<lparr>events := events db @ [correction_row now cid e key payload 0]\<rparr>)"
    by (rule keeps_same) simp_all
  moreover have "keeps db2 db'" using same by (rule keeps_same)
  ultimately show ?thesis by (meson keeps_trans)
qed

interpretation correction: delivery_operation
  "\<lambda>db. committed (create_correction now cid gen event key payload db) db"
  for now cid gen event key payload
  by unfold_locales (rule keeps_committed, erule create_correction_keeps, blast)

section \<open>What a correction sends\<close>

lemma fan_out_corrections_result:
  "fan_out_corrections now gen cid type key payload n ts db = Inr db' \<Longrightarrow>
   list_all (\<lambda>t. find_destination db (fst t) \<noteq> None) ts \<Longrightarrow>
   \<exists>new. deliveries db' = deliveries db @ new \<and> map target_of_copy new = ts \<and>
     list_all (\<lambda>d. fresh_copy cid False d \<and> d_phase d = Body \<and> d_payload d = payload \<and>
       d_dedupe_key d = key \<and> d_event_type d = Some type) new"
proof (induction ts arbitrary: n db)
  case Nil
  then show ?case by simp
next
  case (Cons t ts)
  let ?row = "correction_copy now (gen n) cid type key payload (is_shadow t) (snd (snd t))"
  from Cons.prems(1) obtain db1 where 1: "insert_copy (\<lambda>_. True) (fst t) ?row db = Inr db1"
    and 2: "fan_out_corrections now gen cid type key payload (n + 1) ts db1 = Inr db'"
    by (rule fan_out_corrections_step)
  from Cons.prems(2) obtain d where d: "find_destination db (fst t) = Some d" by auto
  define x where "x = numbered ?row (bumped d)"
  have db1: "db1 = append_delivery x (bump_seq (fst t) db)"
    unfolding x_def by (rule insert_copy_new [OF 1 d TrueI])
  have "list_all (\<lambda>t. find_destination db1 (fst t) \<noteq> None) ts"
    using Cons.prems(2) by (simp add: db1 find_destination_bump_any list_all_iff)
  from Cons.IH [OF 2 this] obtain new where new: "deliveries db' = deliveries db1 @ new"
    "map target_of_copy new = ts" "list_all (\<lambda>d. fresh_copy cid False d \<and> d_phase d = Body \<and>
       d_payload d = payload \<and> d_dedupe_key d = key \<and> d_event_type d = Some type) new"
    by blast
  have x: "fresh_copy cid False x" "d_phase x = Body" "d_payload x = payload" "d_dedupe_key x = key"
    "d_event_type x = Some type" "target_of_copy x = t"
    using find_destination_id [OF d]
    by (simp_all add: x_def numbered_def correction_copy_def new_delivery_def fresh_copy_def bumped_def
        target_of_copy_def is_shadow_def)
  with new show ?case
    by (intro exI [of _ "x # new"]) (simp add: db1)
qed

lemma reached_targets_mem:
  assumes "t \<in> set (reached_targets db e)"
  obtains d where "d \<in> set (deliveries db)" "reached_body (e_id e) d" "d_destination_id d = fst t"
    "d_observe_only d = is_shadow t" "find_destination db (fst t) \<noteq> None"
  using assms by (auto simp: reached_targets_def is_shadow_def)

lemma target_withheld_passes: "target_withheld payload t = Some False \<longleftrightarrow> passes payload t"
  by (auto simp: target_withheld_def passes_def split: option.split)

text \<open>
  An accepted correction leaves every existing copy as it was and appends one copy for each
  destination that received the original and whose condition lets the correction through.
\<close>

lemma create_correction_created:
  assumes "create_correction now cid gen event key payload db = Inr (r, db')" and "\<not> cr_duplicate r"
  obtains e new where "find_event db event = Some e" "deliveries db' = deliveries db @ new"
    "map target_of_copy new = filter (passes payload) (reached_targets db e)" "new \<noteq> []"
    "list_all (\<lambda>d. fresh_copy cid False d \<and> d_phase d = Body \<and> d_payload d = payload \<and>
       d_dedupe_key d = key \<and> d_event_type d = Some (e_event_type e)) new"
  using assms(1)
proof (cases rule: create_correction_cases)
  case (duplicate existing)
  with assms(2) show thesis by simp
next
  case (created e targets routed)
  from store_correction_step [OF created(9)] obtain db2 where
    out: "fan_out_corrections now gen cid (e_event_type e) key payload 0 routed
       (db\<lparr>events := events db @ [correction_row now cid e key payload 0]\<rparr>) = Inr db2"
    and same: "deliveries db' = deliveries db2" by blast
  have routed: "routed = filter (passes payload) (reached_targets db e)"
    by (simp add: created(2,3) target_withheld_passes)
  have "list_all (\<lambda>t. find_destination db (fst t) \<noteq> None) routed"
    by (auto simp: routed list_all_iff elim: reached_targets_mem)
  with fan_out_corrections_result [OF out] obtain new where
    "deliveries db2 = deliveries db @ new" "map target_of_copy new = routed"
    "list_all (\<lambda>d. fresh_copy cid False d \<and> d_phase d = Body \<and> d_payload d = payload \<and>
       d_dedupe_key d = key \<and> d_event_type d = Some (e_event_type e)) new"
    by (auto simp: find_destination_def)
  with created(1,6) same routed show thesis by (intro that [of e new]) auto
qed

text \<open>Nothing delivered, nothing corrected: no event, no copy and no used-up key.\<close>

lemma create_correction_nothing_sent:
  assumes "find_event db event = Some e"
    and "\<And>d. d \<in> set (deliveries db) \<Longrightarrow> d_event_id d = Some event \<Longrightarrow> d_phase d = Body \<Longrightarrow> d_delivered_at d = None"
  shows "create_correction now cid gen event key payload db = Inl (Http 409)"
proof -
  have "filter (\<lambda>d. reached_body (e_id e) d \<and> find_destination db (d_destination_id d) \<noteq> None) (deliveries db) = []"
    using assms find_event_key [OF assms(1)] by (auto simp: reached_body_def filter_empty_conv)
  then have "reached_targets db e = []"
    by (simp add: reached_targets_def order_by_def)
  then show ?thesis by (simp add: create_correction_def assms(1) Let_def)
qed

end
