(* ===== verification/Operations.thy ===== *)
theory Operations
  imports Corrections
begin

text \<open>
  The remaining requests of app/main.py that change state: registration and editing of
  destinations, pause windows, recovery, sources, thresholds and policies, cancellation and
  rescheduling of an event, and the three ways a copy goes back into its queue (requeue of one
  copy, of a destination or of an event; revival of a parked copy).
\<close>

section \<open>Destinations\<close>

definition new_destination :: "time \<Rightarrow> uuid \<Rightarrow> string \<Rightarrow> bool option \<Rightarrow> destination" where
  "new_destination now i url observe =
     \<lparr> dest_id = i, dest_url = url, dest_status = Active, dest_failure_count = 0,
       dest_next_event_seq = 0, dest_recoverable_at = None, dest_created_at = now,
       dest_confirmation_state = Conf_pending, dest_challenge_token = None,
       dest_challenge_expires_at = None, dest_confirmed_at = None,
       dest_confirmation_generation = 1, dest_confirmation_round = 1,
       dest_confirmation_attempt_count = 0, dest_next_probe_at = now,
       dest_observe_only = coalesce observe False, dest_paused_from = None, dest_paused_until = None \<rparr>"

definition destination_by_url :: "database \<Rightarrow> string \<Rightarrow> destination option" where
  "destination_by_url db url = first_row (\<lambda>d. dest_url d = url) (destinations db)"

definition set_observe_only :: "uuid \<Rightarrow> bool \<Rightarrow> database \<Rightarrow> database" where
  "set_observe_only i flag db = update_destination_row i (\<lambda>d. d\<lparr>dest_observe_only := flag\<rparr>) db"

text \<open>The subscription part of a registration.\<close>

definition register_subscriptions ::
  "time \<Rightarrow> uuid \<Rightarrow> string list option \<Rightarrow> filters \<Rightarrow> database \<Rightarrow> api_error + database" where
  "register_subscriptions now i types canonical db =
     (case types of
        None \<Rightarrow> if canonical \<noteq> [] then Inl (Http 422) else Inr db
      | Some ts \<Rightarrow>
          (case assert_filter_keys_subscribed canonical (set ts) of
             Inl err \<Rightarrow> Inl err
           | Inr _ \<Rightarrow> Inr (replace_subscriptions now i ts canonical db)))"

definition register_destination ::
  "time \<Rightarrow> settings \<Rightarrow> uuid \<Rightarrow> string \<Rightarrow> string \<Rightarrow> string list option \<Rightarrow> bool option \<Rightarrow> filters option \<Rightarrow>
   database \<Rightarrow> api_error + uuid \<times> database" where
  "register_destination now s new_id token url types observe fs db =
     (let existing = destination_by_url db url;
          i = (case existing of None \<Rightarrow> new_id | Some d \<Rightarrow> dest_id d);
          db1 = (case existing of None \<Rightarrow> db\<lparr>destinations := destinations db @ [new_destination now new_id url observe]\<rparr>
                 | Some _ \<Rightarrow> db)
      in if existing = None \<and> find_destination db new_id \<noteq> None then Inl Constraint_violation
         else case validate_filters fs of
           Inl err \<Rightarrow> Inl err
         | Inr canonical \<Rightarrow>
             (case register_subscriptions now i types canonical db1 of
                Inl err \<Rightarrow> Inl err
              | Inr db2 \<Rightarrow>
                  Inr (i, case existing of
                      None \<Rightarrow> snd (arm_round now s token False i db2)
                    | Some _ \<Rightarrow> (case observe of None \<Rightarrow> db2 | Some flag \<Rightarrow> set_observe_only i flag db2))))"

definition edit_subscriptions ::
  "time \<Rightarrow> uuid \<Rightarrow> string list option \<Rightarrow> filters \<Rightarrow> database \<Rightarrow> api_error + database" where
  "edit_subscriptions now i types canonical db =
     (case types of
        Some ts \<Rightarrow>
          (case assert_filter_keys_subscribed canonical (set ts) of
             Inl err \<Rightarrow> Inl err
           | Inr _ \<Rightarrow> Inr (replace_subscriptions now i ts canonical db))
      | None \<Rightarrow>
          if canonical = [] then Inr db
          else (case assert_filter_keys_subscribed canonical (fetch_event_types db i) of
                  Inl err \<Rightarrow> Inl err
                | Inr _ \<Rightarrow> Inr (patch_subscription_filters i canonical db)))"

definition set_url :: "uuid \<Rightarrow> string \<Rightarrow> database \<Rightarrow> database" where
  "set_url i url db = update_destination_row i (\<lambda>d. d\<lparr>dest_url := url\<rparr>) db"

definition relocates :: "string option \<Rightarrow> destination \<Rightarrow> bool" where
  "relocates url d \<longleftrightarrow> (case url of None \<Rightarrow> False | Some u \<Rightarrow> u \<noteq> dest_url d)"

definition retoggle :: "uuid \<Rightarrow> bool option \<Rightarrow> destination \<Rightarrow> database \<Rightarrow> database" where
  "retoggle i observe d db = (case observe of None \<Rightarrow> db
     | Some flag \<Rightarrow> if flag \<noteq> dest_observe_only d then set_observe_only i flag db else db)"

definition update_destination ::
  "time \<Rightarrow> settings \<Rightarrow> string \<Rightarrow> uuid \<Rightarrow> string option \<Rightarrow> string list option \<Rightarrow> bool option \<Rightarrow> filters option \<Rightarrow>
   database \<Rightarrow> api_error + unit \<times> database" where
  "update_destination now s token i url types observe fs db =
     (case validate_filters fs of
        Inl err \<Rightarrow> Inl err
      | Inr canonical \<Rightarrow>
          if url = None \<and> types = None \<and> observe = None \<and> canonical = [] then Inl (Http 422)
          else (case find_destination db i of
                  None \<Rightarrow> Inl (Http 404)
                | Some d \<Rightarrow>
                    if relocates url d \<and> destination_by_url db (the url) \<noteq> None then Inl (Http 409)
                    else
                      (case edit_subscriptions now i types canonical
                              (if relocates url d then set_url i (the url) db else db) of
                         Inl err \<Rightarrow> Inl err
                       | Inr db1 \<Rightarrow>
                           let db2 = retoggle i observe d db1
                           in Inr ((), if relocates url d then snd (arm_round now s token True i db2) else db2))))"

definition confirm_destination ::
  "time \<Rightarrow> settings \<Rightarrow> string \<Rightarrow> uuid \<Rightarrow> string option \<Rightarrow> string option \<Rightarrow> database \<Rightarrow>
   (api_error + destination option) \<times> database" where
  "confirm_destination now s token i body_challenge header_challenge db =
     (let challenge = (case body_challenge of
            Some c \<Rightarrow> if c \<noteq> [] then py_strip c else py_strip (coalesce header_challenge [])
          | None \<Rightarrow> py_strip (coalesce header_challenge []))
      in if challenge = [] then (Inl (Http 400), db)
         else case apply_echo now s token i challenge db of
           Inl err \<Rightarrow> (Inl err, db)
         | Inr ((disposition, destination), db') \<Rightarrow>
             (case disposition of
                Echo_not_found \<Rightarrow> (Inl (Http 404), db)
              | Echo_invalid \<Rightarrow> (Inl (Http 400), db')
              | Echo_expired \<Rightarrow> (Inl (Http 410), db')
              | _ \<Rightarrow> (Inr destination, db')))"

definition reissue_challenge ::
  "time \<Rightarrow> settings \<Rightarrow> string \<Rightarrow> uuid \<Rightarrow> database \<Rightarrow> api_error + destination option \<times> database" where
  "reissue_challenge now s token i db =
     (case find_destination db i of
        None \<Rightarrow> Inl (Http 404)
      | Some d \<Rightarrow> if is_confirmed d then Inl (Http 409) else Inr (arm_round now s token False i db))"

section \<open>Sources\<close>

definition register_source ::
  "time \<Rightarrow> uuid \<Rightarrow> string \<Rightarrow> string \<Rightarrow> database \<Rightarrow> api_error + event_source \<times> database" where
  "register_source now new_id secret name db =
     (if first_row (\<lambda>s. src_name s = name) (event_sources db) \<noteq> None then Inl (Http 409)
      else if find_source db new_id \<noteq> None then Inl Constraint_violation
      else let row = \<lparr>src_id = new_id, src_name = name, src_secret = secret, src_key_rotated_at = now,
                      src_disabled_at = None, src_created_at = now\<rparr>
           in Inr (row, db\<lparr>event_sources := event_sources db @ [row]\<rparr>))"

definition update_source ::
  "uuid \<Rightarrow> (event_source \<Rightarrow> event_source) \<Rightarrow> database \<Rightarrow> api_error + event_source \<times> database" where
  "update_source i f db =
     (case find_source db i of
        None \<Rightarrow> Inl (Http 404)
      | Some s \<Rightarrow> Inr (f s, db\<lparr>event_sources := sql_update (\<lambda>s. src_id s = i) f (event_sources db)\<rparr>))"

definition rotate_source_key :: "time \<Rightarrow> string \<Rightarrow> uuid \<Rightarrow> database \<Rightarrow> api_error + event_source \<times> database" where
  "rotate_source_key now secret i db =
     update_source i (\<lambda>s. s\<lparr>src_secret := secret, src_key_rotated_at := now\<rparr>) db"

definition disable_source :: "time \<Rightarrow> uuid \<Rightarrow> database \<Rightarrow> api_error + event_source \<times> database" where
  "disable_source now i db =
     update_source i (\<lambda>s. s\<lparr>src_disabled_at := Some (coalesce (src_disabled_at s) now)\<rparr>) db"

definition enable_source :: "uuid \<Rightarrow> database \<Rightarrow> api_error + event_source \<times> database" where
  "enable_source i db = update_source i (\<lambda>s. s\<lparr>src_disabled_at := None\<rparr>) db"

section \<open>Settings of an event type\<close>

definition normalize_event_type_path :: "string \<Rightarrow> api_error + string" where
  "normalize_event_type_path type =
     (let normalized = py_strip type in
      if normalized = [] \<or> length normalized > max_event_type_length then Inl (Http 422) else Inr normalized)"

definition clear_threshold_rows :: "string \<Rightarrow> database \<Rightarrow> database" where
  "clear_threshold_rows type db = db\<lparr>event_type_ack_thresholds :=
     filter (\<lambda>t. t_event_type t \<noteq> type) (event_type_ack_thresholds db)\<rparr>"

definition set_ack_threshold :: "string \<Rightarrow> int option \<Rightarrow> database \<Rightarrow> api_error + int option \<times> database" where
  "set_ack_threshold path threshold db =
     (case normalize_event_type_path path of
        Inl err \<Rightarrow> Inl err
      | Inr type \<Rightarrow>
          (case threshold of
             None \<Rightarrow> Inr (None, clear_threshold_rows type db)
           | Some n \<Rightarrow>
               if n < 1 \<or> 2147483647 < n then Inl (Http 422)
               else Inr (Some n, db\<lparr>event_type_ack_thresholds :=
                 (if ack_threshold_of db type = None
                  then event_type_ack_thresholds db @ [\<lparr>t_event_type = type, t_ack_threshold = n\<rparr>]
                  else sql_update (\<lambda>t. t_event_type t = type) (\<lambda>t. t\<lparr>t_ack_threshold := n\<rparr>)
                         (event_type_ack_thresholds db))\<rparr>)))"

definition clear_ack_threshold :: "string \<Rightarrow> database \<Rightarrow> api_error + unit \<times> database" where
  "clear_ack_threshold path db =
     (case normalize_event_type_path path of Inl err \<Rightarrow> Inl err
      | Inr type \<Rightarrow> Inr ((), clear_threshold_rows type db))"

definition set_relay_chain ::
  "time \<Rightarrow> uuid \<Rightarrow> string \<Rightarrow> uuid list \<Rightarrow> database \<Rightarrow> api_error + relay_chain \<times> database" where
  "set_relay_chain now new_id path ids db =
     (case normalize_event_type_path path of Inl err \<Rightarrow> Inl err
      | Inr type \<Rightarrow> define_chain now new_id type ids db)"

definition clear_relay_chain :: "string \<Rightarrow> database \<Rightarrow> api_error + unit \<times> database" where
  "clear_relay_chain path db =
     (case normalize_event_type_path path of Inl err \<Rightarrow> Inl err
      | Inr type \<Rightarrow> (case delete_active_chain type db of
            (removed, db') \<Rightarrow> if removed then Inr ((), db') else Inl (Http 404)))"

definition set_preview_policy :: "settings \<Rightarrow> string \<Rightarrow> int option \<Rightarrow> database \<Rightarrow> api_error + int \<times> database" where
  "set_preview_policy s path timeout db =
     (case normalize_event_type_path path of Inl err \<Rightarrow> Inl err
      | Inr type \<Rightarrow>
          if (case timeout of None \<Rightarrow> False | Some n \<Rightarrow> n < 1 \<or> 2147483647 < n) then Inl (Http 422)
          else if get_active_chain db type \<noteq> None then Inl (Http 409)
          else let n = coalesce timeout (preview_consent_timeout_seconds_default s)
               in Inr (n, upsert_policy type n db))"

definition clear_preview_policy :: "string \<Rightarrow> database \<Rightarrow> api_error + unit \<times> database" where
  "clear_preview_policy path db =
     (case normalize_event_type_path path of Inl err \<Rightarrow> Inl err
      | Inr type \<Rightarrow> Inr ((), delete_policy type db))"

section \<open>Pause, resume, recover\<close>

text \<open>A bound is absent, null or a time: \<open>given\<close> says whether either bound was named.\<close>

definition pause_destination ::
  "time \<Rightarrow> uuid \<Rightarrow> bool \<Rightarrow> time option \<Rightarrow> time option \<Rightarrow> database \<Rightarrow> api_error + unit \<times> database" where
  "pause_destination now i given from_at until_at db =
     (if \<not> given then Inl (Http 422)
      else if find_destination db i = None then Inl (Http 404)
      else let start = coalesce from_at now in
        if (case until_at of None \<Rightarrow> False | Some u \<Rightarrow> u \<le> start) then Inl (Http 422)
        else if null_le until_at now then Inl (Http 422)
        else Inr ((), update_destination_row i
               (\<lambda>d. d\<lparr>dest_paused_from := Some start, dest_paused_until := until_at\<rparr>) db))"

definition resume_destination :: "uuid \<Rightarrow> database \<Rightarrow> api_error + bool \<times> database" where
  "resume_destination i db =
     (case find_destination db i of
        None \<Rightarrow> Inl (Http 404)
      | Some d \<Rightarrow>
          if dest_paused_from d \<noteq> None
          then Inr (True, update_destination_row i
                 (\<lambda>d. d\<lparr>dest_paused_from := None, dest_paused_until := None\<rparr>) db)
          else Inr (False, db))"

definition recover_destination :: "time \<Rightarrow> uuid \<Rightarrow> database \<Rightarrow> api_error + (bool \<times> int option) \<times> database" where
  "recover_destination now i db =
     (case find_destination db i of
        None \<Rightarrow> Inl (Http 404)
      | Some d \<Rightarrow>
          if dest_status d \<noteq> Isolated then Inr ((False, None), db)
          else let hit = (\<lambda>r. d_destination_id r = i \<and> d_status r = Pending) in
            Inr ((True, Some (count_rows hit (deliveries db))),
                 update_destination_row i recovered_dest
                   (update_deliveries hit (\<lambda>r. r\<lparr>d_next_attempt_at := now, d_updated_at := now\<rparr>) db)))"

section \<open>Cancel and reschedule\<close>

definition terminal_outside_cancel :: "delivery_status set" where
  "terminal_outside_cancel = {In_flight, Delivered, Superseded, Dead_lettered, Failed, Release_denied,
     Release_expired, Release_voided, Relay_skipped, Deadline_expired}"

definition event_has_irreversible_delivery :: "database \<Rightarrow> uuid \<Rightarrow> bool" where
  "event_has_irreversible_delivery db event \<longleftrightarrow>
     (\<exists>d \<in> set (deliveries db). d_event_id d = Some event \<and> d_status d \<in> terminal_outside_cancel)"

definition cancelled_row :: "time \<Rightarrow> delivery \<Rightarrow> delivery" where
  "cancelled_row now d = d\<lparr>d_status := Cancelled,
     d_release_state := (if d_release_state d = Some Held then Some Voided else d_release_state d),
     d_voided_at := (if d_release_state d = Some Held then Some now else d_voided_at d),
     d_void_reason := (if d_release_state d = Some Held then Some Void_manual else d_void_reason d),
     d_updated_at := now\<rparr>"

definition queued_of :: "uuid \<Rightarrow> delivery \<Rightarrow> bool" where
  "queued_of event d \<longleftrightarrow> d_event_id d = Some event \<and> d_status d = Pending"

definition cancel_event :: "time \<Rightarrow> uuid \<Rightarrow> database \<Rightarrow> api_error + event_view option \<times> database" where
  "cancel_event now i db =
     (case find_event db i of
        None \<Rightarrow> Inl (Http 404)
      | Some e \<Rightarrow>
          if e_cancelled_at e \<noteq> None then Inr (view_event db i, db)
          else if event_has_irreversible_delivery db i then Inl (Http 409)
          else let db' = update_event_row i (\<lambda>e. e\<lparr>e_cancelled_at := Some now\<rparr>)
                           (update_deliveries (queued_of i) (cancelled_row now) db)
               in Inr (view_event db' i, db'))"

definition reschedule_event ::
  "time \<Rightarrow> uuid \<Rightarrow> time option \<Rightarrow> database \<Rightarrow> api_error + event_view option \<times> database" where
  "reschedule_event now i not_before db =
     (case find_event db i of
        None \<Rightarrow> Inl (Http 404)
      | Some e \<Rightarrow>
          if e_cancelled_at e \<noteq> None then Inl (Http 409)
          else if event_has_irreversible_delivery db i then Inl (Http 409)
          else let db' = update_deliveries (queued_of i)
                           (\<lambda>d. d\<lparr>d_not_before := not_before, d_updated_at := now\<rparr>)
                           (update_event_row i (\<lambda>e. e\<lparr>e_not_before := not_before\<rparr>) db)
               in Inr (view_event db' i, db'))"

definition update_event_deliver_by ::
  "time \<Rightarrow> uuid \<Rightarrow> time option \<Rightarrow> database \<Rightarrow> api_error + (int \<times> int \<times> int) \<times> database" where
  "update_event_deliver_by now i deliver_by db =
     (case find_event db i of
        None \<Rightarrow> Inl (Http 404)
      | Some e \<Rightarrow>
          if e_cancelled_at e \<noteq> None then Inl (Http 409)
          else Inr (update_event_deadline now i deliver_by db))"

section \<open>Back into the queue\<close>

definition handshake_current :: "database \<Rightarrow> delivery \<Rightarrow> bool" where
  "handshake_current db d \<longleftrightarrow> (\<exists>t \<in> set (destinations db). dest_id t = d_destination_id d \<and>
     is_confirmed t \<and> dest_confirmation_generation t = d_confirmation_generation d)"

definition requeueable :: "database \<Rightarrow> delivery \<Rightarrow> bool" where
  "requeueable db d \<longleftrightarrow> d_status d = Delivered \<and> d_reconcile_state d \<in> {Timed_out, Receipt_failed} \<and>
     handshake_current db d"

definition requeued_row :: "time \<Rightarrow> delivery \<Rightarrow> delivery" where
  "requeued_row now d = (release_claim d)
     \<lparr> d_status := Pending, d_reconcile_state := Rec_none, d_reconcile_deadline := None,
       d_reconciled_at := None, d_receipt_result := None, d_receipt_id := None,
       d_next_attempt_at := now, d_requeue_count := d_requeue_count d + 1, d_updated_at := now \<rparr>"

definition revived_row :: "time \<Rightarrow> delivery \<Rightarrow> delivery" where
  "revived_row now d = (release_claim d)
     \<lparr> d_status := Pending, d_reconcile_state := Rec_none, d_reconcile_deadline := None,
       d_reconciled_at := None, d_receipt_result := None, d_receipt_id := None,
       d_next_attempt_at := now, d_consecutive_failures := 0, d_requeue_count := 0,
       d_dead_letter_reason := None, d_dead_lettered_at := None, d_updated_at := now \<rparr>"

definition requeue_delivery :: "time \<Rightarrow> uuid \<Rightarrow> database \<Rightarrow> api_error + delivery \<times> database" where
  "requeue_delivery now i db =
     (case find_delivery db i of
        None \<Rightarrow> Inl (Http 404)
      | Some d \<Rightarrow>
          if requeueable db d
          then Inr (requeued_row now d,
                    update_deliveries (\<lambda>r. d_id r = i \<and> requeueable db r) (requeued_row now) db)
          else if find_destination db (d_destination_id d) = None then Inl (Http 404)
          else Inl (Http 409))"

definition requeue_unreconciled :: "time \<Rightarrow> uuid \<Rightarrow> database \<Rightarrow> api_error + int \<times> database" where
  "requeue_unreconciled now dest db =
     (if find_destination db dest = None then Inl (Http 404)
      else let hit = (\<lambda>d. d_destination_id d = dest \<and> requeueable db d)
           in Inr (count_rows hit (deliveries db), update_deliveries hit (requeued_row now) db))"

text \<open>The quorum of an event: its counted copies are not superseded and not skipped.\<close>

definition quorum_copy :: "delivery \<Rightarrow> bool" where
  "quorum_copy d \<longleftrightarrow> d_status d \<notin> {Superseded, Relay_skipped} \<and> \<not> d_observe_only d"

definition quorum_reached :: "database \<Rightarrow> event \<Rightarrow> bool" where
  "quorum_reached db e \<longleftrightarrow>
     (let rows = filter quorum_copy (copies_of db (e_id e));
          live = int (length rows);
          acknowledged = count_rows (\<lambda>d. d_reconcile_state d = Acknowledged) rows;
          required = min (coalesce (e_required_ack_count e) live) live
      in 0 < required \<and> required \<le> acknowledged)"

definition requeue_event_unreconciled ::
  "time \<Rightarrow> uuid \<Rightarrow> database \<Rightarrow> api_error + (bool \<times> uuid list) \<times> database" where
  "requeue_event_unreconciled now i db =
     (case find_event db i of
        None \<Rightarrow> Inl (Http 404)
      | Some e \<Rightarrow>
          if quorum_reached db e then Inr ((True, []), db)
          else let hit = (\<lambda>d. d_event_id d = Some i \<and> requeueable db d \<and> \<not> d_observe_only d)
               in Inr ((False, map d_id (order_by d_destination_id (order_by d_destination_seq
                         (filter hit (deliveries db))))),
                       update_deliveries hit (requeued_row now) db))"

definition revive_dead_letter :: "time \<Rightarrow> uuid \<Rightarrow> database \<Rightarrow> api_error + dead_letter_reason option \<times> database" where
  "revive_dead_letter now i db =
     (case find_delivery db i of
        None \<Rightarrow> Inl (Http 404)
      | Some d \<Rightarrow>
          (case find_destination db (d_destination_id d) of
             None \<Rightarrow> Inl (Http 404)
           | Some t \<Rightarrow>
               if d_status d \<noteq> Dead_lettered then Inl (Http 409)
               else if \<not> is_confirmed t then Inl (Http 409)
               else if d_confirmation_generation d \<noteq> dest_confirmation_generation t then Inl (Http 409)
               else Inr (d_dead_letter_reason d,
                         update_deliveries (\<lambda>r. d_id r = i \<and> d_status r = Dead_lettered) (revived_row now) db)))"

definition receive_receipt ::
  "settings \<Rightarrow> uuid \<Rightarrow> uuid \<Rightarrow> string \<Rightarrow> receipt_result \<Rightarrow> poll \<Rightarrow> poll list \<Rightarrow> database \<Rightarrow>
   api_error + receipt \<times> database" where
  "receive_receipt s receipt_id dest key result first later db =
     (if find_destination db dest = None then Inl (Http 404)
      else ingest_receipt s receipt_id dest key result first later)"

section \<open>The operations keep the tables\<close>

lemma cancelled_row_evolves: "d_status d = Pending \<Longrightarrow> row_evolves d (cancelled_row now d)"
  by (rule row_evolves_edge [OF lifecycle.cancel])
    (simp_all add: copy_of_def cancelled_row_def same_snapshot_def counters_grow_def)

lemma requeued_row_evolves:
  "d_status d = Delivered \<Longrightarrow> d_reconcile_state d \<in> {Timed_out, Receipt_failed} \<Longrightarrow> row_evolves d (requeued_row now d)"
  by (rule row_evolves_edge [OF lifecycle.requeue])
    (auto simp: copy_of_def requeued_row_def release_claim_def same_snapshot_def counters_grow_def)

lemma revived_row_evolves: "d_status d = Dead_lettered \<Longrightarrow> row_evolves d (revived_row now d)"
  by (rule row_evolves_edge [OF lifecycle.revive])
    (simp_all add: copy_of_def revived_row_def release_claim_def same_snapshot_def counters_grow_def)

lemma requeueable_evolves: "requeueable db d \<Longrightarrow> row_evolves d (requeued_row now d)"
  by (simp add: requeueable_def requeued_row_evolves)

lemma keeps_cancel: "keeps db (update_deliveries (queued_of i) (cancelled_row now) db)"
  by (rule keeps_update_deliveries) (simp add: queued_of_def cancelled_row_evolves)

lemma keeps_requeue:
  "(\<And>d. hit d \<Longrightarrow> requeueable db0 d) \<Longrightarrow> keeps db (update_deliveries hit (requeued_row now) db)"
  by (rule keeps_update_deliveries) (blast intro: requeueable_evolves)

interpretation cancel: delivery_operation "\<lambda>db. committed (cancel_event now i db) db" for now i
  by unfold_locales
    (rule keeps_committed, auto simp: cancel_event_def Let_def split: option.splits if_splits
      intro: keeps_trans [OF keeps_cancel keeps_update_event])

interpretation reschedule: delivery_operation "\<lambda>db. committed (reschedule_event now i nb db) db" for now i nb
proof unfold_locales
  fix db
  have "keeps (update_event_row i (\<lambda>e. e\<lparr>e_not_before := nb\<rparr>) db)
      (update_deliveries (queued_of i) (\<lambda>d. d\<lparr>d_not_before := nb, d_updated_at := now\<rparr>)
        (update_event_row i (\<lambda>e. e\<lparr>e_not_before := nb\<rparr>) db))"
    by (rule keeps_update_deliveries)
      (auto intro!: row_evolves_stay simp: copy_of_def same_snapshot_def counters_grow_def)
  then show "keeps db (committed (reschedule_event now i nb db) db)"
    by (intro keeps_committed)
      (auto simp: reschedule_event_def Let_def split: option.splits if_splits
        intro: keeps_trans [OF keeps_update_event])
qed

interpretation requeue_one: delivery_operation "\<lambda>db. committed (requeue_delivery now i db) db" for now i
  by unfold_locales
    (rule keeps_committed, auto simp: requeue_delivery_def split: option.splits if_splits intro!: keeps_requeue)

interpretation requeue_all: delivery_operation "\<lambda>db. committed (requeue_unreconciled now dest db) db" for now dest
  by unfold_locales
    (rule keeps_committed, auto simp: requeue_unreconciled_def Let_def split: if_splits intro!: keeps_requeue)

interpretation requeue_event: delivery_operation "\<lambda>db. committed (requeue_event_unreconciled now i db) db" for now i
  by unfold_locales
    (rule keeps_committed, auto simp: requeue_event_unreconciled_def Let_def split: option.splits if_splits
      intro!: keeps_requeue)

interpretation revive: delivery_operation "\<lambda>db. committed (revive_dead_letter now i db) db" for now i
  by unfold_locales
    (rule keeps_committed, auto simp: revive_dead_letter_def split: option.splits if_splits
      intro!: keeps_update_deliveries revived_row_evolves)

interpretation pause: delivery_operation "\<lambda>db. committed (pause_destination now i given a b db) db" for now i given a b
proof unfold_locales
  fix db
  have "keeps db (update_destination_row i
      (\<lambda>d. d\<lparr>dest_paused_from := Some start, dest_paused_until := b\<rparr>) db)"
    if "\<not> (case b of None \<Rightarrow> False | Some u \<Rightarrow> u \<le> start)" for start
    by (rule keeps_update_destination)
      (use that in \<open>auto simp: destination_check_def pause_window_ok_def split: option.splits\<close>)
  then show "keeps db (committed (pause_destination now i given a b db) db)"
    by (intro keeps_committed) (auto simp: pause_destination_def Let_def split: if_splits)
qed

interpretation resume: delivery_operation "\<lambda>db. committed (resume_destination i db) db" for i
  by unfold_locales
    (rule keeps_committed, auto simp: resume_destination_def split: option.splits if_splits
      intro!: keeps_update_destination simp: destination_check_def pause_window_ok_def)

interpretation recovery: delivery_operation "\<lambda>db. committed (recover_destination now i db) db" for now i
proof unfold_locales
  fix db
  let ?hit = "\<lambda>r. d_destination_id r = i \<and> d_status r = Pending"
  have "keeps db (update_deliveries ?hit (\<lambda>r. r\<lparr>d_next_attempt_at := now, d_updated_at := now\<rparr>) db)"
    by (rule keeps_update_deliveries)
      (auto intro!: row_evolves_stay simp: copy_of_def same_snapshot_def counters_grow_def)
  also have "keeps \<dots> (update_destination_row i recovered_dest \<dots>)"
    by (rule keeps_update_destination) (simp add: recovered_dest_def destination_check_def)
  finally show "keeps db (committed (recover_destination now i db) db)"
    by (intro keeps_committed) (auto simp: recover_destination_def Let_def split: option.splits if_splits)
qed

lemma keeps_result: "keeps db (snd out) \<Longrightarrow> out = (r, db') \<Longrightarrow> keeps db db'"
  by simp

lemma keeps_new_destination:
  "keeps db (db\<lparr>destinations := destinations db @ [new_destination now i url observe]\<rparr>)"
  by (simp add: keeps_def destinations_ok_def keys_ok_def new_destination_def destination_check_def pause_window_ok_def)

lemma keeps_set_observe_only: "keeps db (set_observe_only i flag db)"
  unfolding set_observe_only_def by (rule keeps_update_destination) (simp add: destination_check_def)

lemma keeps_set_url: "keeps db (set_url i url db)"
  unfolding set_url_def by (rule keeps_update_destination) (simp add: destination_check_def)

lemma keeps_replace: "keeps db (replace_subscriptions now i types fs db)"
  by (rule keeps_same) simp_all

lemma keeps_patch: "keeps db (patch_subscription_filters i fs db)"
  by (rule keeps_same) simp_all

lemma register_subscriptions_keeps: "register_subscriptions now i types fs db = Inr db' \<Longrightarrow> keeps db db'"
  by (auto simp: register_subscriptions_def split: option.splits if_splits sum.splits intro: keeps_replace)

lemma edit_subscriptions_keeps: "edit_subscriptions now i types fs db = Inr db' \<Longrightarrow> keeps db db'"
  by (auto simp: edit_subscriptions_def split: option.splits if_splits sum.splits intro: keeps_replace keeps_patch)

lemma register_destination_keeps:
  assumes "register_destination now s new_id token url types observe fs db = Inr (r, db')"
  shows "keeps db db'"
proof -
  let ?existing = "destination_by_url db url"
  let ?i = "case ?existing of None \<Rightarrow> new_id | Some d \<Rightarrow> dest_id d"
  let ?db1 = "case ?existing of None \<Rightarrow> db\<lparr>destinations := destinations db @ [new_destination now new_id url observe]\<rparr>
    | Some _ \<Rightarrow> db"
  from assms obtain canonical db2 where sub: "register_subscriptions now ?i types canonical ?db1 = Inr db2"
    and db': "db' = (case ?existing of None \<Rightarrow> snd (arm_round now s token False ?i db2)
      | Some _ \<Rightarrow> (case observe of None \<Rightarrow> db2 | Some flag \<Rightarrow> set_observe_only ?i flag db2))"
    unfolding register_destination_def Let_def
    by (auto split: if_splits sum.splits)
  have "keeps db ?db1" by (simp add: keeps_new_destination split: option.split)
  also have "keeps ?db1 db2" using sub by (rule register_subscriptions_keeps)
  also have "keeps db2 db'"
    unfolding db' by (auto split: option.split intro: arm_round_keeps keeps_set_observe_only)
  finally show ?thesis .
qed

interpretation registration: delivery_operation
  "\<lambda>db. committed (register_destination now s new_id token url types observe fs db) db"
  for now s new_id token url types observe fs
  by unfold_locales (rule keeps_committed, erule register_destination_keeps)

lemma keeps_retoggle: "keeps db (retoggle i observe d db)"
  by (auto simp: retoggle_def keeps_set_observe_only split: option.split)

lemma update_destination_step:
  assumes "update_destination now s token i url types observe fs db = Inr (r, db')"
  obtains d canonical db1 where "find_destination db i = Some d" "validate_filters fs = Inr canonical"
    "relocates url d \<Longrightarrow> destination_by_url db (the url) = None"
    "edit_subscriptions now i types canonical (if relocates url d then set_url i (the url) db else db) = Inr db1"
    "db' = (if relocates url d then snd (arm_round now s token True i (retoggle i observe d db1))
       else retoggle i observe d db1)"
  using assms unfolding update_destination_def Let_def
  by (auto split: if_splits sum.splits option.splits)

lemma update_destination_keeps:
  assumes "update_destination now s token i url types observe fs db = Inr (r, db')"
  shows "keeps db db'"
  using assms
proof (cases rule: update_destination_step)
  case (1 d canonical db1)
  have "keeps db (if relocates url d then set_url i (the url) db else db)" by (simp add: keeps_set_url)
  also have "keeps \<dots> db1" using 1(4) by (rule edit_subscriptions_keeps)
  also have "keeps db1 (retoggle i observe d db1)" by (rule keeps_retoggle)
  also have "keeps \<dots> db'" unfolding 1(5) by (auto intro: arm_round_keeps)
  finally show ?thesis .
qed

interpretation relocation: delivery_operation
  "\<lambda>db. committed (update_destination now s token i url types observe fs db) db"
  for now s token i url types observe fs
  by unfold_locales (rule keeps_committed, erule update_destination_keeps)

interpretation confirmation: delivery_operation "\<lambda>db. snd (confirm_destination now s token i c h db)" for now s token i c h
proof unfold_locales
  fix db
  let ?challenge = "case c of Some c \<Rightarrow> if c \<noteq> [] then py_strip c else py_strip (coalesce h [])
    | None \<Rightarrow> py_strip (coalesce h [])"
  have "keeps db (committed (apply_echo now s token i ?challenge db) db)"
    by (rule keeps_committed) (rule apply_echo_keeps)
  then show "keeps db (snd (confirm_destination now s token i c h db))"
    by (auto simp: confirm_destination_def Let_def committed_def split: sum.splits echo_disposition.splits)
qed

interpretation reissue: delivery_operation "\<lambda>db. committed (reissue_challenge now s token i db) db" for now s token i
  by unfold_locales
    (rule keeps_committed, auto simp: reissue_challenge_def split: option.splits if_splits
      intro: keeps_result [OF arm_round_keeps])

interpretation cutoff: delivery_operation "\<lambda>db. committed (update_event_deliver_by now i dby db) db" for now i dby
  by unfold_locales
    (rule keeps_committed, auto simp: update_event_deliver_by_def split: option.splits if_splits
      intro: keeps_result [OF update_event_deadline_keeps])

text \<open>Requests that touch neither copies nor destinations.\<close>

lemma update_source_keeps: "update_source i f db = Inr (r, db') \<Longrightarrow> keeps db db'"
  by (rule keeps_same) (auto simp: update_source_def split: option.splits)

lemma register_source_keeps: "register_source now i secret name db = Inr (r, db') \<Longrightarrow> keeps db db'"
  by (rule keeps_same) (auto simp: register_source_def Let_def split: if_splits)

lemma set_ack_threshold_keeps: "set_ack_threshold path n db = Inr (r, db') \<Longrightarrow> keeps db db'"
  by (rule keeps_same)
    (auto simp: set_ack_threshold_def clear_threshold_rows_def split: sum.splits option.splits if_splits)

lemma set_preview_policy_keeps: "set_preview_policy s path n db = Inr (r, db') \<Longrightarrow> keeps db db'"
  by (rule keeps_same)
    (auto simp: set_preview_policy_def upsert_policy_def Let_def split: sum.splits option.splits if_splits)

lemma clear_preview_policy_keeps: "clear_preview_policy path db = Inr (r, db') \<Longrightarrow> keeps db db'"
  by (rule keeps_same) (auto simp: clear_preview_policy_def delete_policy_def split: sum.splits)

interpretation key_rotation: delivery_operation "\<lambda>db. committed (rotate_source_key now secret i db) db" for now secret i
  by unfold_locales (rule keeps_committed, auto simp: rotate_source_key_def intro: update_source_keeps)

interpretation source_off: delivery_operation "\<lambda>db. committed (disable_source now i db) db" for now i
  by unfold_locales (rule keeps_committed, auto simp: disable_source_def intro: update_source_keeps)

interpretation source_on: delivery_operation "\<lambda>db. committed (enable_source i db) db" for i
  by unfold_locales (rule keeps_committed, auto simp: enable_source_def intro: update_source_keeps)

interpretation source_new: delivery_operation "\<lambda>db. committed (register_source now i secret name db) db" for now i secret name
  by unfold_locales (rule keeps_committed, erule register_source_keeps)

interpretation threshold: delivery_operation "\<lambda>db. committed (set_ack_threshold path n db) db" for path n
  by unfold_locales (rule keeps_committed, erule set_ack_threshold_keeps)

interpretation policy_set: delivery_operation "\<lambda>db. committed (set_preview_policy s path n db) db" for s path n
  by unfold_locales (rule keeps_committed, erule set_preview_policy_keeps)

interpretation policy_clear: delivery_operation "\<lambda>db. committed (clear_preview_policy path db) db" for path
  by unfold_locales (rule keeps_committed, erule clear_preview_policy_keeps)

interpretation chain_set: delivery_operation "\<lambda>db. committed (set_relay_chain now i path ids db) db" for now i path ids
proof unfold_locales
  fix db
  assume ok: "db_ok db"
  show "keeps db (committed (set_relay_chain now i path ids db) db)"
  proof (cases "normalize_event_type_path path")
    case (Inr type)
    then show ?thesis using chain.run_keeps [OF ok, of now i type ids] by (simp add: set_relay_chain_def)
  qed (simp add: set_relay_chain_def)
qed

interpretation chain_clear: delivery_operation "\<lambda>db. committed (clear_relay_chain path db) db" for path
proof unfold_locales
  fix db
  assume ok: "db_ok db"
  show "keeps db (committed (clear_relay_chain path db) db)"
  proof (cases "normalize_event_type_path path")
    case (Inr type)
    then show ?thesis using chain_delete.run_keeps [OF ok, of type]
      by (auto simp: clear_relay_chain_def split: prod.split)
  qed (simp add: clear_relay_chain_def)
qed

section \<open>What a cancellation does\<close>

lemma status_partition: "st = Cancelled \<or> st = Pending \<or> st \<in> terminal_outside_cancel"
  by (cases st) (simp_all add: terminal_outside_cancel_def)

lemma cancel_event_effect:
  assumes "cancel_event now i db = Inr (v, db')" and "find_event db i = Some e" and "e_cancelled_at e = None"
  shows "deliveries db' = map (\<lambda>d. if queued_of i d then cancelled_row now d else d) (deliveries db)"
    and "d \<in> set (deliveries db') \<Longrightarrow> d_event_id d = Some i \<Longrightarrow> d_status d = Cancelled"
    and "v = view_event db' i"
proof -
  have no: "\<not> event_has_irreversible_delivery db i"
    and db': "db' = update_event_row i (\<lambda>e. e\<lparr>e_cancelled_at := Some now\<rparr>)
      (update_deliveries (queued_of i) (cancelled_row now) db)" and v: "v = view_event db' i"
    using assms by (auto simp: cancel_event_def Let_def split: if_splits)
  show rows: "deliveries db' = map (\<lambda>d. if queued_of i d then cancelled_row now d else d) (deliveries db)"
    by (simp add: db' sql_update_def)
  show "v = view_event db' i" by (rule v)
  assume "d \<in> set (deliveries db')" and ev: "d_event_id d = Some i"
  then obtain d0 where d0: "d0 \<in> set (deliveries db)" "d = (if queued_of i d0 then cancelled_row now d0 else d0)"
    by (auto simp: rows)
  then have "d_event_id d0 = Some i" using ev by (cases "queued_of i d0") (simp_all add: cancelled_row_def)
  with d0(1) no have "d_status d0 \<notin> terminal_outside_cancel" by (auto simp: event_has_irreversible_delivery_def)
  with status_partition [of "d_status d0"] show "d_status d = Cancelled"
    using d0(2) \<open>d_event_id d0 = Some i\<close> by (auto simp: queued_of_def cancelled_row_def)
qed

lemma cancel_event_refused:
  assumes "find_event db i = Some e" and "e_cancelled_at e = None"
  shows "(cancel_event now i db = Inl (Http 409)) = event_has_irreversible_delivery db i"
  using assms by (simp add: cancel_event_def Let_def)

lemma cancel_event_again:
  assumes "cancel_event now i db = Inr (v, db')"
  shows "cancel_event later i db' = Inr (view_event db' i, db')"
proof -
  from assms obtain e where e: "find_event db i = Some e" by (auto simp: cancel_event_def split: option.splits)
  show ?thesis
  proof (cases "e_cancelled_at e")
    case (Some t)
    with assms e show ?thesis by (auto simp: cancel_event_def)
  next
    case None
    have "first_row (\<lambda>x. e_id x = i) (sql_update (\<lambda>x. e_id x = i) (\<lambda>x. x\<lparr>e_cancelled_at := Some now\<rparr>) es)
      = map_option (\<lambda>x. x\<lparr>e_cancelled_at := Some now\<rparr>) (first_row (\<lambda>x. e_id x = i) es)" for es :: "event list"
      by (induction es) auto
    moreover have "events db' = sql_update (\<lambda>x. e_id x = i) (\<lambda>x. x\<lparr>e_cancelled_at := Some now\<rparr>) (events db)"
      using assms e None by (auto simp: cancel_event_def Let_def update_event_row_def split: if_splits)
    ultimately have "find_event db' i = Some (e\<lparr>e_cancelled_at := Some now\<rparr>)"
      using e by (simp add: find_event_def)
    then show ?thesis by (simp add: cancel_event_def)
  qed
qed

section \<open>What a requeue does\<close>

lemma requeue_event_effect:
  assumes "requeue_event_unreconciled now i db = Inr ((acknowledged, ids), db')" and "find_event db i = Some e"
  shows "acknowledged = quorum_reached db e"
    and "deliveries db' = map (\<lambda>d. if \<not> acknowledged \<and> d_event_id d = Some i \<and> requeueable db d \<and> \<not> d_observe_only d
      then requeued_row now d else d) (deliveries db)"
  using assms by (auto simp: requeue_event_unreconciled_def Let_def sql_update_def split: if_splits)

lemma requeue_delivery_effect:
  assumes "requeue_delivery now i db = Inr (r, db')"
  obtains d where "find_delivery db i = Some d" "requeueable db d" "r = requeued_row now d"
    "deliveries db' = map (\<lambda>x. if d_id x = i \<and> requeueable db x then requeued_row now x else x) (deliveries db)"
  using assms by (auto simp: requeue_delivery_def sql_update_def split: option.splits if_splits)

text \<open>A requeued or revived copy is back at its own position of its queue, with no claim and no receipt.\<close>

definition back_in_queue :: "time \<Rightarrow> delivery \<Rightarrow> delivery \<Rightarrow> bool" where
  "back_in_queue now d d' \<longleftrightarrow> d_status d' = Pending \<and> d_destination_seq d' = d_destination_seq d \<and>
     same_snapshot d d' \<and> d_reconcile_state d' = Rec_none \<and> d_reconcile_deadline d' = None \<and>
     d_receipt_id d' = None \<and> d_claim_token d' = None \<and> d_next_attempt_at d' = now"

lemma requeued_row_back: "back_in_queue now d (requeued_row now d)"
  by (simp add: back_in_queue_def requeued_row_def release_claim_def same_snapshot_def)

lemma revived_row_back: "back_in_queue now d (revived_row now d)"
  by (simp add: back_in_queue_def revived_row_def release_claim_def same_snapshot_def)

lemma revive_effect:
  assumes "revive_dead_letter now i db = Inr (reason, db')" and "keys_ok db"
  obtains d d' where "find_delivery db i = Some d" "d_status d = Dead_lettered" "reason = d_dead_letter_reason d"
    "handshake_current db d" "find_delivery db' i = Some d'" "back_in_queue now d d'"
    "d_requeue_count d' = 0" "d_consecutive_failures d' = 0" "d_dead_letter_reason d' = None"
    "\<And>x. x \<in> set (deliveries db) \<Longrightarrow> d_id x \<noteq> i \<Longrightarrow> x \<in> set (deliveries db')"
proof -
  from assms(1) obtain d t where d: "find_delivery db i = Some d" and t: "find_destination db (d_destination_id d) = Some t"
    and guard: "d_status d = Dead_lettered" "is_confirmed t" "d_confirmation_generation d = dest_confirmation_generation t"
    and r: "reason = d_dead_letter_reason d"
    and db': "db' = update_deliveries (\<lambda>r. d_id r = i \<and> d_status r = Dead_lettered) (revived_row now) db"
    by (auto simp: revive_dead_letter_def split: option.splits if_splits)
  have "handshake_current db d"
    using find_destination_key [OF t] guard by (auto simp: handshake_current_def)
  moreover have "find_delivery db' i = Some (revived_row now d)"
    unfolding db' using d guard(1) find_delivery_key [OF d]
    by (subst find_delivery_update) (auto simp: revived_row_def release_claim_def)
  moreover have "x \<in> set (deliveries db')" if "x \<in> set (deliveries db)" "d_id x \<noteq> i" for x
    using that by (force simp: db' set_sql_update)
  ultimately show thesis
    using d guard(1) r revived_row_back [of now d]
    by (intro that [of d "revived_row now d"]) (simp_all add: revived_row_def release_claim_def)
qed

section \<open>Pause, resume and sources\<close>

lemma pause_resume:
  assumes "pause_destination now i given from_at until_at db = Inr ((), db')"
    and open_before: "\<And>d. d \<in> set (destinations db) \<Longrightarrow> dest_id d = i \<Longrightarrow> dest_paused_from d = None \<and> dest_paused_until d = None"
  shows "resume_destination i db' = Inr (True, db)"
proof -
  from assms(1) obtain start where some: "find_destination db i \<noteq> None"
    and db': "db' = update_destination_row i (\<lambda>d. d\<lparr>dest_paused_from := Some start, dest_paused_until := until_at\<rparr>) db"
    by (auto simp: pause_destination_def Let_def split: if_splits)
  have "find_destination db' i = map_option (\<lambda>d. d\<lparr>dest_paused_from := Some start, dest_paused_until := until_at\<rparr>)
      (find_destination db i)"
    unfolding db' by (subst find_destination_row_update) simp_all
  moreover have "sql_update (\<lambda>d. dest_id d = i) (\<lambda>d. d\<lparr>dest_paused_from := None, dest_paused_until := None\<rparr>)
      (sql_update (\<lambda>d. dest_id d = i) (\<lambda>d. d\<lparr>dest_paused_from := Some start, dest_paused_until := until_at\<rparr>)
        (destinations db)) = destinations db"
    unfolding sql_update_def map_map
  proof (rule map_idI)
    fix d :: destination
    assume "d \<in> set (destinations db)"
    with open_before [of d] show "((\<lambda>d. if dest_id d = i then d\<lparr>dest_paused_from := None, dest_paused_until := None\<rparr> else d) \<circ>
        (\<lambda>d. if dest_id d = i then d\<lparr>dest_paused_from := Some start, dest_paused_until := until_at\<rparr> else d)) d = d"
      by (cases "dest_id d = i"; cases d) simp_all
  qed
  ultimately show ?thesis
    using some open_before by (auto simp: resume_destination_def db' update_destination_row_def)
qed

text \<open>A paused destination is not claimed from while its window lasts.\<close>

lemma paused_not_claimed:
  assumes "claim_head now s token ld lr db = (Some c, db')" and "db_ok db"
    and "d_destination_id (cl_row c) = dest_id d" and "find_destination db (dest_id d) = Some d"
    and "\<And>x y. x \<in> set (destinations db) \<Longrightarrow> y \<in> set (destinations db) \<Longrightarrow> dest_id x = dest_id y \<Longrightarrow> x = y"
  shows "\<not> paused now d"
  using assms(1)
proof (rule claim_head_sound)
  fix t e
  assume t: "t \<in> set (destinations db)" "d_destination_id e = dest_id t" "cl_row c = claim_row now s token e" "\<not> paused now t"
  then have "dest_id t = dest_id d" using assms(3) by (simp add: claim_row_def)
  moreover have "d \<in> set (destinations db)" using find_destination_key [OF assms(4)] by simp
  ultimately show ?thesis using assms(5) t by metis
qed

lemma find_source_update:
  "update_source i f db = Inr (r, db') \<Longrightarrow> (\<And>s. src_id (f s) = src_id s) \<Longrightarrow>
   \<exists>s. find_source db i = Some s \<and> r = f s \<and> find_source db' i = Some (f s)"
proof -
  have "first_row (\<lambda>s. src_id s = i) (sql_update (\<lambda>s. src_id s = i) f rows)
    = map_option f (first_row (\<lambda>s. src_id s = i) rows)" if "\<And>s. src_id (f s) = src_id s" for rows
    using that by (induction rows) auto
  then show "update_source i f db = Inr (r, db') \<Longrightarrow> (\<And>s. src_id (f s) = src_id s) \<Longrightarrow>
   \<exists>s. find_source db i = Some s \<and> r = f s \<and> find_source db' i = Some (f s)"
    by (auto simp: update_source_def find_source_def split: option.splits)
qed

text \<open>The row a source id names when its request was admitted.\<close>

lemma authenticate_row:
  assumes "authenticate rt cfg clock now rq db = (Inr (s, t), db')"
    and "rt_cast_uuid rt (header_value (rq_source_id rq)) = Some i"
  shows "find_source db i = Some s"
  using assms by (auto simp: authenticate_def Let_def split: if_splits option.splits sum.splits dest!: admit_accepts)

lemma disabled_source_refused:
  assumes "disable_source now i db = Inr (r, db1)"
    and "rt_cast_uuid rt (header_value (rq_source_id rq)) = Some i"
  shows "\<not> (\<exists>x. fst (authenticate rt cfg clock now' rq db1) = Inr x)"
proof (rule notI, elim exE)
  fix x
  assume x: "fst (authenticate rt cfg clock now' rq db1) = Inr x"
  obtain s t db2 where out: "authenticate rt cfg clock now' rq db1 = (Inr (s, t), db2)"
    using x by (cases x; cases "authenticate rt cfg clock now' rq db1") auto
  from find_source_update [OF assms(1) [unfolded disable_source_def]] obtain s0 where
    "find_source db1 i = Some (s0\<lparr>src_disabled_at := Some (coalesce (src_disabled_at s0) now)\<rparr>)" by auto
  then have "src_disabled_at s \<noteq> None" using authenticate_row [OF out assms(2)] by auto
  with authenticate_accepts [OF out] show False by (simp add: admissible_def)
qed

lemma rotated_key_required:
  assumes "rotate_source_key now secret i db = Inr (r, db1)"
    and "rt_cast_uuid rt (header_value (rq_source_id rq)) = Some i"
    and "authenticate rt cfg clock now' rq db1 = (Inr (s, t), db2)"
  shows "py_strip (remove_prefix ''sha256='' (header_value (rq_signature rq)))
    = rt_hmac rt secret (header_value (rq_signed_at rq) @ ''.'' @ rq_body rq)"
proof -
  from find_source_update [OF assms(1) [unfolded rotate_source_key_def]] obtain s0 where
    "find_source db1 i = Some (s0\<lparr>src_secret := secret, src_key_rotated_at := now\<rparr>)" by auto
  then have "src_secret s = secret" using authenticate_row [OF assms(3,2)] by auto
  with authenticate_accepts [OF assms(3)] show ?thesis by (simp add: admissible_def)
qed

section \<open>Settings of a type\<close>

lemma set_preview_policy_exclusive:
  assumes "set_preview_policy s path n db = Inr (r, db')" and "gate_exclusive db"
  shows "gate_exclusive db'"
proof -
  from assms(1) obtain type where type: "normalize_event_type_path path = Inr type"
    by (auto simp: set_preview_policy_def split: sum.splits)
  with assms(1) have none: "get_active_chain db type = None"
    by (cases "get_active_chain db type") (auto simp: set_preview_policy_def split: if_splits)
  with assms(1) type obtain m where db': "db' = upsert_policy type m db"
    by (auto simp: set_preview_policy_def Let_def split: if_splits)
  have chain: "ch_event_type c \<noteq> type" if "c \<in> set (relay_chains db)" "ch_active c" for c
    using none that by (auto simp: get_active_chain_def active_chain_row_def first_row_None split: option.splits)
  have "relay_chains db' = relay_chains db"
    by (simp add: db' upsert_policy_def)
  moreover have "p_event_type p = type \<or> (\<exists>q \<in> set (event_type_preview_policies db). p_event_type q = p_event_type p)"
    if "p \<in> set (event_type_preview_policies db')" for p
    using that by (auto simp: db' upsert_policy_def set_sql_update split: if_splits)
  ultimately show ?thesis
    using assms(2) chain unfolding gate_exclusive_def by metis
qed

lemma set_relay_chain_exclusive:
  "set_relay_chain now i path ids db = Inr (c, db') \<Longrightarrow> gate_exclusive db \<Longrightarrow> gate_exclusive db'"
  by (auto simp: set_relay_chain_def split: sum.splits intro: gate_exclusive_define_chain)

section \<open>Relocation\<close>

lemma edit_subscriptions_same:
  "edit_subscriptions now i types fs db = Inr db' \<Longrightarrow> deliveries db' = deliveries db \<and> destinations db' = destinations db"
  by (auto simp: edit_subscriptions_def split: option.splits if_splits sum.splits)

text \<open>After a change of URL nothing of the old location is queued, and what had left the queue is as it was.\<close>

lemma relocation_effect:
  assumes "update_destination now s token i (Some url) types observe fs db = Inr (r, db')"
    and "find_destination db i = Some t" and "url \<noteq> dest_url t"
  shows "d \<in> set (deliveries db') \<Longrightarrow> d_destination_id d = i \<Longrightarrow>
      d_confirmation_generation d \<le> dest_confirmation_generation t \<Longrightarrow> d_status d \<noteq> Pending"
    and "d \<in> set (deliveries db) \<Longrightarrow> d_status d \<noteq> Pending \<Longrightarrow> d \<in> set (deliveries db')"
proof -
  from assms(1) obtain x canonical db1 where x: "find_destination db i = Some x"
    and e: "edit_subscriptions now i types canonical (if relocates (Some url) x then set_url i (the (Some url)) db else db) = Inr db1"
    and db': "db' = (if relocates (Some url) x then snd (arm_round now s token True i (retoggle i observe x db1))
       else retoggle i observe x db1)"
    by (rule update_destination_step)
  have rel: "relocates (Some url) x" using x assms(2,3) by (simp add: relocates_def)
  define db2 where "db2 = retoggle i observe x db1"
  have db': "db' = snd (arm_round now s token True i db2)" using db' rel by (simp add: db2_def)
  have same: "deliveries db1 = deliveries db" "destinations db1 = destinations (set_url i url db)"
    using edit_subscriptions_same [OF e] rel by (simp_all add: set_url_def)
  have rows: "deliveries db2 = deliveries db"
    using same by (simp add: db2_def retoggle_def set_observe_only_def split: option.split)
  have "find_destination db1 i = Some (t\<lparr>dest_url := url\<rparr>)"
    using find_destination_row_update [of "\<lambda>d. d\<lparr>dest_url := url\<rparr>" i db i] assms(2) same(2)
    by (simp add: find_destination_def set_url_def)
  then obtain t2 where t2: "find_destination db2 i = Some t2" "dest_confirmation_generation t2 = dest_confirmation_generation t"
    using find_destination_row_update [of "\<lambda>d. d\<lparr>dest_observe_only := f\<rparr>" i db1 i for f]
    by (cases observe; cases "the observe = dest_observe_only x")
      (simp_all add: db2_def retoggle_def set_observe_only_def)
  show "d_status d \<noteq> Pending" if "d \<in> set (deliveries db')" "d_destination_id d = i"
      "d_confirmation_generation d \<le> dest_confirmation_generation t"
    using arm_round_move [OF t2(1)] that t2(2) unfolding db' by simp
  show "d \<in> set (deliveries db')" if "d \<in> set (deliveries db)" "d_status d \<noteq> Pending"
    using arm_round_settled that unfolding db' rows [symmetric] by blast
qed

text \<open>A copy that has gone out once and was requeued does not stand in the way of a cancellation.\<close>

lemma requeued_copy_cancellable:
  assumes "requeue_delivery now i db = Inr (r, db1)" and "db_ok db"
    and "find_delivery db i = Some d" and "d_event_id d = Some event"
    and "find_event db event = Some e" and "e_cancelled_at e = None"
    and "\<And>x. x \<in> set (deliveries db) \<Longrightarrow> d_event_id x = Some event \<Longrightarrow> x = d \<or> d_status x \<in> {Pending, Cancelled}"
  shows "\<exists>v db2. cancel_event later event db1 = Inr (v, db2) \<and>
    (\<exists>d' \<in> set (deliveries db2). d_id d' = i \<and> d_status d' = Cancelled \<and> d_delivered_at d' \<noteq> None)"
proof -
  from requeue_delivery_effect [OF assms(1)] assms(3) have ok: "requeueable db d"
    and rows: "deliveries db1 = map (\<lambda>x. if d_id x = i \<and> requeueable db x then requeued_row now x else x) (deliveries db)"
    by auto
  have d: "d \<in> set (deliveries db)" "d_id d = i" using find_delivery_key [OF assms(3)] by auto
  have "row_ok d" using assms(2) d(1) by (auto intro: row_ok_in)
  then have sent: "d_delivered_at d \<noteq> None" using ok by (simp add: row_ok_def copy_ok_def requeueable_def)
  have "events db1 = events db"
    using assms(1) by (auto simp: requeue_delivery_def split: option.splits if_splits)
  then have e: "find_event db1 event = Some e" using assms(5) by (simp add: find_event_def)
  have "d_status x \<notin> terminal_outside_cancel" if "x \<in> set (deliveries db1)" "d_event_id x = Some event" for x
  proof -
    from that(1) obtain y where y: "y \<in> set (deliveries db)"
      "x = (if d_id y = i \<and> requeueable db y then requeued_row now y else y)" by (auto simp: rows)
    then have "d_event_id y = Some event" using that(2) by (auto simp: requeued_row_def release_claim_def split: if_splits)
    with y assms(7) [OF y(1)] ok d(2) show ?thesis
      by (auto simp: requeued_row_def terminal_outside_cancel_def)
  qed
  then have "\<not> event_has_irreversible_delivery db1 event" by (auto simp: event_has_irreversible_delivery_def)
  then obtain v db2 where cancel: "cancel_event later event db1 = Inr (v, db2)"
    using e assms(6) by (simp add: cancel_event_def Let_def)
  let ?d = "requeued_row now d"
  have "?d \<in> set (deliveries db1)" using rows d ok by (auto intro!: image_eqI [where x = d])
  moreover have "queued_of event ?d" using assms(4) by (simp add: queued_of_def requeued_row_def release_claim_def)
  ultimately have "cancelled_row later ?d \<in> set (deliveries db2)"
    unfolding cancel_event_effect(1) [OF cancel e assms(6)] by force
  moreover have "d_id (cancelled_row later ?d) = i" "d_status (cancelled_row later ?d) = Cancelled"
    "d_delivered_at (cancelled_row later ?d) \<noteq> None"
    using d(2) sent by (simp_all add: cancelled_row_def requeued_row_def release_claim_def)
  ultimately show ?thesis using cancel by blast
qed

end
