(* ===== verification/System.thy ===== *)
theory System
  imports Operations
begin

text \<open>
  The running system: the requests of app/main.py and the background passes as labelled
  transactions on the database (\<open>perform\<close>), and the steps of the whole service, in which the
  worker processes hold the claims they have not yet reported (\<open>step\<close>). Every transaction
  is one step, so any interleaving of requests, sweeps and workers is a path of \<open>step\<close>.
  The invariants of every reachable state follow from the two facts the components proved about
  their operations: a transaction \<open>keeps\<close> the tables, and a claim takes one row.
\<close>

section \<open>Transactions\<close>

datatype (plugins only: code size) operation =
  Push_event runtime settings time time uuid "nat \<Rightarrow> uuid \<times> uuid" request
| Push_correction time uuid "nat \<Rightarrow> uuid" uuid string "(string \<times> json) list"
| Cancel_event time uuid
| Reschedule_event time uuid "time option"
| Change_cutoff time uuid "time option"
| Post_consent time uuid uuid consent_decision
| Void_body time uuid
| Post_receipt time settings uuid uuid string receipt_result
| Requeue_delivery time uuid
| Requeue_destination time uuid
| Requeue_event time uuid
| Revive_delivery time uuid
| Register_destination time settings uuid string string "string list option" "bool option" "filters option"
| Update_destination time settings string uuid "string option" "string list option" "bool option" "filters option"
| Confirm_destination time settings string uuid "string option" "string option"
| Reissue_challenge time settings string uuid
| Pause_destination time uuid bool "time option" "time option"
| Resume_destination uuid
| Recover_destination time uuid
| Register_source time uuid string string
| Rotate_source_key time string uuid
| Disable_source time uuid
| Enable_source uuid
| Set_threshold string "int option"
| Clear_threshold string
| Set_chain time uuid string "uuid list"
| Clear_chain string
| Set_policy settings string "int option"
| Clear_policy string
| Sweep time settings "uuid \<Rightarrow> bool"
| Heartbeat time settings uuid "uuid option"
| Claim_probe time settings "uuid \<Rightarrow> string" time
| Record_probe time settings string probe bool "json option"

primrec perform :: "operation \<Rightarrow> database \<Rightarrow> database" where
  "perform (Push_event rt cfg clock now eid gen rq) db = snd (create_event rt cfg clock now eid gen rq db)"
| "perform (Push_correction now cid gen event key payload) db =
     committed (create_correction now cid gen event key (JObj payload) db) db"
| "perform (Cancel_event now i) db = committed (cancel_event now i db) db"
| "perform (Reschedule_event now i nb) db = committed (reschedule_event now i nb db) db"
| "perform (Change_cutoff now i dby) db = committed (update_event_deliver_by now i dby db) db"
| "perform (Post_consent now dest event decision) db = committed (ingest_decision now dest event decision db) db"
| "perform (Void_body now i) db = committed (void_gated_body now i db) db"
| "perform (Post_receipt now s i dest key result) db =
     committed (receive_receipt s i dest key result (False, now, db) [] db) db"
| "perform (Requeue_delivery now i) db = committed (requeue_delivery now i db) db"
| "perform (Requeue_destination now dest) db = committed (requeue_unreconciled now dest db) db"
| "perform (Requeue_event now i) db = committed (requeue_event_unreconciled now i db) db"
| "perform (Revive_delivery now i) db = committed (revive_dead_letter now i db) db"
| "perform (Register_destination now s i token url types observe fs) db =
     committed (register_destination now s i token url types observe fs db) db"
| "perform (Update_destination now s token i url types observe fs) db =
     committed (update_destination now s token i url types observe fs db) db"
| "perform (Confirm_destination now s token i c h) db = snd (confirm_destination now s token i c h db)"
| "perform (Reissue_challenge now s token i) db = committed (reissue_challenge now s token i db) db"
| "perform (Pause_destination now i given a b) db = committed (pause_destination now i given a b db) db"
| "perform (Resume_destination i) db = committed (resume_destination i db) db"
| "perform (Recover_destination now i) db = committed (recover_destination now i db) db"
| "perform (Register_source now i secret name) db = committed (register_source now i secret name db) db"
| "perform (Rotate_source_key now secret i) db = committed (rotate_source_key now secret i db) db"
| "perform (Disable_source now i) db = committed (disable_source now i db) db"
| "perform (Enable_source i) db = committed (enable_source i db) db"
| "perform (Set_threshold path n) db = committed (set_ack_threshold path n db) db"
| "perform (Clear_threshold path) db = committed (clear_ack_threshold path db) db"
| "perform (Set_chain now i path ids) db = committed (set_relay_chain now i path ids db) db"
| "perform (Clear_chain path) db = committed (clear_relay_chain path db) db"
| "perform (Set_policy s path n) db = committed (set_preview_policy s path n db) db"
| "perform (Clear_policy path) db = committed (clear_preview_policy path db) db"
| "perform (Sweep now s pick) db = snd (sweep_once now s pick db)"
| "perform (Heartbeat now s i token) db = snd (heartbeat now s i token db)"
| "perform (Claim_probe now s token jitter) db = snd (claim_probe now s token jitter db)"
| "perform (Record_probe now s token p success body) db =
     committed (record_probe now s token p success body db) db"

text \<open>The two requests whose handlers only wrap a component's operation.\<close>

interpretation receipt_request: delivery_operation
  "\<lambda>db. committed (receive_receipt s i dest key result (False, now, db) [] db) db"
  for s i dest key result now
proof unfold_locales
  fix db
  assume "db_ok db"
  then show "keeps db (committed (receive_receipt s i dest key result (False, now, db) [] db) db)"
    using receipt.run_keeps by (simp add: receive_receipt_def ingest_receipt_def)
qed

interpretation threshold_clear: delivery_operation "\<lambda>db. committed (clear_ack_threshold path db) db" for path
  by unfold_locales
    (rule keeps_committed, rule keeps_same,
      auto simp: clear_ack_threshold_def clear_threshold_rows_def split: sum.splits)

lemma perform_keeps:
  assumes "db_ok db"
  shows "keeps db (perform op db)"
  using assms
  by (cases op)
    (simp_all only: perform.simps
      ingest.run_keeps correction.run_keeps cancel.run_keeps reschedule.run_keeps cutoff.run_keeps
      decision.run_keeps manual_void.run_keeps receipt_request.run_keeps requeue_one.run_keeps
      requeue_all.run_keeps requeue_event.run_keeps revive.run_keeps registration.run_keeps
      relocation.run_keeps confirmation.run_keeps reissue.run_keeps pause.run_keeps resume.run_keeps
      recovery.run_keeps source_new.run_keeps key_rotation.run_keeps source_off.run_keeps
      source_on.run_keeps threshold.run_keeps threshold_clear.run_keeps chain_set.run_keeps
      chain_clear.run_keeps policy_set.run_keeps policy_clear.run_keeps sweep.run_keeps
      lease_beat.run_keeps probe.run_keeps probe_answer.run_keeps)

interpretation transaction: delivery_operation "perform op" for op
  by unfold_locales (rule perform_keeps)

section \<open>The service\<close>

text \<open>
  The database together with the claims the worker threads hold: a claim is held from the commit
  of the claiming transaction until the transaction that records its result. A process that dies
  forgets its claim and leaves the database as it is.
\<close>

record system =
  sys_db :: database
  sys_claims :: "claim list"

definition held :: "claim option \<Rightarrow> claim list \<Rightarrow> claim list" where
  "held r cs = (case r of None \<Rightarrow> cs | Some c \<Rightarrow> c # cs)"

inductive step :: "system \<Rightarrow> system \<Rightarrow> bool" where
  transact: "step sys (sys\<lparr>sys_db := perform op (sys_db sys)\<rparr>)"
| claim: "claim_next_event now s token pick ld lr (sys_db sys) = (r, db') \<Longrightarrow>
    step sys \<lparr>sys_db = db', sys_claims = held r (sys_claims sys)\<rparr>"
| result: "c \<in> set (sys_claims sys) \<Longrightarrow>
    step sys \<lparr>sys_db = committed (record_result now clock s jitter c r lost (sys_db sys)) (sys_db sys),
      sys_claims = remove1 c (sys_claims sys)\<rparr>"
| crash: "c \<in> set (sys_claims sys) \<Longrightarrow> step sys (sys\<lparr>sys_claims := remove1 c (sys_claims sys)\<rparr>)"

inductive_cases step_from: "step sys sys'"

definition initial :: "system \<Rightarrow> bool" where
  "initial sys \<longleftrightarrow> sys_db sys = empty_database \<and> sys_claims sys = []"

inductive reachable :: "system \<Rightarrow> bool" where
  start: "initial sys \<Longrightarrow> reachable sys"
| more: "reachable sys \<Longrightarrow> step sys sys' \<Longrightarrow> reachable sys'"

section \<open>What one transaction does to a row\<close>

text \<open>
  \<open>moves\<close> covers every transaction: the rows that were there follow the machine or are the one
  row a claim took, and the new rows are born.
\<close>

definition moved :: "database \<Rightarrow> delivery \<Rightarrow> delivery \<Rightarrow> bool" where
  "moved db d d' \<longleftrightarrow> row_evolves d d' \<or> (claimed_row d d' \<and> relay_open (deliveries db) d)"

definition moves :: "database \<Rightarrow> database \<Rightarrow> bool" where
  "moves db db' \<longleftrightarrow> (\<exists>rows new. deliveries db' = rows @ new \<and>
     list_all2 (moved db) (deliveries db) rows \<and> list_all born new)"

lemma moves_keeps: "keeps db db' \<Longrightarrow> moves db db'"
  unfolding keeps_def evolves_def moves_def moved_def
  by (blast intro: list_all2_mono)

lemma moves_claims:
  assumes "claims db db'" and "keys_ok db"
  shows "moves db db'"
proof (cases "deliveries db' = deliveries db")
  case True
  then show ?thesis
    unfolding moves_def moved_def
    by (intro exI [of _ "deliveries db"] exI [of _ "[]"]) (simp add: list_all2_same)
next
  case False
  then obtain e f where e: "claims_row db e f"
    and db': "deliveries db' = sql_update (\<lambda>x. d_id x = d_id e) f (deliveries db)"
    using assms(1) by (auto simp: claims_def)
  have "moved db x (f x)" if "x \<in> set (deliveries db)" "d_id x = d_id e" for x
    using e that keys_ok_id [OF assms(2)] by (auto simp: moved_def claims_row_def)
  then have "list_all2 (moved db) (deliveries db) (deliveries db')"
    unfolding db' by (intro list_all2_sql_update) (simp_all add: moved_def)
  then show ?thesis
    unfolding moves_def by (intro exI [of _ "deliveries db'"] exI [of _ "[]"]) simp
qed

lemma moves_forward:
  assumes "moves db db'" and "d \<in> set (deliveries db)"
  obtains d' where "d' \<in> set (deliveries db')" "moved db d d'"
proof -
  from assms(1) obtain rows new where "deliveries db' = rows @ new" "list_all2 (moved db) (deliveries db) rows"
    by (auto simp: moves_def)
  with assms(2) that show thesis
    by (fastforce simp: in_set_conv_nth list_all2_conv_all_nth nth_append)
qed

lemma moves_back:
  assumes "moves db db'" and "d' \<in> set (deliveries db')"
  obtains (old) d where "d \<in> set (deliveries db)" "moved db d d'" | (new) "born d'"
proof -
  from assms(1) obtain rows new where 1: "deliveries db' = rows @ new"
    "list_all2 (moved db) (deliveries db) rows" "list_all born new"
    by (auto simp: moves_def)
  from assms(2) 1(1) consider "d' \<in> set rows" | "d' \<in> set new" by auto
  then show thesis
  proof cases
    case 1
    then obtain i where "i < length rows" "d' = rows ! i" by (auto simp: in_set_conv_nth)
    with \<open>list_all2 (moved db) (deliveries db) rows\<close> show thesis
      by (intro old [of "deliveries db ! i"]) (simp_all add: list_all2_conv_all_nth)
  next
    case 2
    with \<open>list_all born new\<close> new show thesis by (auto simp: list_all_iff)
  qed
qed

lemma moved_snapshot: "moved db d d' \<Longrightarrow> same_snapshot d d'"
  by (auto simp: moved_def row_evolves_def claimed_row_def)

lemma moved_acknowledged:
  assumes "moved db d d'" and "row_ok d" and "d_reconcile_state d = Acknowledged"
  shows "d_reconcile_state d' = Acknowledged \<and> d_status d' = Delivered"
  using assms row_evolves_acknowledged acknowledged_live
  by (fastforce simp: moved_def claimed_row_def)

lemma moved_closed:
  assumes "moved db d d'" and "row_ok d" and "closed_status (d_status d)"
  shows "closed_status (d_status d') \<and> (d_delivered_at d' = None) = (d_delivered_at d = None)"
  using assms lifecycles_closed [of "copy_of d" "copy_of d'"]
  by (auto simp: moved_def claimed_row_def row_evolves_def row_ok_def closed_status_def)


section \<open>The order of a relay run\<close>

text \<open>A station behind another one: same event, same chain, the next number.\<close>

definition station_before :: "delivery \<Rightarrow> delivery \<Rightarrow> bool" where
  "station_before prev d \<longleftrightarrow> sql_eq (d_event_id prev) (d_event_id d) \<and>
     sql_eq (d_relay_chain_id prev) (d_relay_chain_id d) \<and>
     sql_eq (d_relay_station_no prev) (map_option (\<lambda>n. n - 1) (d_relay_station_no d))"

definition left_queue :: "delivery \<Rightarrow> bool" where
  "left_queue d \<longleftrightarrow> d_status d = In_flight \<or> d_delivered_at d \<noteq> None"

definition relay_ordered :: "delivery list \<Rightarrow> bool" where
  "relay_ordered rows \<longleftrightarrow> (\<forall>d \<in> set rows. left_queue d \<longrightarrow> relay_open rows d)"

lemma relay_open_prev:
  "relay_open rows d \<longleftrightarrow> d_relay_chain_id d = None \<or> d_relay_station_no d = Some 1 \<or>
     (\<exists>prev \<in> set rows. station_before prev d \<and> d_reconcile_state prev = Acknowledged)"
  unfolding relay_open_def station_before_def by blast

lemma station_before_snapshot:
  "same_snapshot prev prev' \<Longrightarrow> same_snapshot d d' \<Longrightarrow> station_before prev' d' = station_before prev d"
  by (simp add: station_before_def same_snapshot_def)

lemma relay_open_moves:
  assumes "moves db db'" and "copies_ok db" and "same_snapshot d d'" and "relay_open (deliveries db) d"
  shows "relay_open (deliveries db') d'"
proof -
  have same: "d_relay_chain_id d' = d_relay_chain_id d" "d_relay_station_no d' = d_relay_station_no d"
    using assms(3) by (simp_all add: same_snapshot_def)
  from assms(4) consider "d_relay_chain_id d = None \<or> d_relay_station_no d = Some 1"
    | prev where "prev \<in> set (deliveries db)" "station_before prev d" "d_reconcile_state prev = Acknowledged"
    unfolding relay_open_prev by blast
  then show ?thesis
  proof cases
    case 1
    with same show ?thesis unfolding relay_open_prev by auto
  next
    case 2
    obtain prev' where p: "prev' \<in> set (deliveries db')" "moved db prev prev'"
      using moves_forward [OF assms(1) 2(1)] by blast
    have "d_reconcile_state prev' = Acknowledged"
      using moved_acknowledged [OF p(2)] 2 assms(2) by (blast intro: row_ok_in)
    moreover have "station_before prev' d'"
      using 2(2) station_before_snapshot [OF moved_snapshot [OF p(2)] assms(3)] by simp
    ultimately show ?thesis using p(1) unfolding relay_open_prev by blast
  qed
qed

lemma moved_left_queue:
  assumes "moved db d d'" and "left_queue d'"
  shows "left_queue d \<or> relay_open (deliveries db) d"
  using assms row_evolves_in_flight [of d d'] row_evolves_sent_from [of d d']
  by (auto simp: moved_def left_queue_def)

lemma relay_ordered_moves:
  assumes "moves db db'" and "copies_ok db" and "relay_ordered (deliveries db)"
  shows "relay_ordered (deliveries db')"
  unfolding relay_ordered_def
proof (intro ballI impI)
  fix d'
  assume d': "d' \<in> set (deliveries db')" and out: "left_queue d'"
  from assms(1) d' show "relay_open (deliveries db') d'"
  proof (cases rule: moves_back)
    case (old d)
    then have "relay_open (deliveries db) d"
      using moved_left_queue [OF old(2) out] assms(3) by (auto simp: relay_ordered_def)
    then show ?thesis
      by (rule relay_open_moves [OF assms(1,2) moved_snapshot [OF old(2)]])
  next
    case new
    with out show ?thesis by (auto simp: left_queue_def dest: born_not_sent)
  qed
qed

section \<open>The invariant of the service\<close>

text \<open>
  \<open>system_ok\<close>: the tables satisfy their constraints and every copy is in a state of the machine;
  no destination has two copies in flight; a station has left its queue only after the one in
  front acknowledged; every claim a worker holds describes a row of the table.
\<close>

definition claim_known :: "database \<Rightarrow> claim \<Rightarrow> bool" where
  "claim_known db c \<longleftrightarrow> (\<exists>d \<in> set (deliveries db). same_snapshot (cl_row c) d)"

definition system_ok :: "system \<Rightarrow> bool" where
  "system_ok sys \<longleftrightarrow> db_ok (sys_db sys) \<and> one_in_flight (sys_db sys) \<and>
     relay_ordered (deliveries (sys_db sys)) \<and> list_all (claim_known (sys_db sys)) (sys_claims sys)"

lemma claim_known_moves: "moves db db' \<Longrightarrow> claim_known db c \<Longrightarrow> claim_known db' c"
  unfolding claim_known_def by (metis moves_forward moved_snapshot same_snapshot_trans)

lemma claim_known_matches: "claim_known db c \<Longrightarrow> keys_ok db \<Longrightarrow> claim_matches c db"
  unfolding claim_known_def claim_matches_def
  by (metis keys_ok_id same_snapshot_def)

text \<open>The two kinds of transaction carry the invariant of the database.\<close>

definition tables_ok :: "database \<Rightarrow> bool" where
  "tables_ok db \<longleftrightarrow> db_ok db \<and> one_in_flight db \<and> relay_ordered (deliveries db)"

lemma tables_ok_keeps: "keeps db db' \<Longrightarrow> tables_ok db \<Longrightarrow> tables_ok db'"
  unfolding tables_ok_def
  using keeps_db_ok one_in_flight_keeps relay_ordered_moves [OF moves_keeps] db_ok_copies by blast

lemma tables_ok_claims: "claims db db' \<Longrightarrow> tables_ok db \<Longrightarrow> tables_ok db'"
  unfolding tables_ok_def
  using claims_db_ok one_in_flight_claims relay_ordered_moves [OF moves_claims] db_ok_copies db_ok_keys by blast


lemma system_ok_alt:
  "system_ok sys \<longleftrightarrow> tables_ok (sys_db sys) \<and> list_all (claim_known (sys_db sys)) (sys_claims sys)"
  by (auto simp: system_ok_def tables_ok_def)

lemma tables_ok_db_ok: "tables_ok db \<Longrightarrow> db_ok db"
  by (simp add: tables_ok_def)

lemma claims_known_moves:
  "moves db db' \<Longrightarrow> list_all (claim_known db) cs \<Longrightarrow> list_all (claim_known db') cs"
  by (auto simp: list_all_iff intro: claim_known_moves)

lemma claim_next_known:
  assumes "claim_head now s token ld lr db = (Some c, db')"
  shows "claim_known db' c"
proof -
  from assms obtain d e where pick: "picked now lr (deliveries db) d = Some e"
    and c: "cl_row c = claim_row now s token e"
    and rows: "deliveries db' = sql_update (\<lambda>x. d_id x = d_id e) (claim_row now s token) (deliveries db)"
    by (rule claim_head_Some) (rule that, assumption+)
  have "e \<in> set (deliveries db)"
    using picked_mem(1) [OF pick] by (simp add: queue_mem)
  then have "claim_row now s token e \<in> set (deliveries db')"
    by (auto simp: rows set_sql_update)
  then show ?thesis unfolding claim_known_def c by (intro bexI [of _ "claim_row now s token e"]) simp
qed

text \<open>A claiming transaction: cleaning keeps the tables, then one row is taken.\<close>

lemma claim_next_event_ok:
  assumes "claim_next_event now s token pick ld lr db = (r, db')" and "tables_ok db"
    and "list_all (claim_known db) cs"
  shows "tables_ok db'" "list_all (claim_known db') (held r cs)"
proof -
  define db1 where "db1 = clean_queues now pick db"
  have run: "claim_head now s token ld lr db1 = (r, db')"
    using assms(1) by (simp add: claim_next_event_def db1_def)
  have k: "keeps db db1"
    unfolding db1_def by (rule queue_cleaning.run_keeps [OF tables_ok_db_ok [OF assms(2)]])
  then have ok1: "tables_ok db1" using assms(2) by (rule tables_ok_keeps)
  have c: "claims db1 db'"
    using claim_head_claims [of db1 now s token ld lr] run by simp
  then show ok': "tables_ok db'" using ok1 by (rule tables_ok_claims)
  have "moves db1 db'"
    by (rule moves_claims [OF c db_ok_keys [OF tables_ok_db_ok [OF ok1]]])
  then have "list_all (claim_known db') cs"
    using claims_known_moves [OF _ claims_known_moves [OF moves_keeps [OF k] assms(3)]] by simp
  then show "list_all (claim_known db') (held r cs)"
    using claim_next_known [of now s token ld lr db1] run by (cases r) (simp_all add: held_def)
qed

lemma committed_result_keeps:
  assumes "db_ok db" and "claim_matches c db"
  shows "keeps db (committed (record_result now clock s jitter c r lost db) db)"
  by (rule keeps_committed) (rule record_result_keeps [OF _ assms])

lemma step_ok:
  assumes "step sys sys'" and "system_ok sys"
  shows "system_ok sys'"
  using assms(1)
proof (cases rule: step.cases)
  case (transact op)
  have k: "keeps (sys_db sys) (perform op (sys_db sys))"
    using assms(2) by (intro perform_keeps) (simp add: system_ok_def)
  with assms(2) transact show ?thesis
    unfolding system_ok_alt
    by (simp add: tables_ok_keeps [OF k] claims_known_moves [OF moves_keeps [OF k]])
next
  case (claim now s token pick ld lr r db')
  with assms(2) show ?thesis
    unfolding system_ok_alt by (simp add: claim_next_event_ok [OF claim(2), where cs = "sys_claims sys"])
next
  case (result c now clock s jitter r lost)
  have known: "claim_known (sys_db sys) c"
    using assms(2) result(2) by (simp add: system_ok_def list_all_iff)
  have ok: "db_ok (sys_db sys)" using assms(2) by (simp add: system_ok_def)
  have k: "keeps (sys_db sys) (sys_db sys')"
    using committed_result_keeps [OF ok claim_known_matches [OF known db_ok_keys [OF ok]]]
    by (simp add: result(1))
  have "list_all (claim_known (sys_db sys)) (remove1 c (sys_claims sys))"
    using assms(2) by (auto simp: system_ok_def list_all_iff dest: notin_set_remove1)
  then have "list_all (claim_known (sys_db sys')) (remove1 c (sys_claims sys))"
    by (rule claims_known_moves [OF moves_keeps [OF k]])
  with tables_ok_keeps [OF k] assms(2) show ?thesis
    unfolding system_ok_alt by (simp add: result(1))
next
  case (crash c)
  with assms(2) show ?thesis
    by (auto simp: system_ok_def list_all_iff dest: notin_set_remove1)
qed

lemma initial_ok: "initial sys \<Longrightarrow> system_ok sys"
  by (simp add: initial_def empty_database_def system_ok_def db_ok_def copies_ok_def destinations_ok_def keys_ok_def
      one_in_flight_def in_flight_count_def relay_ordered_def)

lemma reachable_ok: "reachable sys \<Longrightarrow> system_ok sys"
  by (induction rule: reachable.induct) (auto intro: initial_ok step_ok)


section \<open>What no step undoes\<close>

text \<open>The table after a step: at most two transactions' worth of movement.\<close>

lemma step_moves:
  assumes "step sys sys'" and "system_ok sys"
  obtains db1 where "keeps (sys_db sys) db1" "moves db1 (sys_db sys')"
  using assms(1)
proof (cases rule: step.cases)
  case (transact op)
  then show thesis
    using perform_keeps assms(2)
    by (intro that [of "sys_db sys'"]) (simp_all add: system_ok_def moves_keeps)
next
  case (claim now s token pick ld lr r db')
  have ok: "db_ok (clean_queues now pick (sys_db sys))"
    using assms(2) by (intro queue_cleaning.keeps_ok) (simp add: system_ok_def)
  have "claims (clean_queues now pick (sys_db sys)) db'"
    using claim(2) claim_head_claims [of "clean_queues now pick (sys_db sys)" now s token ld lr]
    by (simp add: claim_next_event_def)
  then have "moves (clean_queues now pick (sys_db sys)) db'"
    using db_ok_keys [OF ok] by (rule moves_claims)
  then show thesis
    using claim(1) assms(2)
    by (intro that [of "clean_queues now pick (sys_db sys)"] queue_cleaning.run_keeps) (simp_all add: system_ok_def)
next
  case (result c now clock s jitter r lost)
  have ok: "db_ok (sys_db sys)" using assms(2) by (simp add: system_ok_def)
  have "claim_known (sys_db sys) c"
    using assms(2) result(2) by (simp add: system_ok_def list_all_iff)
  then have "keeps (sys_db sys) (sys_db sys')"
    using committed_result_keeps [OF ok claim_known_matches [OF _ db_ok_keys [OF ok]]]
    by (simp add: result(1))
  then show thesis by (intro that [of "sys_db sys'"]) (simp_all add: moves_keeps)
next
  case (crash c)
  then show thesis by (intro that [of "sys_db sys"]) (simp_all add: moves_keeps)
qed

text \<open>A property of a row that movement carries is carried by every path.\<close>

lemma step_row:
  assumes "step sys sys'" and "system_ok sys" and "d \<in> set (deliveries (sys_db sys))" and "P d"
    and carried: "\<And>db d d'. moved db d d' \<Longrightarrow> row_ok d \<Longrightarrow> P d \<Longrightarrow> P d'"
  shows "\<exists>d' \<in> set (deliveries (sys_db sys')). same_snapshot d d' \<and> P d'"
proof -
  obtain db1 where k: "keeps (sys_db sys) db1" and m: "moves db1 (sys_db sys')"
    using step_moves [OF assms(1,2)] by blast
  have ok: "copies_ok (sys_db sys)" "copies_ok db1"
    using assms(2) keeps_db_ok [OF k] by (auto simp: system_ok_def)
  obtain d1 where d1: "d1 \<in> set (deliveries db1)" "moved (sys_db sys) d d1"
    using moves_forward [OF moves_keeps [OF k] assms(3)] by blast
  obtain d2 where d2: "d2 \<in> set (deliveries (sys_db sys'))" "moved db1 d1 d2"
    using moves_forward [OF m d1(1)] by blast
  have "P d1" using carried [OF d1(2) row_ok_in [OF ok(1) assms(3)] assms(4)] .
  then have "P d2" by (rule carried [OF d2(2) row_ok_in [OF ok(2) d1(1)]])
  with d2 moved_snapshot [OF d1(2)] show ?thesis
    by (blast intro: same_snapshot_trans dest: moved_snapshot)
qed

lemma path_row:
  assumes "step\<^sup>*\<^sup>* sys sys'" and "system_ok sys" and "d \<in> set (deliveries (sys_db sys))" and "P d"
    and carried: "\<And>db d d'. moved db d d' \<Longrightarrow> row_ok d \<Longrightarrow> P d \<Longrightarrow> P d'"
  shows "system_ok sys' \<and> (\<exists>d' \<in> set (deliveries (sys_db sys')). same_snapshot d d' \<and> P d')"
  using assms(1)
proof (induction rule: rtranclp_induct)
  case base
  with assms(2-4) show ?case using same_snapshot_refl by blast
next
  case (step sys1 sys2)
  then obtain d1 where ok: "system_ok sys1" and d1: "d1 \<in> set (deliveries (sys_db sys1))" "same_snapshot d d1" "P d1"
    by blast
  have "\<exists>d' \<in> set (deliveries (sys_db sys2)). same_snapshot d1 d' \<and> P d'"
    by (rule step_row [where P = P, OF step.hyps(2) ok d1(1,3)]) (rule carried)
  with d1(2) step_ok [OF step.hyps(2) ok] show ?case by (blast intro: same_snapshot_trans)
qed

lemma acknowledged_forever:
  assumes "reachable sys" and "step\<^sup>*\<^sup>* sys sys'" and "d \<in> set (deliveries (sys_db sys))"
    and "d_reconcile_state d = Acknowledged"
  shows "\<exists>d' \<in> set (deliveries (sys_db sys')). same_snapshot d d' \<and> d_reconcile_state d' = Acknowledged"
  using path_row [OF assms(2) reachable_ok [OF assms(1)] assms(3), of "\<lambda>d. d_reconcile_state d = Acknowledged"]
    assms(4) moved_acknowledged by blast

lemma closed_forever:
  assumes "reachable sys" and "step\<^sup>*\<^sup>* sys sys'" and "d \<in> set (deliveries (sys_db sys))"
    and "closed_status (d_status d)" and "d_delivered_at d = None"
  shows "\<exists>d' \<in> set (deliveries (sys_db sys')). same_snapshot d d' \<and> closed_status (d_status d') \<and> d_delivered_at d' = None"
  using path_row [OF assms(2) reachable_ok [OF assms(1)] assms(3),
      of "\<lambda>d. closed_status (d_status d) \<and> d_delivered_at d = None"]
    assms(4,5) moved_closed by blast

lemma snapshot_forever:
  assumes "reachable sys" and "step\<^sup>*\<^sup>* sys sys'" and "d \<in> set (deliveries (sys_db sys))"
  shows "\<exists>d' \<in> set (deliveries (sys_db sys')). same_snapshot d d'"
  using path_row [OF assms(2) reachable_ok [OF assms(1)] assms(3), of "\<lambda>_. True"] by blast

section \<open>Consequences in every reachable state\<close>

lemma reachable_gate:
  assumes "reachable sys" and "d \<in> set (deliveries (sys_db sys))" and "d_status d \<in> {In_flight, Delivered}"
  shows "gate_open (d_release_state d)"
proof -
  have "row_ok d" using reachable_ok [OF assms(1)] assms(2) by (auto simp: system_ok_def intro: row_ok_in)
  then show ?thesis using assms(3) status_ok_gate by (auto simp: row_ok_def copy_ok_def)
qed

lemma reachable_relay:
  assumes "reachable sys" and "d \<in> set (deliveries (sys_db sys))" and "left_queue d"
    and "d_relay_chain_id d \<noteq> None" and "d_relay_station_no d \<noteq> Some 1"
  shows "\<exists>prev \<in> set (deliveries (sys_db sys)). station_before prev d \<and> d_reconcile_state prev = Acknowledged
    \<and> d_status prev = Delivered"
proof -
  have ok: "system_ok sys" by (rule reachable_ok [OF assms(1)])
  then have "relay_open (deliveries (sys_db sys)) d"
    using assms(2,3) by (simp add: system_ok_def relay_ordered_def)
  with assms(4,5) obtain prev where "prev \<in> set (deliveries (sys_db sys))" "station_before prev d"
    "d_reconcile_state prev = Acknowledged"
    unfolding relay_open_prev by auto
  moreover from this ok have "d_status prev = Delivered"
    by (intro acknowledged_live row_ok_in) (auto simp: system_ok_def)
  ultimately show ?thesis by blast
qed

end
