(* ===== verification/Samples.thy ===== *)
theory Samples
  imports System
begin

text \<open>Concrete rows and databases on which the witnesses of the properties evaluate the model.\<close>

text \<open>The parts of an outcome that succeeded.\<close>

fun run_ok :: "'e + 'r \<times> 'd \<Rightarrow> bool" where
  "run_ok (Inl _) = False"
| "run_ok (Inr _) = True"

definition run_value :: "'e + 'r \<times> 'd \<Rightarrow> 'r" where
  "run_value out = (case out of Inl _ \<Rightarrow> undefined | Inr (r, _) \<Rightarrow> r)"

definition run_state :: "'e + 'r \<times> 'd \<Rightarrow> 'd" where
  "run_state out = (case out of Inl _ \<Rightarrow> undefined | Inr (_, d) \<Rightarrow> d)"

lemma run_Inr: "run_ok out \<Longrightarrow> out = Inr (run_value out, run_state out)"
  by (cases out) (auto simp: run_value_def run_state_def)

definition sample_destination :: "uuid \<Rightarrow> destination" where
  "sample_destination i =
    \<lparr> dest_id = i, dest_url = ''https://a'', dest_status = Active, dest_failure_count = 0,
      dest_next_event_seq = 9, dest_recoverable_at = None, dest_created_at = 0,
      dest_confirmation_state = Confirmed, dest_challenge_token = None,
      dest_challenge_expires_at = None, dest_confirmed_at = Some 0,
      dest_confirmation_generation = 1, dest_confirmation_round = 1,
      dest_confirmation_attempt_count = 0, dest_next_probe_at = 0, dest_observe_only = False,
      dest_paused_from = None, dest_paused_until = None \<rparr>"

definition sample_event :: "uuid \<Rightarrow> event" where
  "sample_event i =
    \<lparr> e_id = i, e_source_id = None, e_event_type = ''order'', e_dedupe_key = ''k'',
      e_payload = JNull, e_not_before = None, e_deliver_by = None, e_cancelled_at = None,
      e_created_at = 0, e_preview_payload = None, e_required_ack_count = None,
      e_corrects_event_id = None \<rparr>"

definition sample_copy :: "uuid \<Rightarrow> uuid \<Rightarrow> int \<Rightarrow> delivery" where
  "sample_copy i dest seq = new_delivery 0 i 50 dest ''order'' (show_nat i) JNull seq"

definition database_of :: "delivery list \<Rightarrow> database" where
  "database_of rows = empty_database
    \<lparr> destinations := [sample_destination 7, sample_destination 8, sample_destination 9],
      events := [sample_event 50], deliveries := rows \<rparr>"

text \<open>Two queued copies for one destination, the younger one first in the table.\<close>

definition queued_db :: database where
  "queued_db = database_of [sample_copy 2 7 2, sample_copy 1 7 1]"

text \<open>A copy handed off and waiting for its receipt.\<close>

definition awaiting_copy :: delivery where
  "awaiting_copy = (sample_copy 1 7 1)\<lparr>d_status := Delivered, d_delivered_at := Some 5,
     d_reconcile_state := Awaiting, d_reconcile_deadline := Some 100\<rparr>"

definition awaiting_db :: database where
  "awaiting_db = database_of [awaiting_copy]"

definition first_receipt :: "api_error + receipt \<times> database" where
  "first_receipt = decide_receipt 50 default_settings 70 7 ''1'' Success awaiting_db"

definition second_receipt :: "api_error + receipt \<times> database" where
  "second_receipt = decide_receipt 51 default_settings 71 7 ''1'' Failure (run_state first_receipt)"

text \<open>A gated pair whose preview has gone out.\<close>

definition sent_preview :: delivery where
  "sent_preview = (sample_copy 3 7 3)\<lparr>d_phase := Preview, d_body_delivery_id := Some 4,
     d_status := Delivered, d_delivered_at := Some 5, d_consent_timeout_seconds := Some 60\<rparr>"

definition held_body :: delivery where
  "held_body = (sample_copy 4 7 4)\<lparr>d_release_state := Some Held, d_preview_delivery_id := Some 3,
     d_consent_deadline := Some 65, d_consent_timeout_seconds := Some 60\<rparr>"

definition gated_db :: database where
  "gated_db = database_of [sent_preview, held_body]"

text \<open>A relay run of three stations whose first one has been parked.\<close>

definition station_copy :: "uuid \<Rightarrow> uuid \<Rightarrow> int \<Rightarrow> delivery" where
  "station_copy i dest n = (sample_copy i dest 1)\<lparr>d_relay_chain_id := Some 60, d_relay_station_no := Some n\<rparr>"

definition stopped_run_db :: database where
  "stopped_run_db = database_of
    [ (station_copy 1 7 1)\<lparr>d_status := Dead_lettered,
        d_dead_letter_reason := Some Delivery_attempts_exhausted\<rparr>,
      station_copy 2 8 2, station_copy 3 9 3 ]"

text \<open>A runtime with concrete functions in the place of the standard library.\<close>

definition sample_runtime :: runtime where
  "sample_runtime =
    \<lparr> rt_float = (\<lambda>s. map_option (\<lambda>n. Finite (of_nat n)) (py_int s)),
      rt_datetime = (\<lambda>f. case f of Finite q \<Rightarrow> Some (seconds \<lfloor>q\<rfloor>) | _ \<Rightarrow> None),
      rt_hmac = (\<lambda>secret message. secret @ message),
      rt_loads = (\<lambda>s. if s = ''body'' then Some (JObj [(''event_type'', JStr ''order''),
        (''dedupe_key'', JStr ''k1''), (''payload'', JObj [(''total'', JInt 5)])]) else None),
      rt_is_uuid = (\<lambda>s. py_int s \<noteq> None), rt_cast_uuid = py_int,
      rt_iso_datetime = (\<lambda>_. None),
      rt_text_column = (\<lambda>v. case v of JStr t \<Rightarrow> Some t | _ \<Rightarrow> None) \<rparr>"

definition sample_request :: request where
  "sample_request = \<lparr> rq_source_id = Some ''90'', rq_signed_at = Some ''3'',
     rq_signature = Some ''sha256=key3.body'', rq_body = ''body'' \<rparr>"

text \<open>Histories of the service, built from moves that are steps.\<close>

definition do_op :: "operation \<Rightarrow> system \<Rightarrow> system" where
  "do_op op sys = sys\<lparr>sys_db := perform op (sys_db sys)\<rparr>"

definition do_claim :: "time \<Rightarrow> system \<Rightarrow> system" where
  "do_claim now sys = (case claim_next_event now default_settings (nat now) (\<lambda>_. True) (\<lambda>_. False) (\<lambda>_. False) (sys_db sys) of
     (r, db') \<Rightarrow> \<lparr>sys_db = db', sys_claims = held r (sys_claims sys)\<rparr>)"

definition sample_result :: "time \<Rightarrow> bool \<Rightarrow> send_result" where
  "sample_result now ok = \<lparr> res_started = now, res_finished = now, res_success = ok,
     res_status_code = (if ok then Some 200 else None), res_excerpt = None,
     res_error = (if ok then None else Some ''refused'') \<rparr>"

definition do_result :: "time \<Rightarrow> bool \<Rightarrow> system \<Rightarrow> system" where
  "do_result now ok sys = (case sys_claims sys of [] \<Rightarrow> sys
     | c # _ \<Rightarrow> \<lparr>sys_db = committed (record_result now now default_settings 0 c (sample_result now ok) False (sys_db sys)) (sys_db sys),
                sys_claims = remove1 c (sys_claims sys)\<rparr>)"

lemma steps_op: "step\<^sup>*\<^sup>* sys (do_op op sys)"
  unfolding do_op_def by (blast intro: step.transact)

lemma steps_claim: "step\<^sup>*\<^sup>* sys (do_claim now sys)"
  unfolding do_claim_def by (auto intro!: r_into_rtranclp step.claim split: prod.split)

lemma steps_result: "step\<^sup>*\<^sup>* sys (do_result now ok sys)"
proof (cases "sys_claims sys")
  case (Cons c cs)
  then have "step sys (do_result now ok sys)"
    using step.result [of c sys] by (simp add: do_result_def)
  then show ?thesis ..
qed (simp add: do_result_def)

lemma reachable_steps: "step\<^sup>*\<^sup>* sys sys' \<Longrightarrow> reachable sys \<Longrightarrow> reachable sys'"
  by (induction rule: rtranclp_induct) (auto intro: reachable.more)

lemmas history_intros = reachable_steps [OF steps_op] reachable_steps [OF steps_claim] reachable_steps [OF steps_result]

definition empty_sys :: system where
  "empty_sys = \<lparr>sys_db = empty_database, sys_claims = []\<rparr>"

lemma empty_reachable: "reachable empty_sys"
  by (rule reachable.start) (simp add: initial_def empty_sys_def)

definition add_destination :: "uuid \<Rightarrow> string \<Rightarrow> system \<Rightarrow> system" where
  "add_destination i url sys = do_op (Confirm_destination 2 default_settings ''tok2'' i (Some ''tok'') None)
     (do_op (Register_destination 1 default_settings i ''tok'' url (Some [''order'']) None None) sys)"

definition push :: operation where
  "push = Push_event sample_runtime default_settings (seconds 4) 3 50 (\<lambda>n. (100 + n, 200 + n)) sample_request"

definition pushed_sys :: system where
  "pushed_sys = do_op push (add_destination 7 ''https://a'' (do_op (Register_source 1 90 ''key'' ''shop'') empty_sys))"

definition claimed_sys :: system where "claimed_sys = do_claim 10 pushed_sys"
definition sent_sys :: system where "sent_sys = do_result 11 True claimed_sys"

definition receipt_op :: "time \<Rightarrow> uuid \<Rightarrow> uuid \<Rightarrow> receipt_result \<Rightarrow> operation" where
  "receipt_op now i dest result = Post_receipt now default_settings i dest ''k1'' result"

definition acknowledged_sys :: system where "acknowledged_sys = do_op (receipt_op 12 70 7 Success) sent_sys"
definition cancelled_sys :: system where "cancelled_sys = do_op (Cancel_event 12 50) pushed_sys"

text \<open>A relay of two stations whose second copy has been claimed.\<close>

definition relay_sys :: system where
  "relay_sys = do_claim 20 (do_op (receipt_op 12 70 7 Success) (do_result 11 True (do_claim 10
     (do_op push (do_op (Set_chain 2 60 ''order'' [7, 8]) (add_destination 8 ''https://b'' (add_destination 7 ''https://a''
       (do_op (Register_source 1 90 ''key'' ''shop'') empty_sys))))))))"

text \<open>A gated pair: the preview went out, the address agreed, and the body has been claimed.\<close>

definition preview_sent_sys :: system where
  "preview_sent_sys = do_result 11 True (do_claim 10 (do_op push (do_op (Set_policy default_settings ''order'' (Some 60))
     (add_destination 7 ''https://a'' (do_op (Register_source 1 90 ''key'' ''shop'') empty_sys)))))"

definition gate_sys :: system where
  "gate_sys = do_claim 20 (do_op (Post_consent 12 7 50 Approve) preview_sent_sys)"

lemma sample_histories:
  "reachable pushed_sys" "reachable claimed_sys" "reachable sent_sys" "reachable acknowledged_sys"
  "reachable cancelled_sys" "reachable relay_sys" "reachable gate_sys"
  unfolding pushed_sys_def claimed_sys_def sent_sys_def acknowledged_sys_def cancelled_sys_def relay_sys_def
    gate_sys_def preview_sent_sys_def add_destination_def
  by (intro history_intros empty_reachable)+

text \<open>The copies at the end of a history.\<close>

definition rows_of :: "system \<Rightarrow> (uuid \<times> delivery_status \<times> reconcile_state) list" where
  "rows_of sys = map (\<lambda>d. (d_id d, d_status d, d_reconcile_state d)) (deliveries (sys_db sys))"

definition row_at :: "nat \<Rightarrow> system \<Rightarrow> delivery" where
  "row_at n sys = deliveries (sys_db sys) ! n"

lemma sample_rows:
  "rows_of acknowledged_sys = [(100, Delivered, Acknowledged)]"
  "rows_of cancelled_sys = [(100, Cancelled, Rec_none)]"
  "rows_of relay_sys = [(101, Delivered, Acknowledged), (102, In_flight, Rec_none)]"
  "rows_of gate_sys = [(100, Delivered, Rec_none), (200, In_flight, Rec_none)]"
  by code_simp+

lemma row_at_in: "n < length (rows_of sys) \<Longrightarrow> row_at n sys \<in> set (deliveries (sys_db sys))"
  by (simp add: rows_of_def row_at_def)

end
