(* ===== verification/Trace.thy ===== *)
theory Trace
  imports Operations
begin

text \<open>
  The requests of app/main.py that only read: the routing verdict of every address of an event
  (\<open>EVENT_ROUTING_SQL\<close>, \<open>_routing_outcome\<close>), the summaries, the filtered listings and the
  whole trace.
\<close>

section \<open>Routing of an event\<close>

datatype routing_outcome =
  Routing_matched | Routing_no_condition | Routing_filtered | Routing_unsubscribed | Routing_unconfirmed

record routing_row =
  rr_destination_id :: uuid
  rr_observe_only :: bool
  rr_confirmed :: bool
  rr_subscribed :: bool
  rr_current_spec :: "json option"
  rr_matched :: "bool option"
  rr_evaluated_spec :: "json option"
  rr_body :: "(uuid \<times> delivery_status) option"

definition subscription_of :: "database \<Rightarrow> uuid \<Rightarrow> string \<Rightarrow> subscription option" where
  "subscription_of db dest type =
     first_row (\<lambda>s. s_destination_id s = dest \<and> s_event_type s = type) (destination_subscriptions db)"

definition evaluation_of :: "database \<Rightarrow> uuid \<Rightarrow> uuid \<Rightarrow> filter_evaluation option" where
  "evaluation_of db event dest = first_row (\<lambda>f. fe_event_id f = event \<and> fe_destination_id f = dest)
     (subscription_filter_evaluations db)"

definition bodies_to :: "database \<Rightarrow> uuid \<Rightarrow> uuid \<Rightarrow> delivery list" where
  "bodies_to db event dest =
     filter (\<lambda>d. d_event_id d = Some event \<and> d_destination_id d = dest \<and> d_phase d = Body) (deliveries db)"

definition newest_body :: "database \<Rightarrow> uuid \<Rightarrow> uuid \<Rightarrow> delivery option" where
  "newest_body db event dest =
     (case order_by (\<lambda>d. - d_destination_seq d) (bodies_to db event dest) of [] \<Rightarrow> None | d # _ \<Rightarrow> Some d)"

definition concerned :: "database \<Rightarrow> event \<Rightarrow> uuid \<Rightarrow> bool" where
  "concerned db e dest \<longleftrightarrow> subscription_of db dest (e_event_type e) \<noteq> None \<or>
     list_ex (\<lambda>d. d_event_id d = Some (e_id e) \<and> d_destination_id d = dest) (deliveries db) \<or>
     evaluation_of db (e_id e) dest \<noteq> None"

definition routing_row_of :: "database \<Rightarrow> event \<Rightarrow> destination \<Rightarrow> routing_row" where
  "routing_row_of db e d =
    (let sub = subscription_of db (dest_id d) (e_event_type e);
         fe = evaluation_of db (e_id e) (dest_id d)
     in \<lparr> rr_destination_id = dest_id d, rr_observe_only = dest_observe_only d, rr_confirmed = is_confirmed d,
          rr_subscribed = (sub \<noteq> None),
          rr_current_spec = (case sub of None \<Rightarrow> None | Some s \<Rightarrow> s_filter_spec s),
          rr_matched = map_option fe_matched fe, rr_evaluated_spec = map_option fe_filter_spec fe,
          rr_body = map_option (\<lambda>b. (d_id b, d_status b)) (newest_body db (e_id e) (dest_id d)) \<rparr>)"

definition outcome_of :: "routing_row \<Rightarrow> routing_outcome" where
  "outcome_of row =
    (if rr_body row \<noteq> None then (if rr_evaluated_spec row \<noteq> None then Routing_matched else Routing_no_condition)
     else case rr_matched row of
       Some matched \<Rightarrow> if matched then Routing_matched else Routing_filtered
     | None \<Rightarrow>
         if \<not> rr_subscribed row then Routing_unsubscribed
         else if \<not> rr_confirmed row then Routing_unconfirmed
         else if rr_current_spec row \<noteq> None then Routing_unconfirmed
         else Routing_no_condition)"

text \<open>The rows by URL, in the collation of the database (\<open>rank\<close>), then by id.\<close>

definition event_routing :: "(string \<Rightarrow> int) \<Rightarrow> database \<Rightarrow> uuid \<Rightarrow> (routing_row \<times> routing_outcome) list" where
  "event_routing rank db event =
    (case find_event db event of
       None \<Rightarrow> []
     | Some e \<Rightarrow> map (\<lambda>d. (routing_row_of db e d, outcome_of (routing_row_of db e d)))
         (order_by (\<lambda>d. rank (dest_url d)) (order_by dest_id
           (filter (\<lambda>d. concerned db e (dest_id d)) (destinations db)))))"

section \<open>Summaries\<close>

record reconciliation_counts =
  rs_awaiting :: int
  rs_acknowledged :: int
  rs_receipt_failed :: int
  rs_timed_out :: int

definition reconciliation_summary :: "database \<Rightarrow> reconciliation_counts" where
  "reconciliation_summary db =
    (let n = (\<lambda>state. count_rows (\<lambda>d. d_reconcile_state d = state) (deliveries db))
     in \<lparr> rs_awaiting = n Awaiting, rs_acknowledged = n Acknowledged, rs_receipt_failed = n Receipt_failed,
          rs_timed_out = n Timed_out \<rparr>)"

record dead_letter_counts =
  dl_total :: int
  dl_attempts_exhausted :: int
  dl_timeout_exhausted :: int
  dl_failure_exhausted :: int

text \<open>The total is the sum over all groups, a group with no reason included.\<close>

definition dead_letter_summary :: "database \<Rightarrow> dead_letter_counts" where
  "dead_letter_summary db =
    (let parked = filter (\<lambda>d. d_status d = Dead_lettered) (deliveries db);
         n = (\<lambda>reason. count_rows (\<lambda>d. d_dead_letter_reason d = Some reason) parked)
     in \<lparr> dl_total = int (length parked), dl_attempts_exhausted = n Delivery_attempts_exhausted,
          dl_timeout_exhausted = n Receipt_timeout_exhausted, dl_failure_exhausted = n Receipt_failure_exhausted \<rparr>)"

section \<open>Listings\<close>

text \<open>An optional filter of a listing: \<open>CAST(:x AS ...) IS NULL OR column = :x\<close>.\<close>

definition selects :: "'a option \<Rightarrow> 'a option \<Rightarrow> bool" where
  "selects wanted value \<longleftrightarrow> wanted = None \<or> sql_eq value wanted"

definition list_dead_letters ::
  "uuid option \<Rightarrow> uuid option \<Rightarrow> dead_letter_reason option \<Rightarrow> string option \<Rightarrow> nat \<Rightarrow> database \<Rightarrow> delivery list" where
  "list_dead_letters dest event reason key limit db =
     (let rows = order_by (\<lambda>d. - int (d_id d))
        (filter (\<lambda>d. d_status d = Dead_lettered \<and> selects dest (Some (d_destination_id d)) \<and>
           selects event (d_event_id d) \<and> selects reason (d_dead_letter_reason d) \<and>
           selects key (Some (d_dedupe_key d))) (deliveries db))
      in take limit (filter (\<lambda>d. d_dead_lettered_at d = None) rows @
           order_by (\<lambda>d. - coalesce (d_dead_lettered_at d) 0) (filter (\<lambda>d. d_dead_lettered_at d \<noteq> None) rows)))"

definition list_reconciliation_deliveries ::
  "reconcile_state \<Rightarrow> uuid option \<Rightarrow> nat \<Rightarrow> database \<Rightarrow> api_error + delivery list" where
  "list_reconciliation_deliveries state dest limit db =
     (if state = Rec_none then Inl (Http 422)
      else let rows = order_by d_destination_seq (filter (\<lambda>d. d_reconcile_state d = state \<and>
                        selects dest (Some (d_destination_id d))) (deliveries db))
        in Inr (take limit (order_by (\<lambda>d. coalesce (d_reconcile_deadline d) 0)
                  (filter (\<lambda>d. d_reconcile_deadline d \<noteq> None) rows)
                @ filter (\<lambda>d. d_reconcile_deadline d = None) rows)))"

definition list_receipts ::
  "uuid option \<Rightarrow> string option \<Rightarrow> receipt_disposition option \<Rightarrow> nat \<Rightarrow> database \<Rightarrow> receipt list" where
  "list_receipts dest key disposition limit db =
     take limit (order_by (\<lambda>r. - r_received_at r) (order_by (\<lambda>r. - int (r_id r))
       (filter (\<lambda>r. selects dest (Some (r_destination_id r)) \<and> selects key (Some (r_dedupe_key r)) \<and>
          selects disposition (Some (r_disposition r))) (receipts db))))"

text \<open>The gated bodies with their previews (an inner join), oldest first.\<close>

definition gate_rows :: "(delivery \<Rightarrow> bool) \<Rightarrow> nat \<Rightarrow> database \<Rightarrow> (delivery \<times> delivery) list" where
  "gate_rows P limit db =
     take limit (List.map_filter
       (\<lambda>d. case d_preview_delivery_id d of None \<Rightarrow> None
         | Some p \<Rightarrow> map_option (\<lambda>preview. (d, preview)) (find_delivery db p))
       (order_by d_created_at (order_by d_id
         (filter (\<lambda>d. d_phase d = Body \<and> d_release_state d \<noteq> None \<and> P d) (deliveries db)))))"

definition gate_status :: "delivery_status \<Rightarrow> bool" where
  "gate_status st \<longleftrightarrow> st \<in> {Pending, In_flight, Delivered, Release_denied, Release_expired, Release_voided,
     Deadline_expired, Dead_lettered}"

definition list_release_gates ::
  "uuid option \<Rightarrow> uuid option \<Rightarrow> release_state option \<Rightarrow> delivery_status option \<Rightarrow> nat \<Rightarrow> database \<Rightarrow>
   api_error + (delivery \<times> delivery) list" where
  "list_release_gates event dest state st limit db =
     (if (case st of None \<Rightarrow> False | Some s \<Rightarrow> \<not> gate_status s) then Inl (Http 422)
      else Inr (gate_rows (\<lambda>d. selects event (d_event_id d) \<and> selects dest (Some (d_destination_id d)) \<and>
             selects state (d_release_state d) \<and> selects st (Some (d_status d))) limit db))"

definition list_event_release_gates ::
  "uuid \<Rightarrow> uuid option \<Rightarrow> release_state option \<Rightarrow> database \<Rightarrow> (delivery \<times> delivery) list" where
  "list_event_release_gates event dest state db =
     gate_rows (\<lambda>d. d_event_id d = Some event \<and> selects dest (Some (d_destination_id d)) \<and>
       selects state (d_release_state d)) 500 db"

definition list_sources :: "bool \<Rightarrow> nat \<Rightarrow> database \<Rightarrow> event_source list" where
  "list_sources include_disabled limit db =
     take limit (order_by src_created_at (order_by src_id
       (filter (\<lambda>s. include_disabled \<or> src_disabled_at s = None) (event_sources db))))"

definition get_source :: "uuid \<Rightarrow> database \<Rightarrow> api_error + event_source" where
  "get_source i db = (case find_source db i of None \<Rightarrow> Inl (Http 404) | Some s \<Rightarrow> Inr s)"

text \<open>
  An event with its run view; the corrections of an event, in whose responses the relay flag is
  never set.
\<close>

definition get_event :: "uuid \<Rightarrow> database \<Rightarrow> api_error + event_view \<times> relay_run option" where
  "get_event i db = (case view_event db i of None \<Rightarrow> Inl (Http 404)
     | Some v \<Rightarrow> Inr (v, build_event_relay db i))"

definition list_corrections_of :: "database \<Rightarrow> uuid \<Rightarrow> (event \<times> event_view) list" where
  "list_corrections_of db event =
     map (\<lambda>e. (e, event_response e ((event_counts db (e_id e))\<lparr>n_relay_stopped := 0\<rparr>)))
       (order_by e_created_at (order_by e_id
         (filter (\<lambda>e. e_corrects_event_id e = Some event) (events db))))"

definition list_corrections :: "uuid \<Rightarrow> database \<Rightarrow> api_error + (event \<times> event_view) list" where
  "list_corrections event db =
     (if find_event db event = None then Inl (Http 404) else Inr (list_corrections_of db event))"

section \<open>The summaries add up\<close>

lemma reconciliation_summary_total:
  "rs_awaiting (reconciliation_summary db) + rs_acknowledged (reconciliation_summary db)
     + rs_receipt_failed (reconciliation_summary db) + rs_timed_out (reconciliation_summary db)
   = count_rows (\<lambda>d. d_reconcile_state d \<noteq> Rec_none) (deliveries db)"
proof -
  have "count_rows (\<lambda>d. d_reconcile_state d = Awaiting) rows + count_rows (\<lambda>d. d_reconcile_state d = Acknowledged) rows
      + count_rows (\<lambda>d. d_reconcile_state d = Receipt_failed) rows + count_rows (\<lambda>d. d_reconcile_state d = Timed_out) rows
    = count_rows (\<lambda>d. d_reconcile_state d \<noteq> Rec_none) rows" for rows
  proof (induction rows)
    case (Cons d rows)
    then show ?case by (cases "d_reconcile_state d") simp_all
  qed simp
  then show ?thesis by (simp add: reconciliation_summary_def Let_def)
qed

text \<open>In a table that satisfies its constraints every parked copy has one of the three reasons.\<close>

lemma dead_letter_summary_total:
  assumes "copies_ok db"
  shows "dl_total (dead_letter_summary db) = dl_attempts_exhausted (dead_letter_summary db)
    + dl_timeout_exhausted (dead_letter_summary db) + dl_failure_exhausted (dead_letter_summary db)"
proof -
  have "int (length rows) = count_rows (\<lambda>d. d_dead_letter_reason d = Some Delivery_attempts_exhausted) rows
      + count_rows (\<lambda>d. d_dead_letter_reason d = Some Receipt_timeout_exhausted) rows
      + count_rows (\<lambda>d. d_dead_letter_reason d = Some Receipt_failure_exhausted) rows"
    if "\<forall>d \<in> set rows. d_dead_letter_reason d \<noteq> None" for rows :: "delivery list"
    using that
  proof (induction rows)
    case (Cons d rows)
    then obtain reason where "d_dead_letter_reason d = Some reason" by auto
    with Cons show ?case by (cases reason) simp_all
  qed simp
  moreover have "d_dead_letter_reason d \<noteq> None"
    if "d \<in> set (filter (\<lambda>d. d_status d = Dead_lettered) (deliveries db))" for d
    using that row_ok_in [OF assms, of d] by (auto simp: row_ok_def delivery_check_def)
  ultimately show ?thesis by (simp add: dead_letter_summary_def Let_def)
qed

section \<open>The verdicts of a fresh event\<close>

lemma evaluation_of_append:
  "subscription_filter_evaluations db' = subscription_filter_evaluations db @ [f] \<Longrightarrow>
   evaluation_of db' event dest = (case evaluation_of db event dest of Some g \<Rightarrow> Some g
     | None \<Rightarrow> if fe_event_id f = event \<and> fe_destination_id f = dest then Some f else None)"
  by (simp add: evaluation_of_def first_row_append split: option.split)

lemma evaluation_of_None: "evaluation_of db event dest = None \<longleftrightarrow> dest \<notin> judged_before db event"
  by (auto simp: evaluation_of_def judged_before_def first_row_None)

lemma route_evaluations:
  "route_subscribers eid type payload ts r db = Some (r', db') \<Longrightarrow> distinct (map fst ts) \<Longrightarrow>
   fst ` set ts \<inter> judged_before db eid = {} \<Longrightarrow>
   (\<forall>t \<in> set ts. evaluation_of db' eid (fst t)
      = map_option (\<lambda>s. evaluation_row eid type t s (passes payload t)) (snd (snd t))) \<and>
   (\<forall>i. i \<notin> fst ` set ts \<longrightarrow> evaluation_of db' eid i = evaluation_of db eid i)"
proof (induction ts arbitrary: r db)
  case Nil
  then show ?case by simp
next
  case (Cons t ts)
  have ts: "distinct (map fst ts)" "fst t \<notin> fst ` set ts" using Cons.prems(2) by auto
  have new: "evaluation_of db eid (fst t) = None"
    using Cons.prems(3) by (auto simp: evaluation_of_None)
  from Cons.prems(1) show ?case
  proof (cases rule: route_step)
    case plain
    have "fst ` set ts \<inter> judged_before db eid = {}" using Cons.prems(3) by auto
    from Cons.IH [OF plain(2) ts(1) this] ts(2) new plain(1) show ?thesis by auto
  next
    case (judged spec matched)
    let ?f = "evaluation_row eid type t spec matched"
    let ?db = "insert_evaluation ?f db"
    have f: "fe_event_id ?f = eid" "fe_destination_id ?f = fst t" by (simp_all add: evaluation_row_def)
    have rows: "subscription_filter_evaluations ?db = subscription_filter_evaluations db @ [?f]"
      using f Cons.prems(3) by (intro insert_evaluation_new [where eid = eid]) auto
    have "judged_before ?db eid = insert (fst t) (judged_before db eid)"
      using judged_before_append [OF rows f(1)] f(2) by simp
    then have "fst ` set ts \<inter> judged_before ?db eid = {}" using Cons.prems(3) ts(2) by auto
    note IH = Cons.IH [OF judged(3) ts(1) this]
    have "passes payload t = matched" using judged(1,2) by (cases matched) (simp_all add: passes_def)
    moreover have "evaluation_of db' eid (fst t) = Some ?f"
      using IH ts(2) evaluation_of_append [OF rows, of eid "fst t"] new f by simp
    moreover have "evaluation_of db' eid i = evaluation_of db eid i" if "i \<notin> fst ` set (t # ts)" for i
      using IH that evaluation_of_append [OF rows, of eid i] f by (simp split: option.split)
    ultimately show ?thesis using IH judged(1) by auto
  qed
qed


lemma fan_out_routed_evaluations:
  assumes "fan_out_routed now gen eid b policy preview ts db = Inr (n, db')" and "list_all (confirmed_in db) ts"
  shows "subscription_filter_evaluations db' = subscription_filter_evaluations db"
proof (cases policy)
  case None
  with assms(1) have "fan_out_copies now gen eid b 0 ts db = Inr db'"
    by (auto simp: fan_out_routed_def split: sum.splits)
  from fan_out_copies_result [OF this assms(2)] show ?thesis by blast
next
  case (Some p)
  with assms(1) have "fan_out_pairs now gen eid (in_event_type b) (in_dedupe_key b) (in_payload b) preview
      (in_not_before b) (in_deliver_by b) (p_consent_timeout_seconds p) 0 ts db = Inr db'"
    by (auto simp: fan_out_routed_def fan_out_gated_event_def split: sum.splits)
  from fan_out_pairs_result [OF this] show ?thesis by blast
qed

lemma fan_out_subscribers_evaluations:
  assumes "fan_out_subscribers now gen eid b policy preview db = Inr (fo, db')"
    and "subscription_keys (destination_subscriptions db)" and "judged_before db eid = {}"
    and "t \<in> set (subscribers db (in_event_type b))"
  shows "evaluation_of db' eid (fst t) = map_option (\<lambda>s. evaluation_row eid (in_event_type b) t s (passes (in_payload b) t)) (snd (snd t))"
  using assms(1)
proof (cases rule: fan_out_subscribers_step)
  case (1 r db1)
  note routed = route_subscribers_result [OF 1(1)]
  have "confirmed_in db1 t = confirmed_in db t" for t
    using routed by (simp add: confirmed_in_def find_destination_def)
  then have "list_all (confirmed_in db1) (ro_targets r)"
    using routed subscribers_confirmed by (auto simp: list_all_iff)
  then have "subscription_filter_evaluations db' = subscription_filter_evaluations db1"
    by (rule fan_out_routed_evaluations [OF 1(2)])
  moreover have "evaluation_of db1 eid (fst t)
      = map_option (\<lambda>s. evaluation_row eid (in_event_type b) t s (passes (in_payload b) t)) (snd (snd t))"
    using route_evaluations [OF 1(1) subscribers_distinct [OF assms(2)]] assms(3,4) by simp
  ultimately show ?thesis by (simp add: evaluation_of_def)
qed

lemma store_event_evaluations:
  assumes st: "store_event now eid gen b source t0 db = (Inr (rep, 201), db')"
    and refs: "references_ok db" and chain: "get_active_chain db (in_event_type b) = None"
    and "t \<in> set (subscribers db (in_event_type b))"
  shows "evaluation_of db' eid (fst t) = map_option (\<lambda>s. evaluation_row eid (in_event_type b) t s (passes (in_payload b) t)) (snd (snd t))"
proof -
  obtain fo db2 row preview required where fresh: "find_event db eid = None"
    and out: "fan_out_event now gen eid b (get_policy db (in_event_type b)) preview
       (get_active_chain db (in_event_type b)) (db\<lparr>events := events db @ [row]\<rparr>) = Inr (fo, db2)"
    and db': "db' = log_attempt now (fo_disposition fo) (Some (src_id source)) (Some (src_name source)) (Some eid)
       (Some (in_dedupe_key b)) (Some (in_event_type b)) (Some t0)
       (update_event_row eid (\<lambda>e. e\<lparr>e_required_ack_count := Some required\<rparr>) db2)"
    by (rule store_event_created [OF st]) (rule that, assumption+)
  define db1 where "db1 = db\<lparr>events := events db @ [row]\<rparr>"
  have same: "deliveries db1 = deliveries db" "destinations db1 = destinations db"
      "subscription_filter_evaluations db1 = subscription_filter_evaluations db"
      "destination_subscriptions db1 = destination_subscriptions db"
    by (simp_all add: db1_def)
  have "fan_out_subscribers now gen eid b (get_policy db (in_event_type b)) preview db1 = Inr (fo, db2)"
    using out by (simp add: chain fan_out_event_def db1_def)
  moreover have "subscription_keys (destination_subscriptions db1)" "judged_before db1 eid = {}"
    using refs same(4) references_not_judged [OF refs fresh] same_tables(2) [OF same, of eid]
    by (simp_all add: references_ok_def)
  moreover have "t \<in> set (subscribers db1 (in_event_type b))"
    using assms(4) same_tables(5) [OF same] by simp
  ultimately have "evaluation_of db2 eid (fst t)
      = map_option (\<lambda>s. evaluation_row eid (in_event_type b) t s (passes (in_payload b) t)) (snd (snd t))"
    by (rule fan_out_subscribers_evaluations)
  moreover have "subscription_filter_evaluations db' = subscription_filter_evaluations db2"
    unfolding db' by (simp add: log_attempt_def update_event_row_def)
  ultimately show ?thesis by (simp only: evaluation_of_def)
qed

lemma newest_body_None: "newest_body db event dest = None \<longleftrightarrow> bodies_to db event dest = []"
proof -
  let ?rows = "order_by (\<lambda>d. - d_destination_seq d) (bodies_to db event dest)"
  have "length ?rows = length (bodies_to db event dest)" by (rule length_order_by)
  moreover have "newest_body db event dest = None \<longleftrightarrow> ?rows = []"
    unfolding newest_body_def by (cases ?rows) simp_all
  ultimately show ?thesis by (metis length_0_conv)
qed

lemma fst_target_of_copy [simp]: "fst (target_of_copy d) = d_destination_id d"
  by (simp add: target_of_copy_def)

lemma bodies_to_targets:
  "bodies_to db event dest = [] \<longleftrightarrow> dest \<notin> fst ` set (map target_of_copy (bodies (copies_of db event)))"
  by (auto simp: bodies_to_def bodies_def copies_of_def filter_empty_conv image_image)

text \<open>The trace of a fresh event tells for each subscriber what the fan-out decided.\<close>

lemma routing_truthful:
  assumes st: "store_event now eid gen b source t0 db = (Inr (rep, 201), db')"
    and refs: "references_ok db" and gate: "gate_exclusive db" and chain: "get_active_chain db (in_event_type b) = None"
    and t: "t \<in> set (subscribers db (in_event_type b))" and d: "dest_id d = fst t"
  shows "outcome_of (routing_row_of db' (rep_event rep) d) = (case snd (snd t) of None \<Rightarrow> Routing_no_condition
    | Some _ \<Rightarrow> if passes (in_payload b) t then Routing_matched else Routing_filtered)"
proof -
  let ?subs = "subscribers db (in_event_type b)"
  have id: "e_id (rep_event rep) = eid"
    using store_event_stored(4) [OF st refs gate] by (auto simp: find_event_def dest: first_row_Some)
  have "map target_of_copy (bodies (copies_of db' eid)) = filter (passes (in_payload b)) ?subs"
    using store_event_stored(2) [OF st refs gate] by (simp add: routed_as_required_def chain)
  moreover have "fst t \<in> fst ` set (filter (passes (in_payload b)) ?subs) \<longleftrightarrow> passes (in_payload b) t"
  proof
    assume "fst t \<in> fst ` set (filter (passes (in_payload b)) ?subs)"
    then obtain u where "u \<in> set ?subs" "passes (in_payload b) u" "fst u = fst t" by auto
    moreover have "distinct (map fst ?subs)" using refs by (simp add: references_ok_def subscribers_distinct)
    ultimately show "passes (in_payload b) t" using t by (metis distinct_map inj_on_def)
  qed (use t in auto)
  ultimately have body: "newest_body db' eid (fst t) = None \<longleftrightarrow> \<not> passes (in_payload b) t"
    by (simp add: newest_body_None bodies_to_targets del: set_map set_filter)
  have fe: "evaluation_of db' eid (fst t) = map_option (\<lambda>s. evaluation_row eid (in_event_type b) t s (passes (in_payload b) t)) (snd (snd t))"
    by (rule store_event_evaluations [OF st refs chain t])
  show ?thesis
  proof (cases "snd (snd t)")
    case None
    then have "newest_body db' eid (fst t) \<noteq> None" using body by (simp add: passes_def)
    with None fe show ?thesis by (auto simp: outcome_of_def routing_row_of_def Let_def id d)
  next
    case (Some s)
    with fe body show ?thesis
      by (cases "passes (in_payload b) t") (auto simp: outcome_of_def routing_row_of_def Let_def id d evaluation_row_def)
  qed
qed

section \<open>The whole trace\<close>

text \<open>
  The copies of an event by station, by URL and by position in their queue; its attempts and its
  receipts in the order of time. A table whose id is an identity column holds its rows in the order
  of their ids. All judgements of an event are written by one transaction, so their ids decide.
\<close>

definition trace_deliveries :: "(string \<Rightarrow> int) \<Rightarrow> database \<Rightarrow> uuid \<Rightarrow> delivery list" where
  "trace_deliveries rank db event =
     order_by (\<lambda>d. coalesce (d_relay_station_no d) 0)
       (order_by (\<lambda>d. case find_destination db (d_destination_id d) of None \<Rightarrow> 0 | Some t \<Rightarrow> rank (dest_url t))
         (order_by d_destination_seq
           (filter (\<lambda>d. d_event_id d = Some event \<and> find_destination db (d_destination_id d) \<noteq> None)
             (deliveries db))))"

definition trace_attempts :: "database \<Rightarrow> uuid \<Rightarrow> delivery_attempt list" where
  "trace_attempts db event =
     order_by a_started_at (filter (\<lambda>a. a_event_id a = Some event) (delivery_attempts db))"

definition trace_receipts :: "database \<Rightarrow> uuid \<Rightarrow> receipt list" where
  "trace_receipts db event =
     order_by r_received_at (order_by r_id
       (filter (\<lambda>r. case r_delivery_id r of None \<Rightarrow> False
          | Some i \<Rightarrow> (case find_delivery db i of None \<Rightarrow> False | Some d \<Rightarrow> d_event_id d = Some event))
         (receipts db)))"

definition list_filter_evaluations_of :: "database \<Rightarrow> uuid \<Rightarrow> filter_evaluation list" where
  "list_filter_evaluations_of db event =
     filter (\<lambda>f. fe_event_id f = event) (subscription_filter_evaluations db)"

record event_trace =
  tr_event :: event_view
  tr_relay :: "relay_run option"
  tr_deliveries :: "delivery list"
  tr_attempts :: "delivery_attempt list"
  tr_receipts :: "receipt list"
  tr_corrections :: "(event \<times> event_view) list"
  tr_filter_evaluations :: "filter_evaluation list"
  tr_routing :: "(routing_row \<times> routing_outcome) list"

definition get_event_trace :: "(string \<Rightarrow> int) \<Rightarrow> uuid \<Rightarrow> database \<Rightarrow> api_error + event_trace" where
  "get_event_trace rank i db =
     (case view_event db i of
        None \<Rightarrow> Inl (Http 404)
      | Some v \<Rightarrow> Inr \<lparr> tr_event = v, tr_relay = build_event_relay db i,
          tr_deliveries = trace_deliveries rank db i, tr_attempts = trace_attempts db i,
          tr_receipts = trace_receipts db i, tr_corrections = list_corrections_of db i,
          tr_filter_evaluations = list_filter_evaluations_of db i, tr_routing = event_routing rank db i \<rparr>)"

section \<open>Listings of settings and attempts\<close>

definition rejected_dispositions :: "ingest_disposition set" where
  "rejected_dispositions = {Source_unknown, Source_disabled, Bad_signature, Stale_timestamp, Future_timestamp,
     Invalid_timestamp, Invalid_body, Duplicate_event}"

definition list_ingestion_attempts ::
  "uuid option \<Rightarrow> ingest_disposition option \<Rightarrow> string option \<Rightarrow> bool \<Rightarrow> nat \<Rightarrow> database \<Rightarrow> ingestion_attempt list" where
  "list_ingestion_attempts source disposition key rejected_only limit db =
     take limit (order_by (\<lambda>a. - ia_received_at a) (rev
       (filter (\<lambda>a. selects source (ia_source_id a) \<and> selects disposition (Some (ia_disposition a)) \<and>
          selects key (ia_dedupe_key a) \<and> (rejected_only \<longrightarrow> ia_disposition a \<in> rejected_dispositions))
         (ingestion_attempts db))))"

definition list_ack_thresholds :: "(string \<Rightarrow> int) \<Rightarrow> nat \<Rightarrow> database \<Rightarrow> ack_threshold_row list" where
  "list_ack_thresholds rank limit db =
     take limit (order_by (\<lambda>t. rank (t_event_type t)) (event_type_ack_thresholds db))"

definition get_ack_threshold :: "string \<Rightarrow> database \<Rightarrow> api_error + string \<times> int option" where
  "get_ack_threshold path db = (case normalize_event_type_path path of Inl err \<Rightarrow> Inl err
     | Inr type \<Rightarrow> Inr (type, ack_threshold_of db type))"

definition list_preview_policies :: "(string \<Rightarrow> int) \<Rightarrow> nat \<Rightarrow> database \<Rightarrow> preview_policy list" where
  "list_preview_policies rank limit db =
     take limit (order_by (\<lambda>p. rank (p_event_type p)) (event_type_preview_policies db))"

definition get_preview_policy :: "string \<Rightarrow> database \<Rightarrow> api_error + string \<times> int option" where
  "get_preview_policy path db = (case normalize_event_type_path path of Inl err \<Rightarrow> Inl err
     | Inr type \<Rightarrow> Inr (type, map_option p_consent_timeout_seconds (get_policy db type)))"

definition list_active_chains :: "(string \<Rightarrow> int) \<Rightarrow> database \<Rightarrow> (relay_chain \<times> relay_station list) list" where
  "list_active_chains rank db =
     map (\<lambda>c. (c, chain_stations db (ch_id c)))
       (order_by (\<lambda>c. rank (ch_event_type c)) (filter ch_active (relay_chains db)))"

definition get_relay_chain :: "string \<Rightarrow> database \<Rightarrow> api_error + relay_chain \<times> relay_station list" where
  "get_relay_chain path db = (case normalize_event_type_path path of Inl err \<Rightarrow> Inl err
     | Inr type \<Rightarrow> (case get_active_chain db type of None \<Rightarrow> Inl (Http 404) | Some c \<Rightarrow> Inr c))"

section \<open>The trace leaves nothing out\<close>

lemma trace_complete:
  assumes "\<And>d. d \<in> set (deliveries db) \<Longrightarrow> find_destination db (d_destination_id d) \<noteq> None"
  shows "set (trace_deliveries rank db event) = set (copies_of db event)"
    and "length (trace_deliveries rank db event) = length (copies_of db event)"
proof -
  have "filter (\<lambda>d. d_event_id d = Some event \<and> find_destination db (d_destination_id d) \<noteq> None) (deliveries db)
      = copies_of db event"
    unfolding copies_of_def by (rule filter_cong) (use assms in auto)
  then show "set (trace_deliveries rank db event) = set (copies_of db event)"
    and "length (trace_deliveries rank db event) = length (copies_of db event)"
    by (simp_all only: trace_deliveries_def set_order_by length_order_by)
qed

text \<open>Every refusal is among the rejected attempts, whatever the source.\<close>

lemma rejected_listed:
  assumes "logged disposition db db'" and "disposition \<in> rejected_dispositions"
  shows "\<exists>a \<in> set (list_ingestion_attempts None (Some disposition) None True
      (length (ingestion_attempts db')) db'). ia_disposition a = disposition"
proof -
  obtain a where a: "a \<in> set (ingestion_attempts db')" "ia_disposition a = disposition"
  proof -
    from assms(1) obtain row where "db' = db\<lparr>ingestion_attempts := ingestion_attempts db @ [row]\<rparr>"
      "ia_disposition row = disposition" by (auto simp: logged_def)
    then show thesis by (intro that [of row]) simp_all
  qed
  let ?rows = "filter (\<lambda>a. selects None (ia_source_id a) \<and> selects (Some disposition) (Some (ia_disposition a)) \<and>
      selects None (ia_dedupe_key a) \<and> (True \<longrightarrow> ia_disposition a \<in> rejected_dispositions)) (ingestion_attempts db')"
  have "length ?rows \<le> length (ingestion_attempts db')" by (rule length_filter_le)
  moreover have "a \<in> set ?rows" using a assms(2) by (simp add: selects_def sql_eq_def)
  ultimately show ?thesis
    using a(2) unfolding list_ingestion_attempts_def by (intro bexI [of _ a]) simp_all
qed

end
