(* ===== verification/Consistency.thy ===== *)
theory Consistency
  imports System
begin

text \<open>
  What the tables say about each other. The foreign keys the routing reads through
  (\<open>references_ok\<close>) and the rule that a gated type has no active relay chain (\<open>gate_exclusive\<close>)
  hold in every state the service reaches: a transaction either leaves the tables they speak of
  alone (\<open>frame\<close>), or adds copies and judgements of the one event it stores (\<open>adds_for\<close>), or is
  one of the few requests that edit subscriptions, chains and policies. With them hold the other
  facts of \<open>consistent\<close>: unique keys (\<open>row_keys\<close>), counts of at least one (\<open>counts_ok\<close>), copies
  addressed to registered destinations under known chains and stored JSON objects (\<open>documents_ok\<close>),
  and the events stored so far, unchanged (\<open>stores\<close>, \<open>event_core\<close>).
\<close>

section \<open>Transactions that leave the catalogue alone\<close>

text \<open>An accepted event apart from its schedule, its cutoff and its cancellation.\<close>

definition event_core :: "event \<Rightarrow> event" where
  "event_core e = e\<lparr>e_not_before := None, e_deliver_by := None, e_cancelled_at := None\<rparr>"

lemma event_core_id: "event_core e = event_core e' \<Longrightarrow> e_id e = e_id e'"
  by (drule arg_cong [of _ _ e_id]) (simp add: event_core_def)

lemma event_cores_ids:
  assumes "map event_core es = map event_core es'"
  shows "map e_id es = map e_id es'"
proof -
  have "map (e_id \<circ> event_core) es = map (e_id \<circ> event_core) es'"
    using assms by (metis list.map_comp)
  then show ?thesis by (simp add: comp_def event_core_def)
qed

definition frame :: "database \<Rightarrow> database \<Rightarrow> bool" where
  "frame db db' \<longleftrightarrow> length (deliveries db') = length (deliveries db) \<and>
     map event_core (events db') = map event_core (events db) \<and>
     event_type_ack_thresholds db' = event_type_ack_thresholds db \<and>
     map dest_id (destinations db') = map dest_id (destinations db) \<and>
     subscription_filter_evaluations db' = subscription_filter_evaluations db \<and>
     destination_subscriptions db' = destination_subscriptions db \<and>
     relay_chains db' = relay_chains db \<and> relay_chain_stations db' = relay_chain_stations db \<and>
     event_type_preview_policies db' = event_type_preview_policies db"

lemma frame_event_ids: "frame db db' \<Longrightarrow> map e_id (events db') = map e_id (events db)"
  by (auto simp: frame_def intro: event_cores_ids)

lemma frame_refl [simp]: "frame db db"
  by (simp add: frame_def)

lemma frame_trans [trans]: "frame db1 db2 \<Longrightarrow> frame db2 db3 \<Longrightarrow> frame db1 db3"
  by (simp add: frame_def)

lemma frame_update_deliveries [simp]: "frame db0 (update_deliveries P f db) = frame db0 db"
  by (simp add: frame_def update_deliveries_def)

lemma frame_update_delivery_row [simp]: "frame db0 (update_delivery_row i f db) = frame db0 db"
  by (simp add: update_delivery_row_def)

lemma frame_update_destination_row:
  "(\<And>d. dest_id (f d) = dest_id d) \<Longrightarrow> frame db0 (update_destination_row i f db) = frame db0 db"
  by (simp add: frame_def update_destination_row_def map_sql_update)

lemma frame_update_event_row:
  "(\<And>e. event_core (f e) = event_core e) \<Longrightarrow> frame db0 (update_event_row i f db) = frame db0 db"
  by (simp add: frame_def update_event_row_def map_sql_update)

lemma frame_cascade [simp]: "frame db0 (cascade_after_stop now i db) = frame db0 db"
  by (simp add: cascade_after_stop_def split: option.split)

lemma frame_cascade_all [simp]: "frame db0 (cascade_all now ids db) = frame db0 db"
  unfolding cascade_all_def by (induction ids arbitrary: db) simp_all

lemma frame_voids [simp]:
  "frame db0 (void_held_bodies now extra reason db) = frame db0 db"
  "frame db0 (void_body_after_preview_failure now p reason db) = frame db0 db"
  "frame db0 (relocate_held_bodies now dest db) = frame db0 db"
  by (simp_all add: void_held_bodies_def void_body_after_preview_failure_def relocate_held_bodies_def
      split: option.split)

lemma frame_fold: "(\<And>x db. frame db0 (f x db) = frame db0 db) \<Longrightarrow> frame db0 (fold f xs db) = frame db0 db"
  by (induction xs arbitrary: db) simp_all

lemma frame_abandon [simp]: "frame db0 (abandon_old_location now dest db) = frame db0 db"
  by (simp add: abandon_old_location_def cascade_superseded_destination_def Let_def frame_fold)

lemma frame_logs [simp]:
  "frame db0 (log_confirmation_attempt dest rnd kind result db) = frame db0 db"
  "frame db0 (audit_attempt c r lost db) = frame db0 db"
  "frame db0 (db\<lparr>receipts := rs\<rparr>) = frame db0 db"
  "frame db0 (db\<lparr>release_gate_decisions := gs\<rparr>) = frame db0 db"
  "frame db0 (db\<lparr>event_sources := ss\<rparr>) = frame db0 db"
  "frame db0 (db\<lparr>ingestion_attempts := as\<rparr>) = frame db0 db"
  by (simp_all add: frame_def log_confirmation_attempt_def audit_attempt_def)

lemma frame_armed [simp]: "frame db0 (update_destination_row i (armed now s token bump) db) = frame db0 db"
  by (rule frame_update_destination_row) (simp add: armed_def)

lemma frame_arm_round [simp]: "frame db0 (snd (arm_round now s token bump dest db)) = frame db0 db"
  by (simp add: arm_round_def Let_def split: option.split)

lemma frame_recovered [simp]: "frame db0 (update_destination_row i recovered_dest db) = frame db0 db"
  by (rule frame_update_destination_row) (simp add: recovered_dest_def)

lemma frame_reset_failures [simp]: "frame db0 (reset_failures dest db) = frame db0 db"
  by (simp add: reset_failures_def frame_update_destination_row)

lemma frame_expire_due [simp]:
  "frame db0 (snd (expire_due_deliveries now limit pick db)) = frame db0 db"
  "frame db0 (snd (expire_in_flight_delivery now i finished db)) = frame db0 db"
  by (simp_all add: expire_due_deliveries_def expire_in_flight_delivery_def Let_def split: option.split)

lemma frame_sweep_gates [simp]: "frame db0 (snd (sweep_expired_gates now limit db)) = frame db0 db"
  by (simp add: sweep_expired_gates_def Let_def)

lemma frame_committed:
  "(\<And>r db'. out = Inr (r, db') \<Longrightarrow> frame db0 db') \<Longrightarrow> frame db0 db \<Longrightarrow> frame db0 (committed out db)"
  by (auto simp: committed_def split: sum.splits)

lemma frame_snd: "run = (r, db') \<Longrightarrow> frame db (snd run) \<Longrightarrow> frame db db'"
  by simp

section \<open>The requests and passes\<close>

lemma frame_decide: "ingest_decision now dest event decision db = Inr (r, db') \<Longrightarrow> frame db db'"
  by (auto simp: ingest_decision_def decide_held_def answer_def record_decision_def Let_def
      split: option.splits sum.splits if_splits)

lemma frame_void: "void_gated_body now i db = Inr (r, db') \<Longrightarrow> frame db db'"
  by (auto simp: void_gated_body_def split: option.splits if_splits)

lemma frame_reconcile [simp]: "frame db0 (snd (reconcile now s receipt result d db)) = frame db0 db"
  by (simp add: reconcile_def Let_def)

lemma frame_receipt: 
  assumes "decide_receipt now s i dest key result db = Inr (r, db')"
  shows "frame db db'"
proof -
  obtain stopped db1 where run: "(case lock_delivery db dest key of None \<Rightarrow> (False, db)
      | Some d \<Rightarrow> reconcile now s i result d db) = (stopped, db1)" by (rule prod.exhaust)
  have "frame db (snd (case lock_delivery db dest key of None \<Rightarrow> (False, db)
      | Some d \<Rightarrow> reconcile now s i result d db))"
    by (simp split: option.split)
  then have "frame db db1" by (simp add: run)
  with assms run show ?thesis
    by (auto simp: decide_receipt_def store_receipt_def Let_def split: option.splits if_splits)
qed

lemma frame_echo:
  assumes "apply_echo now s token dest challenge db = Inr (r, db')"
  shows "frame db db'"
proof -
  have "frame db0 (update_destination_row dest (confirmed_dest now) db) = frame db0 db" for db0 db
    by (rule frame_update_destination_row) (simp add: confirmed_dest_def)
  moreover have "frame db db1" if "arm_round now s token False dest (log_confirmation_attempt dest n k q db) = (a, db1)"
    for a db1 n k q
    by (rule frame_snd [OF that]) simp
  ultimately show ?thesis
    using assms by (auto simp: apply_echo_def split: option.splits if_splits prod.splits bool.splits)
qed

lemma frame_confirm [simp]: "frame db (snd (confirm_destination now s token i c h db))"
  by (auto simp: confirm_destination_def Let_def frame_echo split: sum.split prod.split echo_disposition.split)

lemma frame_cancel: "cancel_event now i db = Inr (r, db') \<Longrightarrow> frame db db'"
  by (auto simp: cancel_event_def Let_def event_core_def frame_update_event_row split: option.splits if_splits)

lemma frame_reschedule: "reschedule_event now i nb db = Inr (r, db') \<Longrightarrow> frame db db'"
  by (auto simp: reschedule_event_def Let_def event_core_def frame_update_event_row split: option.splits if_splits)

lemma frame_cutoff: "update_event_deliver_by now i dby db = Inr (r, db') \<Longrightarrow> frame db db'"
  by (auto simp: update_event_deliver_by_def update_event_deadline_def Let_def event_core_def frame_update_event_row
      split: option.splits if_splits)

lemma frame_requeues:
  "requeue_delivery now i db = Inr (r1, db') \<Longrightarrow> frame db db'"
  "requeue_unreconciled now i db = Inr (r2, db') \<Longrightarrow> frame db db'"
  "requeue_event_unreconciled now i db = Inr (r3, db') \<Longrightarrow> frame db db'"
  "revive_dead_letter now i db = Inr (r4, db') \<Longrightarrow> frame db db'"
  by (auto simp: requeue_delivery_def requeue_unreconciled_def requeue_event_unreconciled_def
      revive_dead_letter_def Let_def split: option.splits if_splits)

lemma frame_destination_requests:
  "reissue_challenge now s token i db = Inr (r1, db') \<Longrightarrow> frame db db'"
  "pause_destination now i given a b db = Inr (r2, db') \<Longrightarrow> frame db db'"
  "resume_destination i db = Inr (r3, db') \<Longrightarrow> frame db db'"
  "recover_destination now i db = Inr (r4, db') \<Longrightarrow> frame db db'"
proof -
  show "frame db db'" if "reissue_challenge now s token i db = Inr (r1, db')"
  proof -
    have "arm_round now s token False i db = (r1, db')"
      using that by (auto simp: reissue_challenge_def split: option.splits if_splits)
    then show ?thesis by (rule frame_snd) simp
  qed
qed (auto simp: pause_destination_def resume_destination_def recover_destination_def Let_def
    frame_update_destination_row split: option.splits if_splits)

lemma frame_source_requests:
  "register_source now i secret name db = Inr (r1, db') \<Longrightarrow> frame db db'"
  "update_source i f db = Inr (r2, db') \<Longrightarrow> frame db db'"
  by (auto simp: register_source_def update_source_def Let_def split: option.splits if_splits sum.splits)

lemma frame_sweep [simp]: "frame db (snd (sweep_once now s pick db))"
  by (simp add: sweep_once_def sweep_overdue_def expire_delivery_deadlines_def void_expired_gates_def
      Let_def case_prod_beta)

lemma frame_heartbeat [simp]: "frame db (snd (heartbeat now s i token db))"
  by (simp add: heartbeat_def)

lemma frame_rounds [simp]: "frame db0 (snd (expire_due_rounds now s token limit db)) = frame db0 db"
  by (simp add: expire_due_rounds_def Let_def frame_fold)

lemma frame_claim_probe [simp]: "frame db (snd (claim_probe now s token jitter db))"
  by (simp add: claim_probe_def Let_def frame_update_destination_row split: option.split)

lemma frame_record_probe: "record_probe now s token p success body db = Inr (r, db') \<Longrightarrow> frame db db'"
proof -
  have "frame db db2" if "apply_echo now s token dest echo (log_confirmation_attempt dest n k q db) = Inr (a, db2)"
    for dest echo n k q a db2
    by (rule frame_trans [OF _ frame_echo [OF that]]) simp
  then show "record_probe now s token p success body db = Inr (r, db') \<Longrightarrow> frame db db'"
    by (auto simp: record_probe_def Let_def split: option.splits sum.splits if_splits)
qed

section \<open>The worker\<close>

lemma frame_clean [simp]: "frame db (clean_queues now pick db)"
  by (simp add: clean_queues_def supersede_stale_def reap_def case_prod_beta Let_def)

lemma frame_claim: "claim_next_event now s token pick ld lr db = (r, db') \<Longrightarrow> frame db db'"
  by (auto simp: claim_next_event_def claim_head_def Let_def split: option.splits if_splits)

lemma frame_after_failure [simp]:
  "frame db0 (cascade_if_relay now c db) = frame db0 db"
  "frame db0 (void_if_preview now c reason db) = frame db0 db"
  by (simp_all add: cascade_if_relay_def void_if_preview_def)

lemma frame_preview_delivered [simp]: "frame db0 (snd (mark_preview_delivered now i finished db)) = frame db0 db"
  by (simp add: mark_preview_delivered_def Let_def split: option.split)

lemma frame_expire_eq: "expire_in_flight_delivery now i finished db = (b, db') \<Longrightarrow> frame db db'"
  using frame_expire_due(2) [of db now i finished db] by simp

lemma frame_successes:
  "preview_success now c r db = Inr (x, db') \<Longrightarrow> frame db db'"
  "body_success now s c r db = Inr (x, db') \<Longrightarrow> frame db db'"
proof -
  have "frame db db1" if "mark_preview_delivered now i f db = (b, db1)" for now i f b db1
    by (rule frame_snd [OF that]) simp
  then show "preview_success now c r db = Inr (x, db') \<Longrightarrow> frame db db'"
    by (auto simp: preview_success_def split: prod.splits bool.splits if_splits)
  show "body_success now s c r db = Inr (x, db') \<Longrightarrow> frame db db'"
    by (auto simp: body_success_def Let_def split: prod.splits bool.splits if_splits dest: frame_expire_eq)
qed

lemma frame_failures:
  "stale_failure now c r db = Inr (x, db') \<Longrightarrow> frame db db'"
  "correction_failure now c r db = Inr (x, db') \<Longrightarrow> frame db db'"
  "transport_failure now clock s jitter c r db = Inr (x, db') \<Longrightarrow> frame db db'"
proof -
  have "frame db0 (update_destination_row i (failed_dest s dead rec) db) = frame db0 db" for db0 db i dead rec
    by (rule frame_update_destination_row) (simp add: failed_dest_def Let_def)
  then show "transport_failure now clock s jitter c r db = Inr (x, db') \<Longrightarrow> frame db db'"
    by (auto simp: transport_failure_def update_owned_def Let_def split: sum.splits if_splits)
qed (auto simp: stale_failure_def correction_failure_def update_owned_def Let_def split: sum.splits if_splits)

lemma frame_result: "record_result now clock s jitter c r lost db = Inr (x, db') \<Longrightarrow> frame db db'"
  by (auto simp: record_result_def result_outcome_def
      split: if_splits sum.splits prod.splits bool.splits dest: frame_successes frame_failures frame_expire_eq)

section \<open>Requests that edit the catalogue\<close>

text \<open>The primary keys of the two tables that are looked up by id.\<close>

definition row_keys :: "database \<Rightarrow> bool" where
  "row_keys db \<longleftrightarrow> distinct (map dest_id (destinations db)) \<and> distinct (map e_id (events db))"

text \<open>The CHECKs on the required number of acknowledgements and on a threshold.\<close>

definition counts_ok :: "database \<Rightarrow> bool" where
  "counts_ok db \<longleftrightarrow> (\<forall>e \<in> set (events db). event_check e) \<and>
     (\<forall>t \<in> set (event_type_ack_thresholds db). 1 \<le> t_ack_threshold t)"

text \<open>
  A copy is addressed to a registered destination and a station to a stored chain; a stored payload
  and a stored condition is a JSON object.
\<close>

definition document :: "json option \<Rightarrow> bool" where
  "document j \<longleftrightarrow> (case j of None \<Rightarrow> True | Some v \<Rightarrow> is_dict v)"

definition chain_known :: "database \<Rightarrow> uuid option \<Rightarrow> bool" where
  "chain_known db c \<longleftrightarrow> c \<in> insert None ((\<lambda>ch. Some (ch_id ch)) ` set (relay_chains db))"

definition row_known :: "database \<Rightarrow> delivery \<Rightarrow> bool" where
  "row_known db d \<longleftrightarrow> d_destination_id d \<in> dest_id ` set (destinations db) \<and>
     chain_known db (d_relay_chain_id d) \<and> document (d_filter_spec d)"

definition event_documents :: "event \<Rightarrow> bool" where
  "event_documents e \<longleftrightarrow> is_dict (e_payload e) \<and> document (e_preview_payload e)"

definition documents_ok :: "database \<Rightarrow> bool" where
  "documents_ok db \<longleftrightarrow> (\<forall>d \<in> set (deliveries db). row_known db d) \<and>
     (\<forall>f \<in> set (subscription_filter_evaluations db). is_dict (fe_filter_spec f)) \<and>
     (\<forall>s \<in> set (destination_subscriptions db). document (s_filter_spec s)) \<and>
     (\<forall>e \<in> set (events db). event_documents e)"

lemma document_simps [simp]: "document None" "document (Some v) = is_dict v"
  by (simp_all add: document_def)

lemma chain_known_simps [simp]:
  "chain_known db None" "chain_known db (Some i) \<longleftrightarrow> i \<in> ch_id ` set (relay_chains db)"
  by (auto simp: chain_known_def)

definition refs :: "delivery \<Rightarrow> uuid option \<times> uuid \<times> uuid option \<times> json option" where
  "refs d = (d_event_id d, d_destination_id d, d_relay_chain_id d, d_filter_spec d)"

lemma row_known_refs: "refs d = refs d' \<Longrightarrow> row_known db d = row_known db d'"
  by (simp add: refs_def row_known_def)

lemma row_known_same:
  assumes "dest_id ` set (destinations db') = dest_id ` set (destinations db)"
    and "ch_id ` set (relay_chains db') = ch_id ` set (relay_chains db)"
  shows "row_known db' d = row_known db d"
proof -
  have "chain_known db' c = chain_known db c" for c
    using assms(2) by (cases c) simp_all
  then show ?thesis using assms(1) by (simp add: row_known_def)
qed

lemma known_events [simp]:
  "row_known (db\<lparr>events := es\<rparr>) d = row_known db d" "chain_known (db\<lparr>events := es\<rparr>) c = chain_known db c"
  by (simp_all add: row_known_def chain_known_def)

text \<open>Events are only appended, and what \<open>old\<close> says of the first ones stays true.\<close>

definition stores :: "event list \<Rightarrow> database \<Rightarrow> bool" where
  "stores old db \<longleftrightarrow> take (length old) (map event_core (events db)) = old"

definition consistent :: "event list \<Rightarrow> database \<Rightarrow> bool" where
  "consistent old db \<longleftrightarrow> references_ok db \<and> gate_exclusive db \<and> row_keys db \<and> counts_ok db \<and> documents_ok db \<and>
     stores old db"

lemma catalogue_edit [simp]:
  "counts_ok (db\<lparr>relay_chains := cs\<rparr>) = counts_ok db" "stores old (db\<lparr>relay_chains := cs\<rparr>) = stores old db"
  "counts_ok (db\<lparr>relay_chain_stations := ss\<rparr>) = counts_ok db" "stores old (db\<lparr>relay_chain_stations := ss\<rparr>) = stores old db"
  "counts_ok (db\<lparr>event_type_preview_policies := ps\<rparr>) = counts_ok db" "stores old (db\<lparr>event_type_preview_policies := ps\<rparr>) = stores old db"
  "counts_ok (db\<lparr>destination_subscriptions := subs\<rparr>) = counts_ok db" "stores old (db\<lparr>destination_subscriptions := subs\<rparr>) = stores old db"
  "counts_ok (db\<lparr>destinations := ds\<rparr>) = counts_ok db" "stores old (db\<lparr>destinations := ds\<rparr>) = stores old db"
  "stores old (db\<lparr>event_type_ack_thresholds := ts\<rparr>) = stores old db"
  by (simp_all add: counts_ok_def stores_def)

lemma documents_edit [simp]:
  "documents_ok (db\<lparr>relay_chain_stations := ss\<rparr>) = documents_ok db"
  "documents_ok (db\<lparr>event_type_preview_policies := ps\<rparr>) = documents_ok db"
  "documents_ok (db\<lparr>event_type_ack_thresholds := ts\<rparr>) = documents_ok db"
  "documents_ok (db\<lparr>ingestion_attempts := as\<rparr>) = documents_ok db"
  by (simp_all add: documents_ok_def row_known_def chain_known_def)

lemma documents_chains:
  assumes "documents_ok db" and "ch_id ` set (relay_chains db) \<subseteq> ch_id ` set cs"
  shows "documents_ok (db\<lparr>relay_chains := cs\<rparr>)"
proof -
  have "chain_known (db\<lparr>relay_chains := cs\<rparr>) c" if "chain_known db c" for c
    using assms(2) that by (cases c) auto
  with assms(1) show ?thesis by (simp add: documents_ok_def row_known_def)
qed

lemma documents_destinations:
  assumes "documents_ok db" and "dest_id ` set (destinations db) \<subseteq> dest_id ` set ds"
  shows "documents_ok (db\<lparr>destinations := ds\<rparr>)"
  using assms by (auto simp: documents_ok_def row_known_def chain_known_def)

lemma documents_deactivate:
  "ch_id ` set (relay_chains (deactivate_chains type db)) = ch_id ` set (relay_chains db)"
  by (simp add: deactivate_chains_def map_sql_update flip: set_map)

lemma event_documents_core: "event_documents (event_core e) = event_documents e"
  by (simp add: event_documents_def event_core_def)

lemma documents_ok_cores:
  "documents_ok db \<longleftrightarrow> (\<forall>d \<in> set (deliveries db). row_known db d) \<and>
     (\<forall>f \<in> set (subscription_filter_evaluations db). is_dict (fe_filter_spec f)) \<and>
     (\<forall>s \<in> set (destination_subscriptions db). document (s_filter_spec s)) \<and>
     list_all event_documents (map event_core (events db))"
  by (simp add: documents_ok_def list_all_iff event_documents_core)

lemma event_check_core: "event_check (event_core e) = event_check e"
  by (simp add: event_check_def event_core_def)

lemma counts_ok_cores:
  "counts_ok db \<longleftrightarrow> list_all event_check (map event_core (events db)) \<and>
     (\<forall>t \<in> set (event_type_ack_thresholds db). 1 \<le> t_ack_threshold t)"
  by (simp add: counts_ok_def list_all_iff event_check_core)

lemma find_event_known: "find_event db i \<noteq> None \<longleftrightarrow> i \<in> e_id ` set (events db)"
  by (auto simp: find_event_def first_row_None)

lemma find_destination_known: "find_destination db i \<noteq> None \<longleftrightarrow> i \<in> dest_id ` set (destinations db)"
  by (auto simp: find_destination_def first_row_None)

lemma references_ok_known:
  "references_ok db \<longleftrightarrow>
     (\<forall>d \<in> set (deliveries db). \<forall>e. d_event_id d = Some e \<longrightarrow> e \<in> e_id ` set (events db)) \<and>
     (\<forall>f \<in> set (subscription_filter_evaluations db). fe_event_id f \<in> e_id ` set (events db)) \<and>
     (\<forall>s \<in> set (relay_chain_stations db). st_destination_id s \<in> dest_id ` set (destinations db)) \<and>
     subscription_keys (destination_subscriptions db)"
  unfolding references_ok_def find_event_known find_destination_known ..

text \<open>Movement within the frame keeps every copy with its event.\<close>

lemma moves_refs:
  assumes "moves db db'" and "length (deliveries db') = length (deliveries db)"
  shows "map refs (deliveries db') = map refs (deliveries db)"
proof -
  obtain rows new where 1: "deliveries db' = rows @ new" "list_all2 (moved db) (deliveries db) rows"
    using assms(1) by (auto simp: moves_def)
  then have "new = []" using assms(2) by (auto dest: list_all2_lengthD)
  have "list_all2 (\<lambda>d d'. refs d = refs d') (deliveries db) rows"
    using 1(2) by (rule list_all2_mono) (auto dest: moved_snapshot simp: same_snapshot_def refs_def)
  then have "map refs (deliveries db) = map refs rows"
    by (induction rule: list_all2_induct) simp_all
  with 1(1) \<open>new = []\<close> show ?thesis by simp
qed

lemma consistent_frame:
  assumes "moves db db'" and "frame db db'" and "consistent old db"
  shows "consistent old db'"
proof -
  have "map refs (deliveries db') = map refs (deliveries db)"
    using assms(1,2) by (simp add: moves_refs frame_def)
  then have refs: "refs ` set (deliveries db') = refs ` set (deliveries db)"
    by (metis list.set_map)
  then have "fst ` refs ` set (deliveries db') = fst ` refs ` set (deliveries db)"
    by simp
  then have "d_event_id ` set (deliveries db') = d_event_id ` set (deliveries db)"
    by (simp only: image_image refs_def fst_conv)
  moreover have ids: "e_id ` set (events db') = e_id ` set (events db)"
    "dest_id ` set (destinations db') = dest_id ` set (destinations db)"
    using assms(2) frame_event_ids [OF assms(2)] by (metis frame_def list.set_map)+
  ultimately have "references_ok db'"
    using assms(2,3) unfolding consistent_def references_ok_known frame_def
    by (metis (no_types, lifting) image_iff)
  moreover have "gate_exclusive db'"
    using assms(2,3) by (simp add: consistent_def gate_exclusive_def frame_def)
  moreover have "row_keys db'"
    using assms(2,3) frame_event_ids [OF assms(2)] by (simp add: consistent_def row_keys_def frame_def)
  moreover have "counts_ok db'" and "stores old db'"
    using assms(2,3) by (simp_all add: consistent_def counts_ok_cores stores_def frame_def)
  moreover have "row_known db' d'" if d': "d' \<in> set (deliveries db')" for d'
  proof -
    have "refs d' \<in> refs ` set (deliveries db)" using d' refs by blast
    then obtain d where "d \<in> set (deliveries db)" "refs d = refs d'" by force
    then have "row_known db d'"
      using assms(3) row_known_refs [of d d' db] by (simp add: consistent_def documents_ok_def)
    moreover have "row_known db' d' = row_known db d'"
      by (rule row_known_same) (use ids assms(2) in \<open>simp_all add: frame_def\<close>)
    ultimately show ?thesis by simp
  qed
  then have "documents_ok db'"
    using assms(2,3) by (simp add: consistent_def documents_ok_cores frame_def)
  ultimately show ?thesis by (simp add: consistent_def)
qed

text \<open>
  A push or a correction inserts one event and adds only copies and judgements of that event.
\<close>

definition adds_for :: "uuid \<Rightarrow> database \<Rightarrow> database \<Rightarrow> bool" where
  "adds_for eid db db' \<longleftrightarrow>
     (\<forall>d \<in> set (deliveries db'). refs d \<in> refs ` set (deliveries db) \<or> d_event_id d = Some eid \<and> row_known db d) \<and>
     (\<forall>f \<in> set (subscription_filter_evaluations db').
        f \<in> set (subscription_filter_evaluations db) \<or> fe_event_id f = eid \<and> is_dict (fe_filter_spec f)) \<and>
     events db' = events db \<and> event_type_ack_thresholds db' = event_type_ack_thresholds db \<and>
     map dest_id (destinations db') = map dest_id (destinations db) \<and>
     destination_subscriptions db' = destination_subscriptions db \<and>
     relay_chains db' = relay_chains db \<and> relay_chain_stations db' = relay_chain_stations db \<and>
     event_type_preview_policies db' = event_type_preview_policies db"

lemma adds_for_refl [simp]: "adds_for eid db db"
  by (auto simp: adds_for_def)

lemma adds_for_known:
  assumes "adds_for eid db db'"
  shows "row_known db' d = row_known db d" "chain_known db' c = chain_known db c"
proof -
  have "dest_id ` set (destinations db') = dest_id ` set (destinations db)"
    using assms by (metis adds_for_def list.set_map)
  then show "row_known db' d = row_known db d"
    by (rule row_known_same) (use assms in \<open>simp add: adds_for_def\<close>)
  show "chain_known db' c = chain_known db c"
    using assms by (simp add: adds_for_def chain_known_def)
qed

lemma adds_for_trans:
  assumes "adds_for eid db1 db2" and "adds_for eid db2 db3"
  shows "adds_for eid db1 db3"
proof -
  have "refs d \<in> refs ` set (deliveries db1) \<or> d_event_id d = Some eid \<and> row_known db1 d"
    if d: "d \<in> set (deliveries db3)" for d
  proof (cases "refs d \<in> refs ` set (deliveries db2)")
    case True
    then obtain d2 where "d2 \<in> set (deliveries db2)" "refs d2 = refs d" by force
    then have "refs d2 \<in> refs ` set (deliveries db1) \<or> d_event_id d2 = Some eid \<and> row_known db1 d2"
      using assms(1) unfolding adds_for_def by blast
    moreover have "d_event_id d2 = d_event_id d" using \<open>refs d2 = refs d\<close> by (simp add: refs_def)
    ultimately show ?thesis using \<open>refs d2 = refs d\<close> row_known_refs [OF \<open>refs d2 = refs d\<close>] by simp
  next
    case False
    then have "d_event_id d = Some eid \<and> row_known db2 d" using assms(2) d by (auto simp: adds_for_def)
    then show ?thesis by (simp add: adds_for_known(1) [OF assms(1)])
  qed
  moreover have "f \<in> set (subscription_filter_evaluations db1) \<or> fe_event_id f = eid \<and> is_dict (fe_filter_spec f)"
    if "f \<in> set (subscription_filter_evaluations db3)" for f
    using assms that by (auto simp: adds_for_def)
  ultimately show ?thesis
    using assms by (simp add: adds_for_def)
qed

lemma adds_for_evaluation:
  "fe_event_id f = eid \<Longrightarrow> is_dict (fe_filter_spec f) \<Longrightarrow> adds_for eid db (insert_evaluation f db)"
  by (auto simp: adds_for_def insert_evaluation_def)

lemma adds_for_insert_copy:
  assumes "insert_copy guard dest row db = Inr db'" and "\<And>d. d_event_id (row d) = Some eid"
    and "\<And>d. d_destination_id (row d) = dest_id d" and "\<And>d. chain_known db (d_relay_chain_id (row d))"
    and "\<And>d. document (d_filter_spec (row d))"
  shows "adds_for eid db db'"
  using assms(1)
proof (cases rule: insert_copy_cases)
  case (inserted d new)
  have "dest_id d \<in> dest_id ` set (destinations db)"
    using inserted(1) find_destination_known [of db dest] by (auto simp: find_destination_def dest: first_row_Some)
  then have "d_event_id new = Some eid" "row_known db new"
    by (simp_all add: inserted(3) numbered_def assms(2-) row_known_def bumped_def)
  then show ?thesis
    by (auto simp: inserted(5) adds_for_def append_delivery_def bump_seq_def update_destination_row_def
        map_sql_update bumped_def)
qed simp

text \<open>The conditions the targets of a fan-out carry.\<close>

definition targets_ok :: "target list \<Rightarrow> bool" where
  "targets_ok ts \<longleftrightarrow> list_all (\<lambda>t. document (snd (snd t))) ts"

lemma targets_ok_simps [simp]:
  "targets_ok []" "targets_ok (t # ts) \<longleftrightarrow> document (snd (snd t)) \<and> targets_ok ts"
  by (simp_all add: targets_ok_def)

lemma targets_ok_filter: "targets_ok ts \<Longrightarrow> targets_ok (filter P ts)"
  by (auto simp: targets_ok_def list_all_iff)

lemma adds_for_copies:
  "fan_out_copies now gen eid b n ts db = Inr db' \<Longrightarrow> targets_ok ts \<Longrightarrow> adds_for eid db db'"
proof (induction ts arbitrary: n db)
  case (Cons t ts)
  from Cons.prems(1) show ?case
  proof (rule fan_out_copies_step)
    fix db1
    assume "insert_copy is_confirmed (fst t) (ordinary_copy now (fst (gen n)) eid b (is_shadow t) (snd (snd t))) db = Inr db1"
    then have "adds_for eid db db1"
      by (rule adds_for_insert_copy) (use Cons.prems(2) in \<open>simp_all add: ordinary_copy_def new_delivery_def\<close>)
    moreover assume "fan_out_copies now gen eid b (n + 1) ts db1 = Inr db'"
    then have "adds_for eid db1 db'" using Cons.prems(2) by (intro Cons.IH) simp_all
    ultimately show ?thesis by (rule adds_for_trans)
  qed
qed simp

lemma adds_for_stations:
  "fan_out_stations now gen eid chain key payload nb dby n ds db = Inr db' \<Longrightarrow> chain_known db (Some (ch_id chain)) \<Longrightarrow>
     adds_for eid db db'"
proof (induction ds arbitrary: n db)
  case (Cons dest ds)
  from Cons.prems(1) obtain db1 where
    1: "insert_copy (\<lambda>_. True) dest (relay_copy now (gen n) eid chain n key payload nb dby) db = Inr db1"
    and 2: "fan_out_stations now gen eid chain key payload nb dby (n + 1) ds db1 = Inr db'"
    by (auto split: sum.splits)
  have step: "adds_for eid db db1"
    using 1 by (rule adds_for_insert_copy) (use Cons.prems(2) in \<open>simp_all add: relay_copy_def new_delivery_def\<close>)
  then have "chain_known db1 (Some (ch_id chain))" using Cons.prems(2) adds_for_known(2) by blast
  then show ?case using step Cons.IH [OF 2] adds_for_trans by blast
qed simp

lemma adds_for_corrections:
  "fan_out_corrections now gen cid type key payload n ts db = Inr db' \<Longrightarrow> targets_ok ts \<Longrightarrow> adds_for cid db db'"
proof (induction ts arbitrary: n db)
  case (Cons t ts)
  from Cons.prems(1) show ?case
  proof (rule fan_out_corrections_step)
    fix db1
    assume "insert_copy (\<lambda>_. True) (fst t)
       (correction_copy now (gen n) cid type key payload (is_shadow t) (snd (snd t))) db = Inr db1"
    then have "adds_for cid db db1"
      by (rule adds_for_insert_copy) (use Cons.prems(2) in \<open>simp_all add: correction_copy_def new_delivery_def\<close>)
    moreover assume "fan_out_corrections now gen cid type key payload (n + 1) ts db1 = Inr db'"
    then have "adds_for cid db1 db'" using Cons.prems(2) by (intro Cons.IH) simp_all
    ultimately show ?thesis by (rule adds_for_trans)
  qed
qed simp

lemma adds_for_body_link: "adds_for eid db (update_deliveries P (\<lambda>d. d\<lparr>d_body_delivery_id := b\<rparr>) db)"
  by (auto simp: adds_for_def update_deliveries_def set_sql_update refs_def)

lemma adds_for_pair:
  assumes "fan_out_pair now pid bid eid type key payload preview nb dby timeout t db = Inr db'"
    and "document (snd (snd t))"
  shows "adds_for eid db db'"
proof -
  obtain dest shadow spec where t: "t = (dest, shadow, spec)" by (cases t)
  from assms(1) obtain db1 db2 where
    1: "insert_one dest (preview_copy now pid eid type key preview nb dby timeout shadow spec) db = Inr db1"
    and 2: "insert_one dest (body_copy now bid eid type key payload nb dby timeout shadow spec pid) db1 = Inr db2"
    and db': "db' = update_deliveries (\<lambda>d. d_id d = pid) (\<lambda>d. d\<lparr>d_body_delivery_id := Some bid\<rparr>) db2"
    by (auto simp: fan_out_pair_def t split: sum.splits)
  have "adds_for eid db db1"
    using 1 assms(2) by (auto simp: insert_one_def preview_copy_def new_delivery_def t split: if_splits
        elim!: adds_for_insert_copy)
  moreover have "adds_for eid db1 db2"
    using 2 assms(2) by (auto simp: insert_one_def body_copy_def new_delivery_def t split: if_splits
        elim!: adds_for_insert_copy)
  moreover have "adds_for eid db2 db'" unfolding db' by (rule adds_for_body_link)
  ultimately show ?thesis by (blast intro: adds_for_trans)
qed

lemma adds_for_pairs:
  "fan_out_pairs now gen eid type key payload preview nb dby timeout n ts db = Inr db' \<Longrightarrow> targets_ok ts \<Longrightarrow>
     adds_for eid db db'"
proof (induction ts arbitrary: n db)
  case (Cons t ts)
  then show ?case
    by (auto split: prod.splits sum.splits intro: adds_for_trans [OF adds_for_pair])
qed simp

lemma adds_for_route:
  "route_subscribers eid type payload ts r db = Some (r', db') \<Longrightarrow> targets_ok ts \<Longrightarrow> adds_for eid db db'"
proof (induction ts arbitrary: r db)
  case (Cons t ts)
  have ts: "targets_ok ts" using Cons.prems(2) by simp
  from Cons.prems(1) show ?case
  proof (cases rule: route_step)
    case plain
    from Cons.IH [OF plain(2) ts] show ?thesis .
  next
    case (judged spec matched)
    have "adds_for eid db (insert_evaluation (evaluation_row eid type t spec matched) db)"
      by (rule adds_for_evaluation) (use judged(1) Cons.prems(2) in \<open>simp_all add: evaluation_row_def\<close>)
    then show ?thesis using Cons.IH [OF judged(3) ts] by (rule adds_for_trans)
  qed
qed simp

lemma adds_for_routed:
  "fan_out_routed now gen eid b policy preview ts db = Inr (n, db') \<Longrightarrow> targets_ok ts \<Longrightarrow> adds_for eid db db'"
  by (auto simp: fan_out_routed_def fan_out_gated_event_def split: option.splits sum.splits
      intro: adds_for_copies adds_for_pairs)

lemma subscribers_documents:
  assumes "\<And>s. s \<in> set (destination_subscriptions db) \<Longrightarrow> document (s_filter_spec s)"
  shows "targets_ok (subscribers db type)"
  using assms
  by (auto simp: targets_ok_def list_all_iff subscribers_def target_of_def List.map_filter_def split: option.splits if_splits)

lemma reached_documents:
  assumes "\<And>s. s \<in> set (destination_subscriptions db) \<Longrightarrow> document (s_filter_spec s)"
  shows "targets_ok (reached_targets db e)"
  using assms
  by (auto simp: targets_ok_def list_all_iff reached_targets_def current_condition_def dest: first_row_Some split: option.splits)

lemma active_chain_known: "get_active_chain db type = Some chain \<Longrightarrow> chain_known db (Some (ch_id (fst chain)))"
  by (auto simp: get_active_chain_def active_chain_row_def chain_known_def dest: first_row_Some split: option.splits)

lemma adds_for_event:
  assumes "fan_out_event now gen eid b policy preview chain db = Inr (fo, db')"
    and "\<And>s. s \<in> set (destination_subscriptions db) \<Longrightarrow> document (s_filter_spec s)"
    and "\<And>c. chain = Some c \<Longrightarrow> chain_known db (Some (ch_id (fst c)))"
  shows "adds_for eid db db'"
proof (cases chain)
  case None
  with assms(1) have "fan_out_subscribers now gen eid b policy preview db = Inr (fo, db')"
    by (simp add: fan_out_event_def)
  then show ?thesis
  proof (cases rule: fan_out_subscribers_step)
    case (1 r db1)
    have ts: "targets_ok (subscribers db (in_event_type b))" by (rule subscribers_documents [OF assms(2)])
    then have "targets_ok (ro_targets r)"
      using route_subscribers_result [OF 1(1)] by (simp add: targets_ok_filter)
    then show ?thesis
      using adds_for_trans [OF adds_for_route [OF 1(1) ts] adds_for_routed [OF 1(2)]] by simp
  qed
next
  case (Some c)
  with assms(1) have "fan_out_chain now gen eid b c db = Inr (fo, db')"
    by (simp add: fan_out_event_def)
  from fan_out_chain_step(1) [OF this] show ?thesis
    unfolding fan_out_relay_event_def by (rule adds_for_stations) (rule assms(3) [OF Some])
qed

lemma adds_for_judgements:
  "targets_ok ts \<Longrightarrow> adds_for cid db (fold (record_judgement cid type payload) ts db)"
proof (induction ts arbitrary: db)
  case (Cons t ts)
  have "adds_for cid db (record_judgement cid type payload t db)"
    using Cons.prems by (auto simp: record_judgement_def evaluation_row_def split: option.split intro!: adds_for_evaluation)
  then show ?case using Cons by (auto intro: adds_for_trans)
qed simp

lemma stores_append:
  assumes "stores old db" and "map event_core (events db') = map event_core (events db @ new)"
  shows "stores old db'"
proof -
  have "length old \<le> length (events db)"
    using assms(1) by (metis length_map length_take min.cobounded1 min.commute stores_def)
  with assms show ?thesis by (simp add: stores_def)
qed

lemma set_required_events:
  "events (update_event_row eid (\<lambda>e. e\<lparr>e_required_ack_count := Some n\<rparr>) db)
    = sql_update (\<lambda>e. e_id e = eid) (\<lambda>e. e\<lparr>e_required_ack_count := Some n\<rparr>) (events db)"
  by (simp add: update_event_row_def)

lemma set_required_old:
  assumes "eid \<notin> e_id ` set es"
  shows "sql_update (\<lambda>e. e_id e = eid) f (es @ [row]) = es @ [if e_id row = eid then f row else row]"
  using assms by (induction es) (auto simp: sql_update_def)

lemma consistent_adds:
  assumes "consistent old db" and adds: "adds_for eid (db\<lparr>events := events db @ [row]\<rparr>) db1" and "e_id row = eid"
    and set_required: "frame (update_event_row eid (\<lambda>e. e\<lparr>e_required_ack_count := Some required\<rparr>) db1) db'"
    and "deliveries db' = deliveries db1" and "find_event db eid = None" and "0 \<le> required" and "event_documents row"
  shows "consistent old db'"
proof -
  have fresh: "eid \<notin> e_id ` set (events db)"
    using assms(6) find_event_known by blast
  have events: "map event_core (events db')
      = map event_core (events db @ [row\<lparr>e_required_ack_count := Some required\<rparr>])"
    using adds set_required set_required_old [OF fresh, of "\<lambda>e. e\<lparr>e_required_ack_count := Some required\<rparr>" row] assms(3)
    by (simp add: frame_def adds_for_def set_required_events)
  then have keys: "map e_id (events db') = map e_id (events db) @ [eid]"
    using event_cores_ids [OF events] assms(3) by simp
  then have "set (map e_id (events db')) = insert eid (e_id ` set (events db))"
    by simp
  then have ids: "e_id ` set (events db') = insert eid (e_id ` set (events db))" by simp
  have rest: "map dest_id (destinations db') = map dest_id (destinations db)"
    "subscription_filter_evaluations db' = subscription_filter_evaluations db1"
    "relay_chain_stations db' = relay_chain_stations db" "destination_subscriptions db' = destination_subscriptions db"
    "relay_chains db' = relay_chains db" "event_type_preview_policies db' = event_type_preview_policies db"
    "event_type_ack_thresholds db' = event_type_ack_thresholds db"
    using adds set_required by (simp_all add: frame_def adds_for_def update_event_row_def)
  then have dests: "dest_id ` set (destinations db') = dest_id ` set (destinations db)"
    by (metis list.set_map)
  moreover have known: "refs d \<in> refs ` set (deliveries db) \<or> d_event_id d = Some eid \<and> row_known db d"
    if "d \<in> set (deliveries db')" for d
    using adds assms(5) that by (simp add: adds_for_def)
  then have "d_event_id ` set (deliveries db') \<subseteq> insert (Some eid) (d_event_id ` set (deliveries db))"
    by (fastforce simp: refs_def)
  moreover have judged: "f \<in> set (subscription_filter_evaluations db) \<or> fe_event_id f = eid \<and> is_dict (fe_filter_spec f)"
    if "f \<in> set (subscription_filter_evaluations db')" for f
    using adds rest(2) that by (simp add: adds_for_def)
  then have "fe_event_id ` set (subscription_filter_evaluations db')
      \<subseteq> insert eid (fe_event_id ` set (subscription_filter_evaluations db))"
    by blast
  moreover have "references_ok db" using assms(1) by (simp add: consistent_def)
  ultimately have "references_ok db'"
    unfolding references_ok_known ids rest(3,4) by (auto simp: image_subset_iff)
  moreover have "gate_exclusive db'"
    using assms(1) rest by (simp add: consistent_def gate_exclusive_def)
  moreover have "row_keys db'"
    using assms(1) fresh unfolding row_keys_def keys rest(1) by (simp add: consistent_def row_keys_def)
  moreover have "counts_ok db'"
    using assms(1,7) unfolding consistent_def counts_ok_cores events rest(7)
    by (simp add: event_check_core) (simp add: event_check_def)
  moreover have "stores old db'"
    using assms(1) unfolding consistent_def by (auto intro: stores_append [OF _ events])
  moreover have "row_known db' d" if "d \<in> set (deliveries db')" for d
  proof -
    have old: "row_known db x" if "x \<in> set (deliveries db)" for x
      using assms(1) that by (simp add: consistent_def documents_ok_def)
    from known [OF that] have "row_known db d"
    proof
      assume "refs d \<in> refs ` set (deliveries db)"
      then obtain x where "x \<in> set (deliveries db)" "refs d = refs x" by auto
      then show ?thesis using old row_known_refs by blast
    qed simp
    then show ?thesis using row_known_same [OF dests] rest(5) by simp
  qed
  then have "documents_ok db'"
    using assms(1,8) judged unfolding consistent_def documents_ok_cores events rest(4)
    by (auto simp: event_documents_core) (simp add: event_documents_def)
  ultimately show ?thesis by (simp add: consistent_def)
qed

lemma required_ack_count_nonneg:
  assumes "counts_ok db" and "0 \<le> m"
  shows "0 \<le> required_ack_count_of relayed (ack_threshold_of db type) m"
proof -
  have "1 \<le> n" if "ack_threshold_of db type = Some n" for n
    using that assms(1) by (auto simp: ack_threshold_of_def counts_ok_def dest: first_row_Some)
  then show ?thesis
    using assms(2) by (fastforce simp: required_ack_count_of_def split: option.split)
qed

lemma consistent_logged: "only_logged db db' \<Longrightarrow> consistent old db \<Longrightarrow> consistent old db'"
  by (auto simp: only_logged_def consistent_def references_ok_known gate_exclusive_def row_keys_def counts_ok_def
      stores_def)

lemma fan_out_event_nonneg:
  assumes "fan_out_event now gen eid b policy preview chain db = Inr (fo, db')"
  shows "0 \<le> fo_real fo"
  using assms
  by (auto simp: fan_out_event_def fan_out_chain_def fan_out_subscribers_def fan_out_routed_def
      fan_out_gated_event_def Let_def count_rows_def split: option.splits sum.splits)

lemma validated_documents:
  assumes "validate_event_in rt fs = Some b"
  shows "is_dict (in_payload b)" "document (in_preview_payload b)"
  using assms
  by (auto simp: validate_event_in_def object_field_def split: json.splits option.splits if_splits prod.splits)

lemma consistent_push:
  assumes "create_event rt cfg clock now eid gen rq db = (r, db')" and "consistent old db"
  shows "consistent old db'"
  using assms(1)
proof (cases rule: create_event_cases)
  case (refused err)
  with assms(2) show ?thesis by (auto intro: consistent_logged)
next
  case (stored source t fs b rep)
  obtain reply code where rep: "rep = (reply, code)" by (cases rep)
  show ?thesis
  proof (cases "code = 201")
    case True
    with stored(5) rep have st: "store_event now eid gen b source t db = (Inr (reply, 201), db')" by simp
    show ?thesis
    proof (rule store_event_created [OF st])
      fix fo db2 row preview required
      assume fresh: "find_event db eid = None"
        and preview: "preview = (if get_policy db (in_event_type b) \<noteq> None then in_preview_payload b else None)"
        and row: "row = event_row now eid source b preview"
        and out: "fan_out_event now gen eid b (get_policy db (in_event_type b)) preview
          (get_active_chain db (in_event_type b)) (db\<lparr>events := events db @ [row]\<rparr>) = Inr (fo, db2)"
        and required: "required = required_ack_count_of (get_active_chain db (in_event_type b) \<noteq> None)
          (ack_threshold_of db (in_event_type b)) (fo_real fo)"
        and db': "db' = log_attempt now (fo_disposition fo) (Some (src_id source)) (Some (src_name source)) (Some eid)
          (Some (in_dedupe_key b)) (Some (in_event_type b)) (Some t)
          (update_event_row eid (\<lambda>e. e\<lparr>e_required_ack_count := Some required\<rparr>) db2)"
      show ?thesis
      proof (rule consistent_adds [OF assms(2) adds_for_event [OF out]])
        show "event_documents row"
          using validated_documents [OF stored(4)] by (simp add: row event_row_def event_documents_def preview)
        show "document (s_filter_spec s)" if "s \<in> set (destination_subscriptions (db\<lparr>events := events db @ [row]\<rparr>))" for s
          using assms(2) that by (simp add: consistent_def documents_ok_def)
        show "chain_known (db\<lparr>events := events db @ [row]\<rparr>) (Some (ch_id (fst c)))"
          if "get_active_chain db (in_event_type b) = Some c" for c
          using active_chain_known [OF that] by simp
        show "e_id row = eid" by (simp add: row event_row_def)
        show "frame (update_event_row eid (\<lambda>e. e\<lparr>e_required_ack_count := Some required\<rparr>) db2) db'"
          by (simp add: db' log_attempt_def)
        show "deliveries db' = deliveries db2" by (simp add: db' log_attempt_def update_event_row_def)
        show "0 \<le> required"
          using assms(2) fan_out_event_nonneg [OF out]
          by (simp add: required consistent_def required_ack_count_nonneg)
      qed (rule fresh)
    qed
  next
    case False
    have "only_logged db db'"
      using stored(5) False rep
      by (auto simp: store_event_def store_fresh_def store_duplicate_def Let_def log_attempt_only
          split: if_splits option.splits sum.splits)
    then show ?thesis using assms(2) by (rule consistent_logged)
  qed
qed

lemma consistent_correction:
  assumes "create_correction now cid gen event key payload db = Inr (r, db')" and "consistent old db" and "is_dict payload"
  shows "consistent old db'"
  using assms(1)
proof (cases rule: create_correction_cases)
  case (duplicate existing)
  with assms(2) show ?thesis by simp
next
  case (created e targets routed)
  define row where "row = correction_row now cid e key payload 0"
  from created(9) obtain db2 required where
    out: "fan_out_corrections now gen cid (e_event_type e) key payload 0 routed
      (db\<lparr>events := events db @ [row]\<rparr>) = Inr db2"
    and required: "required = required_ack_count_of False (ack_threshold_of db (e_event_type e))
      (count_rows (\<lambda>t. \<not> is_shadow t) routed)"
    and db': "db' = update_event_row cid (\<lambda>x. x\<lparr>e_required_ack_count := Some required\<rparr>)
      (fold (record_judgement cid (e_event_type e) payload) targets db2)"
    unfolding store_correction_def Let_def row_def by (auto split: sum.splits)
  have ts: "targets_ok targets" "targets_ok routed"
    using reached_documents [of db e] assms(2)
    by (simp_all add: created(2,3) consistent_def documents_ok_def targets_ok_filter)
  have "adds_for cid (db\<lparr>events := events db @ [row]\<rparr>)
      (fold (record_judgement cid (e_event_type e) payload) targets db2)"
    by (rule adds_for_trans [OF adds_for_corrections [OF out ts(2)] adds_for_judgements [OF ts(1)]])
  then show ?thesis
  proof (rule consistent_adds [OF assms(2)])
    show "event_documents row" using assms(3) by (simp add: row_def correction_row_def event_documents_def)
    show "e_id row = cid" by (simp add: row_def correction_row_def)
    show "0 \<le> required"
      using assms(2) by (simp add: required consistent_def required_ack_count_nonneg count_rows_def)
  qed (simp add: db', simp add: db' update_event_row_def, rule created(8))
qed

lemma deactivate_documents: "documents_ok db \<Longrightarrow> documents_ok (deactivate_chains type db)"
  using documents_chains [of db "relay_chains (deactivate_chains type db)"] documents_deactivate [of type db]
  by (simp add: deactivate_chains_def)

text \<open>Chains: the stations of a new chain are checked destinations.\<close>

lemma consistent_chain:
  assumes "set_relay_chain now i path ids db = Inr (c, db')" and "consistent old db"
  shows "consistent old db'"
proof -
  obtain type where def: "define_chain now i type ids db = Inr (c, db')"
    using assms(1) by (auto simp: set_relay_chain_def split: sum.splits)
  then have "\<forall>x \<in> set ids. x \<in> dest_id ` set (destinations db)"
    by (simp add: define_chain_def find_destination_known [symmetric] split: if_splits)
  then have station: "st_destination_id s \<in> dest_id ` set (destinations db)" if "s \<in> set (number_from n i ids)" for n s
    using that by (induction ids arbitrary: n) auto
  have "references_ok db'"
    using def assms(2) station
    by (auto simp: define_chain_def Let_def deactivate_chains_def consistent_def references_ok_known
        split: if_splits)
  moreover have "row_keys db' \<and> counts_ok db' \<and> stores old db'"
    using def assms(2)
    by (auto simp: define_chain_def Let_def deactivate_chains_def consistent_def row_keys_def split: if_splits)
  moreover have "documents_ok db'"
  proof -
    obtain row ss where db': "db' = deactivate_chains type db
        \<lparr>relay_chains := relay_chains (deactivate_chains type db) @ [row], relay_chain_stations := ss\<rparr>"
      using def by (auto simp: define_chain_def Let_def split: if_splits)
    have "documents_ok (deactivate_chains type db)"
      using assms(2) by (simp add: consistent_def deactivate_documents)
    then show ?thesis unfolding db' documents_edit by (rule documents_chains) auto
  qed
  ultimately show ?thesis
    using assms set_relay_chain_exclusive by (auto simp: consistent_def)
qed

lemma consistent_chain_clear:
  "clear_relay_chain path db = Inr (r, db') \<Longrightarrow> consistent old db \<Longrightarrow> consistent old db'"
  by (auto simp: clear_relay_chain_def delete_active_chain_def consistent_def gate_exclusive_deactivate
      deactivate_documents split: sum.splits if_splits)
    (simp_all add: references_ok_known row_keys_def deactivate_chains_def)

lemma consistent_policies:
  assumes "consistent old db"
  shows "set_preview_policy s path n db = Inr (r1, db') \<Longrightarrow> consistent old db'"
    and "clear_preview_policy path db = Inr (r2, db') \<Longrightarrow> consistent old db'"
proof -
  have "references_ok db' \<and> row_keys db' \<and> counts_ok db' \<and> documents_ok db' \<and> stores old db'" if "set_preview_policy s path n db = Inr (r1, db')"
    using that assms
    by (auto simp: set_preview_policy_def upsert_policy_def Let_def consistent_def references_ok_known
        row_keys_def split: sum.splits if_splits)
  then show "set_preview_policy s path n db = Inr (r1, db') \<Longrightarrow> consistent old db'"
    using assms set_preview_policy_exclusive by (auto simp: consistent_def)
  show "clear_preview_policy path db = Inr (r2, db') \<Longrightarrow> consistent old db'"
    using assms
    by (auto simp: clear_preview_policy_def delete_policy_def consistent_def references_ok_known
        gate_exclusive_def row_keys_def split: sum.splits)
qed

text \<open>Thresholds.\<close>

lemma consistent_thresholds:
  assumes "consistent old db"
  shows "set_ack_threshold path n db = Inr (r1, db') \<Longrightarrow> consistent old db'"
    and "clear_ack_threshold path db = Inr (r2, db') \<Longrightarrow> consistent old db'"
proof -
  have keep: "consistent old (db\<lparr>event_type_ack_thresholds := ts\<rparr>)"
    if "\<And>t. t \<in> set ts \<Longrightarrow> 1 \<le> t_ack_threshold t" for ts
    using assms that
    by (simp add: consistent_def references_ok_known gate_exclusive_def row_keys_def counts_ok_def)
  have old: "1 \<le> t_ack_threshold t" if "t \<in> set (event_type_ack_thresholds db)" for t
    using assms that by (simp add: consistent_def counts_ok_def)
  show "set_ack_threshold path n db = Inr (r1, db') \<Longrightarrow> consistent old db'"
    by (auto simp: set_ack_threshold_def clear_threshold_rows_def set_sql_update old
        split: sum.splits option.splits if_splits intro!: keep)
  show "clear_ack_threshold path db = Inr (r2, db') \<Longrightarrow> consistent old db'"
    by (auto simp: clear_ack_threshold_def clear_threshold_rows_def old split: sum.splits intro!: keep)
qed

text \<open>Subscriptions and new addresses.\<close>

definition proper_subscriptions :: "subscription list \<Rightarrow> bool" where
  "proper_subscriptions rows \<longleftrightarrow> subscription_keys rows \<and> (\<forall>s \<in> set rows. document (s_filter_spec s))"

lemma consistent_proper: "consistent old db \<Longrightarrow> proper_subscriptions (destination_subscriptions db)"
  by (simp add: consistent_def references_ok_known documents_ok_def proper_subscriptions_def)

lemma consistent_subscriptions:
  "consistent old db \<Longrightarrow> proper_subscriptions rows \<Longrightarrow> consistent old (db\<lparr>destination_subscriptions := rows\<rparr>)"
  by (simp add: consistent_def references_ok_known gate_exclusive_def row_keys_def proper_subscriptions_def)
    (simp add: documents_ok_def row_known_def chain_known_def)

lemma consistent_new_destination:
  assumes "consistent old db" and "find_destination db (dest_id d) = None"
  shows "consistent old (db\<lparr>destinations := destinations db @ [d]\<rparr>)"
proof -
  have "dest_id d \<notin> dest_id ` set (destinations db)"
    using assms(2) find_destination_known by blast
  with assms(1) show ?thesis
    by (auto simp: consistent_def references_ok_known gate_exclusive_def row_keys_def intro!: documents_destinations)
qed

text \<open>A canonical condition is an object.\<close>

lemma validated_condition:
  assumes "validate_filter_spec spec = Some v"
  shows "is_dict v"
proof (cases spec)
  case (JObj fs)
  with assms obtain n where "walk (JObj fs) 1 0 = Some (v, n)" by (auto simp: validate_filter_spec_def)
  then show ?thesis by (cases rule: walk_JObj_cases) (auto elim: validate_leaf_cases)
qed (use assms in \<open>simp_all add: validate_filter_spec_def\<close>)

lemma dict_set_values [simp]: "list_all P (map snd ps) \<Longrightarrow> P v \<Longrightarrow> list_all P (map snd (dict_set k v ps))"
  by (induction ps) auto

lemma validated_entries:
  "validate_entries canonical fs = Inr out \<Longrightarrow> list_all document (map snd canonical) \<Longrightarrow> list_all document (map snd out)"
proof (induction fs arbitrary: canonical)
  case (Cons f fs)
  obtain type spec where f: "f = (type, spec)" by (cases f)
  from Cons.prems(1) obtain t v where "validate_entries (dict_set t v canonical) fs = Inr out" "document v"
    by (auto simp: f split: option.splits dest: validated_condition)
  then show ?case using Cons.IH Cons.prems(2) by simp
qed simp

lemma validated_filters: "validate_filters fs = Inr out \<Longrightarrow> list_all document (map snd out)"
  by (auto simp: validate_filters_def intro: validated_entries split: option.splits)

lemma filter_of_document: "list_all document (map snd fs) \<Longrightarrow> document (filter_of fs type)"
  by (auto simp: filter_of_def list_all_iff dest!: map_of_SomeD split: option.split)

lemma replace_documents:
  assumes "list_all document (map snd fs)" and "\<forall>s \<in> set rows. document (s_filter_spec s)"
  shows "\<forall>s \<in> set (fold (\<lambda>type. insert_subscription now dest (filter_of fs type) type) types rows). document (s_filter_spec s)"
  using assms(2)
proof (induction types arbitrary: rows)
  case (Cons type types)
  have "\<forall>s \<in> set (insert_subscription now dest (filter_of fs type) type rows). document (s_filter_spec s)"
    using Cons.prems filter_of_document [OF assms(1)] by (auto simp: insert_subscription_def)
  then show ?case using Cons.IH by simp
qed simp

lemma patch_documents:
  assumes "\<forall>s \<in> set rows. document (s_filter_spec s)"
  shows "list_all document (map snd fs) \<Longrightarrow>
     \<forall>s \<in> set (fold (\<lambda>(type, spec). sql_update (\<lambda>s. s_destination_id s = dest \<and> s_event_type s = type)
       (\<lambda>s. s\<lparr>s_filter_spec := spec\<rparr>)) fs rows). document (s_filter_spec s)"
  using assms
proof (induction fs arbitrary: rows)
  case (Cons p fs)
  obtain type spec where p: "p = (type, spec)" by (cases p)
  have "\<forall>s \<in> set (sql_update (\<lambda>s. s_destination_id s = dest \<and> s_event_type s = type) (\<lambda>s. s\<lparr>s_filter_spec := spec\<rparr>) rows).
      document (s_filter_spec s)"
    using Cons.prems by (auto simp: set_sql_update p)
  then show ?case using Cons.IH Cons.prems(1) by (simp add: p)
qed simp

lemma patch_subscription_keys:
  assumes "subscription_keys (destination_subscriptions db)"
  shows "subscription_keys (destination_subscriptions (patch_subscription_filters dest fs db))"
proof -
  let ?key = "\<lambda>s. (s_destination_id s, s_event_type s)"
  have "map ?key (fold (\<lambda>(type, spec). sql_update (\<lambda>s. s_destination_id s = dest \<and> s_event_type s = type)
      (\<lambda>s. s\<lparr>s_filter_spec := spec\<rparr>)) fs rows) = map ?key rows" for rows :: "subscription list"
    by (induction fs arbitrary: rows) (simp_all add: map_sql_update split: prod.split)
  with assms show ?thesis
    by (simp add: subscription_keys_def patch_subscription_filters_def)
qed

lemma edit_subscriptions_shape:
  assumes "edit_subscriptions now i types canonical db = Inr db'"
    and "proper_subscriptions (destination_subscriptions db)" and "list_all document (map snd canonical)"
  obtains rows where "db' = db\<lparr>destination_subscriptions := rows\<rparr>" "proper_subscriptions rows"
proof -
  from assms(1) consider "db' = db" | ts where "db' = replace_subscriptions now i ts canonical db"
    | "db' = patch_subscription_filters i canonical db"
    by (auto simp: edit_subscriptions_def split: option.splits sum.splits if_splits)
  then show thesis
  proof cases
    case 1
    with assms(2) show thesis by (intro that [of "destination_subscriptions db"]) simp_all
  next
    case 2
    define rows where "rows = fold (\<lambda>type. insert_subscription now i (filter_of canonical type) type) ts
      (filter (\<lambda>s. s_destination_id s \<noteq> i) (destination_subscriptions db))"
    have db': "db' = db\<lparr>destination_subscriptions := rows\<rparr>"
      by (simp add: 2 replace_subscriptions_def rows_def)
    have "subscription_keys rows"
      using replace_subscriptions_keys [of db now i ts canonical] assms(2)
      by (simp add: db' [symmetric] 2 [symmetric] proper_subscriptions_def) (simp add: db')
    moreover have "\<forall>s \<in> set rows. document (s_filter_spec s)"
      unfolding rows_def using assms(2) by (intro replace_documents [OF assms(3)]) (simp add: proper_subscriptions_def)
    ultimately show thesis using that db' by (simp add: proper_subscriptions_def)
  next
    case 3
    then show thesis
      using patch_subscription_keys [of db i canonical] assms(2)
        patch_documents [of "destination_subscriptions db" canonical i] assms(3)
      by (intro that [of "destination_subscriptions db'"]) (simp_all add: patch_subscription_filters_def proper_subscriptions_def)
  qed
qed

lemma register_subscriptions_shape:
  assumes "register_subscriptions now i types canonical db = Inr db'"
    and "proper_subscriptions (destination_subscriptions db)" and "list_all document (map snd canonical)"
  obtains rows where "db' = db\<lparr>destination_subscriptions := rows\<rparr>" "proper_subscriptions rows"
proof -
  from assms(1) have "edit_subscriptions now i types canonical db = Inr db'"
    by (auto simp: register_subscriptions_def edit_subscriptions_def split: option.splits if_splits)
  then show thesis using assms(2,3) by (rule edit_subscriptions_shape) (rule that)
qed

lemma frame_set_observe [simp]: "frame db0 (set_observe_only i flag db) = frame db0 db"
  by (simp add: set_observe_only_def frame_update_destination_row)

lemma frame_set_url [simp]: "frame db0 (set_url i url db) = frame db0 db"
  by (simp add: set_url_def frame_update_destination_row)

lemma frame_retoggle [simp]: "frame db0 (retoggle i observe d db) = frame db0 db"
  by (simp add: retoggle_def split: option.split)

lemma frame_subscriptions:
  "frame db db' \<Longrightarrow> frame (db\<lparr>destination_subscriptions := rows\<rparr>) (db'\<lparr>destination_subscriptions := rows\<rparr>)"
  by (simp add: frame_def)

lemma moves_same_rows: "deliveries db1 = deliveries db \<Longrightarrow> moves db1 db' = moves db db'"
  by (simp add: moves_def moved_def [abs_def])

lemma guarded_twice: "(if a then Inl x else if b then Inl y else out) = Inr z \<Longrightarrow> out = Inr z"
  by (auto split: if_splits)

lemma consistent_update_destination:
  assumes "update_destination now s token i url types observe fs db = Inr (r, db')"
    and "moves db db'" and "consistent old db"
  shows "consistent old db'"
proof -
  have keys: "proper_subscriptions (destination_subscriptions db)"
    using assms(3) by (rule consistent_proper)
  from assms(1) obtain canonical d where v: "validate_filters fs = Inr canonical" "find_destination db i = Some d"
    by (auto simp: update_destination_def split: sum.splits option.splits if_splits)
  define db0 where "db0 = (if relocates url d then set_url i (the url) db else db)"
  have db0: "frame db db0" "destination_subscriptions db0 = destination_subscriptions db"
    by (simp_all add: db0_def) (simp add: set_url_def update_destination_row_def)
  have "(case edit_subscriptions now i types canonical db0 of Inl err \<Rightarrow> Inl err
      | Inr db1 \<Rightarrow> Inr ((), if relocates url d then snd (arm_round now s token True i (retoggle i observe d db1))
          else retoggle i observe d db1)) = Inr (r, db')"
    using assms(1) unfolding update_destination_def v sum.case option.case db0_def [symmetric] Let_def
    by (rule guarded_twice)
  then obtain db1 where edit: "edit_subscriptions now i types canonical db0 = Inr db1" and db': "frame db1 db'"
    by (auto split: sum.splits)
  obtain rows where db1: "db1 = db0\<lparr>destination_subscriptions := rows\<rparr>" and rows: "proper_subscriptions rows"
    by (rule edit_subscriptions_shape [OF edit keys [folded db0(2)] validated_filters [OF v(1)]]) (rule that)
  have "frame (db\<lparr>destination_subscriptions := rows\<rparr>) db'"
    using frame_trans [OF frame_subscriptions [OF db0(1)] db' [unfolded db1]] .
  moreover have "moves (db\<lparr>destination_subscriptions := rows\<rparr>) db'"
    using assms(2) moves_same_rows [of "db\<lparr>destination_subscriptions := rows\<rparr>" db db'] by simp
  ultimately show ?thesis
    using consistent_frame consistent_subscriptions [OF assms(3) rows] by blast
qed

lemma consistent_registration:
  assumes "register_destination now s i token url types observe fs db = Inr (r, db')"
    and "moves db db'" and "consistent old db"
  shows "consistent old db'"
proof -
  have keys: "proper_subscriptions (destination_subscriptions db)"
    using assms(3) by (rule consistent_proper)
  define existing where "existing = destination_by_url db url"
  define j where "j = (case existing of None \<Rightarrow> i | Some d \<Rightarrow> dest_id d)"
  define db1 where "db1 = (case existing of None \<Rightarrow> db\<lparr>destinations := destinations db @ [new_destination now i url observe]\<rparr>
     | Some _ \<Rightarrow> db)"
  have "existing = None \<Longrightarrow> find_destination db i = None"
    using assms(1) by (auto simp: register_destination_def Let_def existing_def split: if_splits)
  then have db1: "consistent old db1" "deliveries db1 = deliveries db"
      "destination_subscriptions db1 = destination_subscriptions db"
    using assms(3) by (simp_all add: db1_def consistent_new_destination new_destination_def split: option.split)
  from assms(1) obtain canonical db2 where reg: "register_subscriptions now j types canonical db1 = Inr db2"
    and fs: "validate_filters fs = Inr canonical" and db': "frame db2 db'"
    unfolding register_destination_def Let_def existing_def [symmetric] j_def [symmetric] db1_def [symmetric]
    by (auto split: sum.splits option.splits if_splits)
  obtain rows where db2: "db2 = db1\<lparr>destination_subscriptions := rows\<rparr>" and rows: "proper_subscriptions rows"
    by (rule register_subscriptions_shape [OF reg keys [folded db1(3)] validated_filters [OF fs]]) (rule that)
  have "moves db2 db'"
    using assms(2) db1(2) moves_same_rows [of db2 db db'] by (simp add: db2)
  then show ?thesis
    using consistent_frame [OF _ db'] consistent_subscriptions [OF db1(1) rows] by (simp add: db2)
qed

section \<open>The invariant\<close>

lemma consistent_committed:
  "(\<And>r db'. out = Inr (r, db') \<Longrightarrow> consistent old db') \<Longrightarrow> consistent old db \<Longrightarrow> consistent old (committed out db)"
  by (auto simp: committed_def split: sum.splits)

lemma perform_consistent:
  assumes "db_ok db" and "consistent old db"
  shows "consistent old (perform op db)"
proof -
  have moves: "moves db (perform op db)" by (rule moves_keeps [OF perform_keeps [OF assms(1)]])
  note framed = consistent_frame [OF moves _ assms(2)]
  show ?thesis
  proof (cases op)
    case (Push_event rt cfg clock now eid gen rq)
    then show ?thesis using consistent_push [OF _ assms(2)] by (metis perform.simps(1) prod.collapse)
  next
    case (Push_correction now cid gen event key payload)
    then show ?thesis by (simp add: consistent_committed [OF consistent_correction [OF _ assms(2)] assms(2)])
  next
    case (Register_destination now s i token url types observe fs)
    then show ?thesis
      using moves assms(2) consistent_registration [of now s i token url types observe fs db]
      by (auto simp: committed_def split: sum.splits)
  next
    case (Update_destination now s token i url types observe fs)
    then show ?thesis
      using moves assms(2) consistent_update_destination [of now s token i url types observe fs db]
      by (auto simp: committed_def split: sum.splits)
  next
    case (Set_chain now i path ids)
    then show ?thesis by (simp add: consistent_committed [OF consistent_chain [OF _ assms(2)] assms(2)])
  next
    case (Clear_chain path)
    then show ?thesis using assms(2) by (auto intro!: consistent_committed dest: consistent_chain_clear)
  next
    case (Set_policy s path n)
    then show ?thesis by (simp add: consistent_committed [OF consistent_policies(1) [OF assms(2)] assms(2)])
  next
    case (Clear_policy path)
    then show ?thesis using assms(2) by (auto intro!: consistent_committed dest: consistent_policies(2))
  next
    case (Set_threshold path n)
    then show ?thesis by (simp add: consistent_committed [OF consistent_thresholds(1) [OF assms(2)] assms(2)])
  next
    case (Clear_threshold path)
    then show ?thesis using assms(2) by (auto intro!: consistent_committed dest: consistent_thresholds(2))
  next
    case (Post_receipt now s i dest key result)
    have "frame db (perform op db)"
      unfolding Post_receipt perform.simps
      by (rule frame_committed) (auto simp: receive_receipt_def ingest_receipt_def split: if_splits dest: frame_receipt)
    then show ?thesis by (rule framed)
  qed (rule framed, simp only: perform.simps, ((rule frame_committed)?; 
      auto simp: rotate_source_key_def disable_source_def enable_source_def
      dest: frame_decide frame_void frame_cancel frame_reschedule frame_cutoff frame_requeues
        frame_destination_requests frame_source_requests frame_record_probe))+
qed

lemma step_consistent:
  assumes "step sys sys'" and "system_ok sys" and "consistent old (sys_db sys)"
  shows "consistent old (sys_db sys')"
  using assms(1)
proof (cases rule: step.cases)
  case (transact op)
  with assms(2,3) show ?thesis by (simp add: perform_consistent system_ok_def)
next
  case (claim now s token pick ld lr r db')
  define db1 where "db1 = clean_queues now pick (sys_db sys)"
  have run: "claim_head now s token ld lr db1 = (r, db')"
    using claim(2) by (simp add: claim_next_event_def db1_def)
  have ok: "db_ok (sys_db sys)" using assms(2) by (simp add: system_ok_def)
  have k: "keeps (sys_db sys) db1" unfolding db1_def by (rule queue_cleaning.run_keeps [OF ok])
  have "consistent old db1"
    by (rule consistent_frame [OF moves_keeps [OF k] _ assms(3)]) (simp add: db1_def)
  moreover have "frame db1 db'"
    using run by (auto simp: claim_head_def Let_def split: option.splits if_splits)
  moreover have "claims db1 db'" using claim_head_claims [of db1 now s token ld lr] run by simp
  then have "moves db1 db'" by (rule moves_claims) (rule db_ok_keys [OF keeps_db_ok [OF k ok]])
  ultimately show ?thesis using consistent_frame claim(1) by simp
next
  case (result c now clock s jitter r lost)
  have ok: "db_ok (sys_db sys)" using assms(2) by (simp add: system_ok_def)
  moreover have "claim_known (sys_db sys) c"
    using assms(2) result(2) by (simp add: system_ok_def list_all_iff)
  ultimately have "keeps (sys_db sys) (sys_db sys')"
    using committed_result_keeps claim_known_matches by (simp add: result(1) db_ok_keys)
  moreover have "frame (sys_db sys) (sys_db sys')"
    unfolding result(1) by (auto intro: frame_committed frame_result)
  ultimately show ?thesis using consistent_frame [OF moves_keeps _ assms(3)] by blast
next
  case (crash c)
  with assms(3) show ?thesis by simp
qed

theorem reachable_consistent:
  assumes "reachable sys"
  shows "references_ok (sys_db sys)" "gate_exclusive (sys_db sys)" "row_keys (sys_db sys)" "counts_ok (sys_db sys)"
    "documents_ok (sys_db sys)"
proof -
  have "consistent [] (sys_db sys)"
    using assms
  proof (induction rule: reachable.induct)
    case (start sys)
    then show ?case
      by (simp add: initial_def consistent_def references_ok_def gate_exclusive_def empty_database_def
          subscription_keys_def row_keys_def counts_ok_def documents_ok_def stores_def)
  next
    case (more sys sys')
    then show ?case using step_consistent reachable_ok by blast
  qed
  then show "references_ok (sys_db sys)" "gate_exclusive (sys_db sys)" "row_keys (sys_db sys)" "counts_ok (sys_db sys)"
    "documents_ok (sys_db sys)"
    by (simp_all add: consistent_def)
qed

text \<open>What was accepted is never rewritten: only its schedule, cutoff and cancellation may change.\<close>

theorem events_kept:
  assumes "reachable sys" and "step\<^sup>*\<^sup>* sys sys'"
  shows "take (length (events (sys_db sys))) (map event_core (events (sys_db sys')))
    = map event_core (events (sys_db sys))"
proof -
  let ?old = "map event_core (events (sys_db sys))"
  have "reachable sys' \<and> consistent ?old (sys_db sys')"
    using assms(2)
  proof (induction rule: rtranclp_induct)
    case base
    then show ?case
      using assms(1) reachable_consistent by (simp add: consistent_def stores_def)
  next
    case (step y z)
    then show ?case using step_consistent reachable_ok reachable.more by blast
  qed
  then show ?thesis by (simp add: consistent_def stores_def)
qed

end
