(* ===== verification/Request_Samples.thy ===== *)
theory Request_Samples
  imports Samples Trace Consistency
begin

text \<open>Concrete requests and their outcomes, on which the witnesses of the request properties evaluate.\<close>

section \<open>Ingest\<close>

definition big_order :: json where
  "big_order = JObj [(''path'', JStr ''total''), (''op'', JStr ''gte''), (''value'', JInt 10)]"

text \<open>A condition with a field the canonical form drops.\<close>

definition sloppy_filter :: json where
  "sloppy_filter = JObj [(''not'', JObj [(''value'', JInt 1), (''op'', JStr ''exists''), (''path'', JStr ''a'')])]"

text \<open>Two confirmed subscribers, the second one with a condition the sample payload does not meet.\<close>

definition subscribed_sys :: system where
  "subscribed_sys = do_op (Update_destination 3 default_settings ''t'' 8 None None None (Some [(''order'', Some big_order)]))
     (add_destination 8 ''https://b'' (add_destination 7 ''https://a''
       (do_op (Register_source 1 90 ''key'' ''shop'') empty_sys)))"

definition subscribed_db :: database where "subscribed_db = sys_db subscribed_sys"

definition sample_body :: event_in where
  "sample_body = \<lparr> in_event_type = ''order'', in_dedupe_key = ''k1'', in_payload = JObj [(''total'', JInt 5)],
     in_not_before = None, in_deliver_by = None, in_preview_payload = None \<rparr>"

definition sample_source :: event_source where
  "sample_source = \<lparr> src_id = 90, src_name = ''shop'', src_secret = ''key'', src_key_rotated_at = 1,
     src_disabled_at = None, src_created_at = 1 \<rparr>"

definition stored_push :: "(ingest_reply \<times> int) admission" where
  "stored_push = store_event 3 50 (\<lambda>n. (100 + n, 200 + n)) sample_body sample_source 3 subscribed_db"

definition admitted :: "(refusal + 'a) \<times> database \<Rightarrow> bool" where
  "admitted out = (case fst out of Inl _ \<Rightarrow> False | Inr _ \<Rightarrow> True)"

definition admitted_value :: "(refusal + 'a) \<times> database \<Rightarrow> 'a" where
  "admitted_value out = (case fst out of Inl _ \<Rightarrow> undefined | Inr r \<Rightarrow> r)"

lemma admitted_Inr: "admitted out \<Longrightarrow> out = (Inr (admitted_value out), snd out)"
  by (cases out; cases "fst out") (simp_all add: admitted_def admitted_value_def)

lemma stored_push_run: "stored_push = (Inr (fst (admitted_value stored_push), 201), snd stored_push)"
proof -
  have "admitted stored_push" "snd (admitted_value stored_push) = 201" by code_simp+
  then show ?thesis using admitted_Inr [of stored_push] by (metis prod.collapse)
qed

lemma subscribed_reachable: "reachable subscribed_sys"
  unfolding subscribed_sys_def add_destination_def by (intro history_intros empty_reachable)

text \<open>The same push through the whole request, and one with a forged signature.\<close>

definition signed_push :: "(ingest_reply \<times> int) admission" where
  "signed_push = create_event sample_runtime default_settings (seconds 4) 3 50 (\<lambda>n. (100 + n, 200 + n)) sample_request subscribed_db"

definition forged_request :: request where
  "forged_request = sample_request\<lparr>rq_signature := Some ''sha256=guess''\<rparr>"

definition forged_push :: "(event_source \<times> time) admission" where
  "forged_push = authenticate sample_runtime default_settings (seconds 4) 3 forged_request subscribed_db"

section \<open>An answer to a preview\<close>

definition consent_yes :: "api_error + consent_answer \<times> database" where
  "consent_yes = ingest_decision 10 7 50 Approve gated_db"

lemma consent_yes_ok: "run_ok consent_yes"
  by code_simp

lemma gated_db_ok: "db_ok gated_db"
  by code_simp

lemma gated_db_answerable: "answerable 10 held_body gated_db"
proof -
  have "d_status held_body = Pending" "d_release_state held_body = Some Held"
    "d_preview_delivery_id held_body = Some 3" "d_consent_deadline held_body = Some 65"
    "map_option d_delivered_at (find_delivery gated_db 3) = Some (Some 5)"
    by code_simp+
  then show ?thesis by (auto simp: answerable_def)
qed

section \<open>Results of an attempt\<close>

definition in_flight_copy :: delivery where
  "in_flight_copy = claim_row 10 default_settings 99 (sample_copy 1 7 1)"

definition sample_claim :: claim where
  "sample_claim = \<lparr> cl_row = in_flight_copy, cl_url = ''https://a'', cl_recovered = False, cl_corrects = None \<rparr>"

definition in_flight_db :: database where
  "in_flight_db = database_of [in_flight_copy, sample_copy 2 7 2]"

text \<open>The same with a destination one failure short of isolation.\<close>

definition tired_destination :: destination where
  "tired_destination = (sample_destination 7)\<lparr>dest_failure_count := failure_threshold default_settings - 1\<rparr>"

definition tired_db :: database where
  "tired_db = in_flight_db\<lparr>destinations := [tired_destination]\<rparr>"

lemma in_flight_keys: "keys_ok in_flight_db" "keys_ok tired_db"
  by code_simp+

lemma in_flight_owned: "still_owns_lease sample_claim in_flight_db" "still_owns_lease sample_claim tired_db"
  by code_simp+

lemma in_flight_found:
  "find_delivery in_flight_db (d_id (cl_row sample_claim)) = Some in_flight_copy"
  "find_delivery tired_db (d_id (cl_row sample_claim)) = Some in_flight_copy"
  "find_destination in_flight_db (d_destination_id (cl_row sample_claim)) = Some (sample_destination 7)"
  "find_destination tired_db (d_destination_id (cl_row sample_claim)) = Some tired_destination"
  by code_simp+

text \<open>A correction of event 50 in flight beside an ordinary copy.\<close>

definition correction_claim :: claim where
  "correction_claim = sample_claim\<lparr>cl_corrects := Some 49\<rparr>"

lemma correction_owned: "still_owns_lease correction_claim in_flight_db"
  by code_simp

section \<open>Chains, sweeps and moves\<close>

definition plain_db :: database where
  "plain_db = database_of [sample_copy 1 7 1]"

definition chain_run :: "api_error + relay_chain \<times> database" where
  "chain_run = define_chain 10 60 ''order'' [8, 7] plain_db"

lemma chain_run_Inr: "define_chain 10 60 ''order'' [8, 7] plain_db = Inr (run_value chain_run, run_state chain_run)"
proof -
  have "run_ok chain_run" by code_simp
  from run_Inr [OF this] show ?thesis unfolding chain_run_def prod.collapse .
qed

definition late_copy :: delivery where
  "late_copy = (sample_copy 1 7 1)\<lparr>d_deliver_by := Some 5\<rparr>"

definition late_db :: database where
  "late_db = database_of [late_copy, sample_copy 2 7 2]"

definition moving_db :: database where
  "moving_db = database_of [sample_copy 1 7 1, awaiting_copy\<lparr>d_id := 2, d_destination_seq := 2\<rparr>]"

definition move_run :: "api_error + unit \<times> database" where
  "move_run = update_destination 10 default_settings ''tok'' 7 (Some ''https://new'') None None None
     moving_db"

lemma move_run_Inr:
  "update_destination 10 default_settings ''tok'' 7 (Some ''https://new'') None None None
     moving_db
   = Inr (run_value move_run, run_state move_run)"
proof -
  have "run_ok move_run" by code_simp
  from run_Inr [OF this] show ?thesis unfolding move_run_def prod.collapse .
qed

text \<open>A destination whose handshake round is open.\<close>

definition unconfirmed_db :: database where
  "unconfirmed_db = plain_db\<lparr>destinations := [(sample_destination 7)\<lparr>dest_confirmation_state := Conf_pending,
     dest_challenge_token := Some ''tok'', dest_challenge_expires_at := Some 100\<rparr>]\<rparr>"

definition echo_run :: "api_error + (echo_disposition \<times> destination option) \<times> database" where
  "echo_run = apply_echo 10 default_settings ''new'' 7 ''tok'' unconfirmed_db"

lemma echo_run_Inr:
  "apply_echo 10 default_settings ''new'' 7 ''tok'' unconfirmed_db
    = Inr ((fst (run_value echo_run), snd (run_value echo_run)), run_state echo_run)"
proof -
  have "run_ok echo_run" by code_simp
  from run_Inr [OF this] show ?thesis unfolding echo_run_def prod.collapse .
qed

section \<open>Standing of an event and corrections\<close>

definition sent_event_db :: database where
  "sent_event_db = database_of [awaiting_copy, awaiting_copy\<lparr>d_id := 2, d_destination_id := 8\<rparr>]"

definition half_acknowledged_db :: database where
  "half_acknowledged_db = run_state (decide_receipt 50 default_settings 70 7 ''1'' Success
     (sent_event_db\<lparr>events := [(sample_event 50)\<lparr>e_required_ack_count := Some 1\<rparr>]\<rparr>))"

definition correction_run :: "api_error + correction_reply \<times> database" where
  "correction_run = create_correction 60 51 (\<lambda>n. 300 + n) 50 ''fix'' (JObj [(''total'', JInt 6)]) sent_event_db"

lemma correction_run_Inr:
  "create_correction 60 51 (\<lambda>n. 300 + n) 50 ''fix'' (JObj [(''total'', JInt 6)]) sent_event_db
    = Inr (run_value correction_run, run_state correction_run)"
proof -
  have "run_ok correction_run" by code_simp
  from run_Inr [OF this] show ?thesis unfolding correction_run_def prod.collapse .
qed

section \<open>Back into the queue\<close>

text \<open>A copy whose receipt said failure, and the database after its requeue.\<close>

definition failed_receipt_db :: database where
  "failed_receipt_db = run_state (decide_receipt 50 default_settings 70 7 ''1'' Failure awaiting_db)"

definition requeue_run :: "api_error + delivery \<times> database" where
  "requeue_run = requeue_delivery 60 1 failed_receipt_db"

lemma requeue_run_Inr: "requeue_delivery 60 1 failed_receipt_db = Inr (run_value requeue_run, run_state requeue_run)"
proof -
  have "run_ok requeue_run" by code_simp
  from run_Inr [OF this] show ?thesis unfolding requeue_run_def prod.collapse .
qed

definition parked_copy :: delivery where
  "parked_copy = (sample_copy 1 7 1)\<lparr>d_status := Dead_lettered,
     d_dead_letter_reason := Some Delivery_attempts_exhausted, d_consecutive_failures := 10\<rparr>"

definition parked_db :: database where
  "parked_db = database_of [parked_copy, sample_copy 2 7 2]"

definition revive_run :: "api_error + dead_letter_reason option \<times> database" where
  "revive_run = revive_dead_letter 60 1 parked_db"

lemma revive_run_Inr: "revive_dead_letter 60 1 parked_db = Inr (run_value revive_run, run_state revive_run)"
proof -
  have "run_ok revive_run" by code_simp
  from run_Inr [OF this] show ?thesis unfolding revive_run_def prod.collapse .
qed

definition cancel_run :: "api_error + event_view option \<times> database" where
  "cancel_run = cancel_event 60 50 queued_db"

lemma cancel_run_Inr: "cancel_event 60 50 queued_db = Inr (run_value cancel_run, run_state cancel_run)"
proof -
  have "run_ok cancel_run" by code_simp
  from run_Inr [OF this] show ?thesis unfolding cancel_run_def prod.collapse .
qed

end
