(* ===== verification/Requests.thy ===== *)
theory Requests
  imports Operations
begin

text \<open>
  The request bodies of app/schemas.py: one record per model, one validator per model. A body is
  the parsed JSON value; None is the answer 422 of the framework. The coercions of the validation
  library (UUID, URL, datetime, bool and int from a JSON value) are the record \<open>coercions\<close>, an
  argument; a \<open>str\<close> field takes a JSON string only, a \<open>dict\<close> field an object, a \<open>list\<close> field an
  array. A field with a default may be missing or null.
\<close>

record coercions =
  co_uuid :: "json \<Rightarrow> uuid option"
  co_url :: "json \<Rightarrow> string option"
  co_datetime :: "json \<Rightarrow> wall_clock option"
  co_bool :: "json \<Rightarrow> bool option"
  co_int :: "json \<Rightarrow> int option"

section \<open>Fields\<close>

definition optional :: "(json \<Rightarrow> 'a option) \<Rightarrow> (string \<times> json) list \<Rightarrow> string \<Rightarrow> 'a option option" where
  "optional f fs key = (if field fs key = JNull then Some None else map_option Some (f (field fs key)))"

definition text_between :: "nat \<Rightarrow> nat \<Rightarrow> json \<Rightarrow> string option" where
  "text_between lo hi v = (case v of
      JStr s \<Rightarrow> if lo \<le> length s \<and> length s \<le> hi then Some s else None
    | _ \<Rightarrow> None)"

definition int_between :: "coercions \<Rightarrow> int \<Rightarrow> int \<Rightarrow> json \<Rightarrow> int option" where
  "int_between co lo hi v = (case co_int co v of
      Some n \<Rightarrow> if lo \<le> n \<and> n \<le> hi then Some n else None
    | None \<Rightarrow> None)"

fun all_some :: "'a option list \<Rightarrow> 'a list option" where
  "all_some [] = Some []"
| "all_some (x # xs) = (case (x, all_some xs) of (Some y, Some ys) \<Rightarrow> Some (y # ys) | _ \<Rightarrow> None)"

definition list_of :: "(json \<Rightarrow> 'a option) \<Rightarrow> json \<Rightarrow> 'a list option" where
  "list_of f v = (case v of JArr xs \<Rightarrow> all_some (map f xs) | _ \<Rightarrow> None)"

definition event_types_field :: "json \<Rightarrow> string list option" where
  "event_types_field v = (case list_of (\<lambda>x. case x of JStr s \<Rightarrow> Some s | _ \<Rightarrow> None) v of
      None \<Rightarrow> None | Some items \<Rightarrow> normalize_event_types items)"

definition moment :: "coercions \<Rightarrow> json \<Rightarrow> time option" where
  "moment co v = normalize_optional_datetime (co_datetime co v)"

text \<open>\<open>filters\<close>: on registration every value is a condition object, on an edit it may be null.\<close>

definition filter_entry :: "bool \<Rightarrow> string \<times> json \<Rightarrow> (string \<times> json option) option" where
  "filter_entry clearing entry = (case entry of (k, v) \<Rightarrow>
     if is_dict v then Some (k, Some v) else if clearing \<and> v = JNull then Some (k, None) else None)"

definition filters_field :: "bool \<Rightarrow> json \<Rightarrow> filters option" where
  "filters_field clearing v = (case v of
      JObj entries \<Rightarrow> all_some (map (filter_entry clearing) entries)
    | _ \<Rightarrow> None)"

definition members :: "json option \<Rightarrow> (string \<times> json) list option" where
  "members body = (case body of Some (JObj fs) \<Rightarrow> Some fs | _ \<Rightarrow> None)"

section \<open>Destinations\<close>

record destination_in =
  di_url :: string
  di_event_types :: "string list option"
  di_observe_only :: "bool option"
  di_filters :: "filters option"

definition validate_destination_in :: "coercions \<Rightarrow> (string \<times> json) list \<Rightarrow> destination_in option" where
  "validate_destination_in co fs =
     (case (co_url co (field fs ''url''), optional event_types_field fs ''event_types'',
            optional (co_bool co) fs ''observe_only'', optional (filters_field False) fs ''filters'') of
        (Some url, Some types, Some observe, Some conditions) \<Rightarrow>
          if has_key fs ''url''
          then Some \<lparr>di_url = url, di_event_types = types, di_observe_only = observe, di_filters = conditions\<rparr>
          else None
      | _ \<Rightarrow> None)"

record destination_patch_in =
  dp_url :: "string option"
  dp_event_types :: "string list option"
  dp_observe_only :: "bool option"
  dp_filters :: "filters option"

definition validate_destination_patch_in ::
  "coercions \<Rightarrow> (string \<times> json) list \<Rightarrow> destination_patch_in option" where
  "validate_destination_patch_in co fs =
     (case (optional (co_url co) fs ''url'', optional event_types_field fs ''event_types'',
            optional (co_bool co) fs ''observe_only'', optional (filters_field True) fs ''filters'') of
        (Some url, Some types, Some observe, Some conditions) \<Rightarrow>
          Some \<lparr>dp_url = url, dp_event_types = types, dp_observe_only = observe, dp_filters = conditions\<rparr>
      | _ \<Rightarrow> None)"

text \<open>\<open>model_fields_set\<close> holds the fields the body names, null or not.\<close>

record destination_pause_in =
  pa_given :: bool
  pa_from :: "time option"
  pa_until :: "time option"

definition validate_destination_pause_in ::
  "coercions \<Rightarrow> (string \<times> json) list \<Rightarrow> destination_pause_in option" where
  "validate_destination_pause_in co fs =
     (case (optional (moment co) fs ''paused_from'', optional (moment co) fs ''paused_until'') of
        (Some a, Some b) \<Rightarrow>
          Some \<lparr>pa_given = (has_key fs ''paused_from'' \<or> has_key fs ''paused_until''),
                pa_from = a, pa_until = b\<rparr>
      | _ \<Rightarrow> None)"

text \<open>The body of a confirmation may be missing; when it is there its challenge is required.\<close>

definition validate_confirmation_in :: "json option \<Rightarrow> string option option" where
  "validate_confirmation_in body =
     (case body of
        None \<Rightarrow> Some None
      | Some JNull \<Rightarrow> Some None
      | Some (JObj fs) \<Rightarrow> map_option Some (text_between 1 256 (field fs ''challenge''))
      | _ \<Rightarrow> None)"

section \<open>Events\<close>

definition validate_reschedule_in :: "coercions \<Rightarrow> (string \<times> json) list \<Rightarrow> time option option" where
  "validate_reschedule_in co fs = optional (moment co) fs ''not_before''"

definition validate_deliver_by_in :: "coercions \<Rightarrow> (string \<times> json) list \<Rightarrow> time option option" where
  "validate_deliver_by_in co fs = optional (moment co) fs ''deliver_by''"

record correction_in =
  ci_dedupe_key :: string
  ci_payload :: "(string \<times> json) list"

definition validate_correction_in :: "(string \<times> json) list \<Rightarrow> correction_in option" where
  "validate_correction_in fs =
     (case (text_between 1 256 (field fs ''dedupe_key''), field fs ''payload'') of
        (Some key, JObj payload) \<Rightarrow> Some \<lparr>ci_dedupe_key = key, ci_payload = payload\<rparr>
      | _ \<Rightarrow> None)"

definition validate_consent_in :: "(string \<times> json) list \<Rightarrow> consent_decision option" where
  "validate_consent_in fs =
     (if field fs ''decision'' = JStr ''approve'' then Some Approve
      else if field fs ''decision'' = JStr ''deny'' then Some Deny else None)"

section \<open>Receipts and sources\<close>

record receipt_in =
  ri_destination_id :: uuid
  ri_dedupe_key :: string
  ri_result :: receipt_result

definition result_literal :: "json \<Rightarrow> receipt_result option" where
  "result_literal v =
     (if v = JStr ''success'' then Some Success else if v = JStr ''failure'' then Some Failure else None)"

definition validate_receipt_in :: "coercions \<Rightarrow> (string \<times> json) list \<Rightarrow> receipt_in option" where
  "validate_receipt_in co fs =
     (case (co_uuid co (field fs ''destination_id''), text_between 1 256 (field fs ''dedupe_key''),
            result_literal (field fs ''result'')) of
        (Some dest, Some key, Some result) \<Rightarrow>
          if has_key fs ''destination_id''
          then Some \<lparr>ri_destination_id = dest, ri_dedupe_key = key, ri_result = result\<rparr> else None
      | _ \<Rightarrow> None)"

definition max_source_name_length :: nat where "max_source_name_length = 128"

definition validate_source_in :: "(string \<times> json) list \<Rightarrow> string option" where
  "validate_source_in fs = text_between 1 max_source_name_length (field fs ''name'')"

section \<open>Settings of an event type\<close>

text \<open>A threshold may be null but has to be there; a consent timeout may be left out.\<close>

definition validate_ack_threshold_in :: "coercions \<Rightarrow> (string \<times> json) list \<Rightarrow> int option option" where
  "validate_ack_threshold_in co fs =
     (if has_key fs ''ack_threshold'' then optional (int_between co 1 2147483647) fs ''ack_threshold'' else None)"

definition validate_preview_policy_in :: "coercions \<Rightarrow> (string \<times> json) list \<Rightarrow> int option option" where
  "validate_preview_policy_in co fs = optional (int_between co 1 2147483647) fs ''consent_timeout_seconds''"

definition validate_relay_chain_in :: "coercions \<Rightarrow> (string \<times> json) list \<Rightarrow> uuid list option" where
  "validate_relay_chain_in co fs =
     (case list_of (co_uuid co) (field fs ''destination_ids'') of
        None \<Rightarrow> None
      | Some ids \<Rightarrow> if ids \<noteq> [] \<and> distinct ids then Some ids else None)"

section \<open>What an accepted body guarantees\<close>

lemma optional_Some:
  assumes "optional f fs key = Some (Some x)"
  shows "f (field fs key) = Some x"
  using assms by (auto simp: optional_def split: if_splits)

lemma text_between_ok: "text_between lo hi v = Some s \<Longrightarrow> v = JStr s \<and> lo \<le> length s \<and> length s \<le> hi"
  by (auto simp: text_between_def split: json.splits if_splits)

lemma int_between_ok: "int_between co lo hi v = Some n \<Longrightarrow> lo \<le> n \<and> n \<le> hi"
  by (auto simp: int_between_def split: option.splits if_splits)

lemma all_some_map: "all_some xs = Some ys \<Longrightarrow> xs = map Some ys"
  by (induction xs arbitrary: ys) (auto split: option.splits)

lemma event_types_field_ok: "event_types_field v = Some types \<Longrightarrow> event_types_ok types"
  by (auto simp: event_types_field_def split: option.splits dest: normalize_event_types_ok)

lemma filters_field_ok:
  assumes "filters_field clearing v = Some fs" and "(k, spec) \<in> set fs"
  shows "(case spec of None \<Rightarrow> clearing | Some s \<Rightarrow> is_dict s)"
proof -
  from assms(1) obtain entries where "all_some (map (filter_entry clearing) entries) = Some fs"
    by (auto simp: filters_field_def split: json.splits)
  from all_some_map [OF this] assms(2) have "Some (k, spec) \<in> set (map (filter_entry clearing) entries)"
    by simp
  then have "Some (k, spec) \<in> filter_entry clearing ` set entries"
    by simp
  then show ?thesis
    by (auto simp: filter_entry_def split: prod.splits if_splits)
qed

lemma validate_destination_in_ok:
  assumes "validate_destination_in co fs = Some b"
  shows "list_all event_types_ok (case di_event_types b of None \<Rightarrow> [] | Some ts \<Rightarrow> [ts])"
    "\<forall>conditions. di_filters b = Some conditions \<longrightarrow> (\<forall>(k, spec) \<in> set conditions. spec \<noteq> None)"
proof -
  from assms show "list_all event_types_ok (case di_event_types b of None \<Rightarrow> [] | Some ts \<Rightarrow> [ts])"
    by (auto simp: validate_destination_in_def split: option.splits if_splits
        dest!: optional_Some event_types_field_ok)
  from assms have "di_filters b = Some conditions \<Longrightarrow> filters_field False (field fs ''filters'') = Some conditions"
    for conditions
    by (auto simp: validate_destination_in_def split: option.splits if_splits dest!: optional_Some)
  then show "\<forall>conditions. di_filters b = Some conditions \<longrightarrow> (\<forall>(k, spec) \<in> set conditions. spec \<noteq> None)"
    by (fastforce dest: filters_field_ok)
qed

lemma validate_relay_chain_in_ok: "validate_relay_chain_in co fs = Some ids \<Longrightarrow> ids \<noteq> [] \<and> distinct ids"
  by (auto simp: validate_relay_chain_in_def split: option.splits if_splits)

lemma validate_receipt_in_ok:
  "validate_receipt_in co fs = Some b \<Longrightarrow> 1 \<le> length (ri_dedupe_key b) \<and> length (ri_dedupe_key b) \<le> 256"
  by (auto simp: validate_receipt_in_def split: option.splits if_splits dest!: text_between_ok)

lemma validate_ack_threshold_in_ok:
  "validate_ack_threshold_in co fs = Some (Some n) \<Longrightarrow> 1 \<le> n \<and> n \<le> 2147483647"
  by (auto simp: validate_ack_threshold_in_def split: if_splits dest!: optional_Some int_between_ok)

lemma validate_preview_policy_in_ok:
  "validate_preview_policy_in co fs = Some (Some n) \<Longrightarrow> 1 \<le> n \<and> n \<le> 2147483647"
  by (auto simp: validate_preview_policy_in_def dest!: optional_Some int_between_ok)

end
