(* ===== verification/Api.thy ===== *)
theory Api
  imports Consistency Requests
begin

text \<open>
  The HTTP surface of app/main.py for the requests that change state: each \<open>call\<close> is one route with
  its path parameters, query parameter and parsed body, and \<open>serve\<close> is what the service answers: the
  status code, and the database it leaves. A path or query UUID, and a body, are validated before the
  handler runs; the refusal is 422. An exception the handler does not turn into an HTTP error is
  500 and nothing is committed. What the handler draws (clock, ids, tokens) is the record \<open>draws\<close>.
\<close>

record draws =
  dr_now :: time
  dr_clock :: time
  dr_id :: uuid
  dr_ids :: "nat \<Rightarrow> uuid"
  dr_pairs :: "nat \<Rightarrow> uuid \<times> uuid"
  dr_token :: string

datatype call =
  Call_register_destination "json option"
| Call_update_destination string "json option"
| Call_confirm string "string option" "json option"
| Call_reissue string
| Call_pause string "json option"
| Call_resume string
| Call_recover string
| Call_requeue_destination string
| Call_register_source "json option"
| Call_rotate_key string
| Call_disable_source string
| Call_enable_source string
| Call_push request
| Call_correct string "json option"
| Call_cancel string
| Call_reschedule string "json option"
| Call_deliver_by string "json option"
| Call_requeue_event string
| Call_consent string "string option" "json option"
| Call_void_body string
| Call_receipt "json option"
| Call_requeue_delivery string
| Call_revive string
| Call_set_threshold string "json option"
| Call_clear_threshold string
| Call_set_chain string "json option"
| Call_clear_chain string
| Call_set_policy string "json option"
| Call_clear_policy string

section \<open>Answers\<close>

type_synonym answered = "int \<times> database"

definition unprocessable :: "database \<Rightarrow> answered" where
  "unprocessable db = (422, db)"

definition reply :: "('a \<Rightarrow> int) \<Rightarrow> database \<Rightarrow> api_error + 'a \<times> database \<Rightarrow> answered" where
  "reply code db outcome = (case outcome of
      Inl (Http n) \<Rightarrow> (n, db)
    | Inl _ \<Rightarrow> (500, db)
    | Inr (r, db') \<Rightarrow> (code r, db'))"

text \<open>The two handlers that commit on the way to an error.\<close>

definition reply_admission :: "(ingest_reply \<times> int) admission \<Rightarrow> answered" where
  "reply_admission outcome = (case outcome of
      (Inl (Refused code _), db) \<Rightarrow> (code, db)
    | (Inl (Crashed _), db) \<Rightarrow> (500, db)
    | (Inr (_, code), db) \<Rightarrow> (code, db))"

definition reply_echo :: "(api_error + destination option) \<times> database \<Rightarrow> answered" where
  "reply_echo outcome = (case outcome of
      (Inl (Http n), db) \<Rightarrow> (n, db)
    | (Inl _, db) \<Rightarrow> (500, db)
    | (Inr _, db) \<Rightarrow> (200, db))"

definition with_id :: "coercions \<Rightarrow> string \<Rightarrow> database \<Rightarrow> (uuid \<Rightarrow> answered) \<Rightarrow> answered" where
  "with_id co segment db k = (case co_uuid co (JStr segment) of None \<Rightarrow> unprocessable db | Some i \<Rightarrow> k i)"

definition with_body ::
  "((string \<times> json) list \<Rightarrow> 'b option) \<Rightarrow> json option \<Rightarrow> database \<Rightarrow> ('b \<Rightarrow> answered) \<Rightarrow> answered" where
  "with_body validate body db k = (case members body of
      None \<Rightarrow> unprocessable db
    | Some fs \<Rightarrow> (case validate fs of None \<Rightarrow> unprocessable db | Some b \<Rightarrow> k b))"

definition post_consent ::
  "coercions \<Rightarrow> time \<Rightarrow> string \<Rightarrow> string option \<Rightarrow> json option \<Rightarrow> database \<Rightarrow> answered" where
  "post_consent co now event query body db =
     with_id co event db (\<lambda>i. case query of
         None \<Rightarrow> unprocessable db
       | Some q \<Rightarrow> with_id co q db (\<lambda>dest. with_body validate_consent_in body db (\<lambda>decision.
           reply (\<lambda>_. 200) db (ingest_decision now dest i decision db))))"

section \<open>Serving a call\<close>

primrec serve :: "coercions \<Rightarrow> runtime \<Rightarrow> settings \<Rightarrow> draws \<Rightarrow> call \<Rightarrow> database \<Rightarrow> answered" where
  "serve co rt s dr (Call_register_destination body) db =
     with_body (validate_destination_in co) body db (\<lambda>b.
       reply (\<lambda>_. 201) db (register_destination (dr_now dr) s (dr_id dr) (dr_token dr) (di_url b)
         (di_event_types b) (di_observe_only b) (di_filters b) db))"
| "serve co rt s dr (Call_update_destination i body) db =
     with_id co i db (\<lambda>i. with_body (validate_destination_patch_in co) body db (\<lambda>b.
       reply (\<lambda>_. 200) db (update_destination (dr_now dr) s (dr_token dr) i (dp_url b)
         (dp_event_types b) (dp_observe_only b) (dp_filters b) db)))"
| "serve co rt s dr (Call_confirm i header body) db =
     with_id co i db (\<lambda>i. case validate_confirmation_in body of
         None \<Rightarrow> unprocessable db
       | Some echo \<Rightarrow> reply_echo (confirm_destination (dr_now dr) s (dr_token dr) i echo header db))"
| "serve co rt s dr (Call_reissue i) db =
     with_id co i db (\<lambda>i. reply (\<lambda>_. 200) db (reissue_challenge (dr_now dr) s (dr_token dr) i db))"
| "serve co rt s dr (Call_pause i body) db =
     with_id co i db (\<lambda>i. with_body (validate_destination_pause_in co) body db (\<lambda>b.
       reply (\<lambda>_. 200) db (pause_destination (dr_now dr) i (pa_given b) (pa_from b) (pa_until b) db)))"
| "serve co rt s dr (Call_resume i) db =
     with_id co i db (\<lambda>i. reply (\<lambda>_. 200) db (resume_destination i db))"
| "serve co rt s dr (Call_recover i) db =
     with_id co i db (\<lambda>i. reply (\<lambda>_. 200) db (recover_destination (dr_now dr) i db))"
| "serve co rt s dr (Call_requeue_destination i) db =
     with_id co i db (\<lambda>i. reply (\<lambda>_. 200) db (requeue_unreconciled (dr_now dr) i db))"
| "serve co rt s dr (Call_register_source body) db =
     with_body validate_source_in body db (\<lambda>name.
       reply (\<lambda>_. 201) db (register_source (dr_now dr) (dr_id dr) (dr_token dr) name db))"
| "serve co rt s dr (Call_rotate_key i) db =
     with_id co i db (\<lambda>i. reply (\<lambda>_. 200) db (rotate_source_key (dr_now dr) (dr_token dr) i db))"
| "serve co rt s dr (Call_disable_source i) db =
     with_id co i db (\<lambda>i. reply (\<lambda>_. 200) db (disable_source (dr_now dr) i db))"
| "serve co rt s dr (Call_enable_source i) db =
     with_id co i db (\<lambda>i. reply (\<lambda>_. 200) db (enable_source i db))"
| "serve co rt s dr (Call_push rq) db =
     reply_admission (create_event rt s (dr_clock dr) (dr_now dr) (dr_id dr) (dr_pairs dr) rq db)"
| "serve co rt s dr (Call_correct event body) db =
     with_id co event db (\<lambda>i. with_body validate_correction_in body db (\<lambda>b.
       reply cr_code db (create_correction (dr_now dr) (dr_id dr) (dr_ids dr) i (ci_dedupe_key b) (JObj (ci_payload b)) db)))"
| "serve co rt s dr (Call_cancel event) db =
     with_id co event db (\<lambda>i. reply (\<lambda>_. 200) db (cancel_event (dr_now dr) i db))"
| "serve co rt s dr (Call_reschedule event body) db =
     with_id co event db (\<lambda>i. with_body (validate_reschedule_in co) body db (\<lambda>t.
       reply (\<lambda>_. 200) db (reschedule_event (dr_now dr) i t db)))"
| "serve co rt s dr (Call_deliver_by event body) db =
     with_id co event db (\<lambda>i. with_body (validate_deliver_by_in co) body db (\<lambda>t.
       reply (\<lambda>_. 200) db (update_event_deliver_by (dr_now dr) i t db)))"
| "serve co rt s dr (Call_requeue_event event) db =
     with_id co event db (\<lambda>i. reply (\<lambda>_. 200) db (requeue_event_unreconciled (dr_now dr) i db))"
| "serve co rt s dr (Call_consent event query body) db = post_consent co (dr_now dr) event query body db"
| "serve co rt s dr (Call_void_body i) db =
     with_id co i db (\<lambda>i. reply (\<lambda>_. 200) db (void_gated_body (dr_now dr) i db))"
| "serve co rt s dr (Call_receipt body) db =
     with_body (validate_receipt_in co) body db (\<lambda>b.
       reply (\<lambda>_. 200) db (receive_receipt s (dr_id dr) (ri_destination_id b) (ri_dedupe_key b) (ri_result b)
         (False, dr_now dr, db) [] db))"
| "serve co rt s dr (Call_requeue_delivery i) db =
     with_id co i db (\<lambda>i. reply (\<lambda>_. 200) db (requeue_delivery (dr_now dr) i db))"
| "serve co rt s dr (Call_revive i) db =
     with_id co i db (\<lambda>i. reply (\<lambda>_. 200) db (revive_dead_letter (dr_now dr) i db))"
| "serve co rt s dr (Call_set_threshold path body) db =
     with_body (validate_ack_threshold_in co) body db (\<lambda>n. reply (\<lambda>_. 200) db (set_ack_threshold path n db))"
| "serve co rt s dr (Call_clear_threshold path) db = reply (\<lambda>_. 200) db (clear_ack_threshold path db)"
| "serve co rt s dr (Call_set_chain path body) db =
     with_body (validate_relay_chain_in co) body db (\<lambda>ids.
       reply (\<lambda>_. 200) db (set_relay_chain (dr_now dr) (dr_id dr) path ids db))"
| "serve co rt s dr (Call_clear_chain path) db = reply (\<lambda>_. 200) db (clear_relay_chain path db)"
| "serve co rt s dr (Call_set_policy path body) db =
     with_body (validate_preview_policy_in co) body db (\<lambda>n. reply (\<lambda>_. 200) db (set_preview_policy s path n db))"
| "serve co rt s dr (Call_clear_policy path) db = reply (\<lambda>_. 200) db (clear_preview_policy path db)"

section \<open>A served call is a transaction of the system\<close>

definition transacts :: "database \<Rightarrow> answered \<Rightarrow> bool" where
  "transacts db out \<longleftrightarrow> snd out = db \<or> (\<exists>op. snd out = perform op db)"

lemma unprocessable_transacts [simp]: "transacts db (unprocessable db)"
  by (simp add: transacts_def unprocessable_def)

lemma reply_committed: "snd (reply code db outcome) = committed outcome db"
  by (auto simp: reply_def committed_def split: sum.splits api_error.splits)

lemma reply_transacts: "perform op db = committed outcome db \<Longrightarrow> transacts db (reply code db outcome)"
  by (auto simp: transacts_def reply_committed dest: sym)

lemma with_id_transacts [intro]: "(\<And>i. transacts db (k i)) \<Longrightarrow> transacts db (with_id co segment db k)"
  by (simp add: with_id_def split: option.split)

lemma with_body_transacts [intro]: "(\<And>b. transacts db (k b)) \<Longrightarrow> transacts db (with_body validate body db k)"
  by (simp add: with_body_def split: option.split)

lemma reply_admission_snd: "snd (reply_admission outcome) = snd outcome"
  by (auto simp: reply_admission_def split: prod.splits sum.splits refusal.splits)

lemma reply_echo_snd: "snd (reply_echo outcome) = snd outcome"
  by (auto simp: reply_echo_def split: prod.splits sum.splits api_error.splits)

lemma serve_transacts: "transacts db (serve co rt s dr call db)"
proof (cases call)
  case (Call_consent event query body)
  show ?thesis
    unfolding Call_consent serve.simps post_consent_def
    by (cases query) (auto intro: reply_transacts [OF perform.simps(6)])
next
  case (Call_push rq)
  show ?thesis
    unfolding Call_push serve.simps transacts_def reply_admission_snd
    by (intro disjI2 exI, rule perform.simps(1) [symmetric])
next
  case (Call_confirm i header body)
  have "transacts db (reply_echo (confirm_destination (dr_now dr) s (dr_token dr) j echo header db))" for j echo
    unfolding transacts_def reply_echo_snd by (intro disjI2 exI, rule perform.simps(15) [symmetric])
  then show ?thesis
    unfolding Call_confirm serve.simps by (auto split: option.split)
qed (simp_all only: serve.simps, (rule with_id_transacts | rule with_body_transacts | rule reply_transacts, rule perform.simps)+)

lemma serve_reachable:
  assumes "reachable sys"
  shows "reachable (sys\<lparr>sys_db := snd (serve co rt s dr call (sys_db sys))\<rparr>)"
proof -
  consider (same) "snd (serve co rt s dr call (sys_db sys)) = sys_db sys"
    | (op) op where "snd (serve co rt s dr call (sys_db sys)) = perform op (sys_db sys)"
    using serve_transacts [of "sys_db sys" co rt s dr call] by (auto simp: transacts_def)
  then show ?thesis
  proof cases
    case same
    then show ?thesis using assms by simp
  next
    case op
    show ?thesis unfolding op by (rule reachable.more [OF assms step.transact])
  qed
qed

section \<open>An error changes no business row\<close>

text \<open>
  What a call answered with an error may leave behind: rows of the two logs, and on an address whose
  handshake is open a new round (a late echo).
\<close>

definition rearmed :: "destination \<Rightarrow> destination \<Rightarrow> bool" where
  "rearmed d d' \<longleftrightarrow> d' = d \<or> (dest_confirmation_state d = Conf_pending \<and>
     (\<exists>token expires rnd probe. d' = d\<lparr>dest_challenge_token := token, dest_challenge_expires_at := expires,
        dest_confirmed_at := None, dest_confirmation_round := rnd, dest_confirmation_attempt_count := 0,
        dest_next_probe_at := probe\<rparr>))"

definition only_audited :: "database \<Rightarrow> database \<Rightarrow> bool" where
  "only_audited db db' \<longleftrightarrow>
     db' = db\<lparr>destinations := destinations db', ingestion_attempts := ingestion_attempts db',
              confirmation_attempts := confirmation_attempts db'\<rparr> \<and>
     list_all2 rearmed (destinations db) (destinations db')"

definition failed_quietly :: "database \<Rightarrow> answered \<Rightarrow> bool" where
  "failed_quietly db out \<longleftrightarrow> fst out < 400 \<or> only_audited db (snd out)"

lemma only_audited_refl [simp]: "only_audited db db"
  by (simp add: only_audited_def list_all2_same rearmed_def)

lemma only_audited_logged: "only_logged db db' \<Longrightarrow> only_audited db db'"
  by (auto simp: only_logged_def only_audited_def list_all2_same rearmed_def)

lemma failed_quietly_unprocessable [simp]: "failed_quietly db (unprocessable db)"
  by (simp add: failed_quietly_def unprocessable_def)

lemma failed_quietly_reply:
  "(\<And>r db'. outcome = Inr (r, db') \<Longrightarrow> code r < 400) \<Longrightarrow> failed_quietly db (reply code db outcome)"
  by (auto simp: failed_quietly_def reply_def split: sum.split api_error.split)

lemma failed_quietly_with_id: "(\<And>i. failed_quietly db (k i)) \<Longrightarrow> failed_quietly db (with_id co segment db k)"
  by (simp add: with_id_def split: option.split)

lemma failed_quietly_with_body: "(\<And>b. failed_quietly db (k b)) \<Longrightarrow> failed_quietly db (with_body validate body db k)"
  by (simp add: with_body_def split: option.split)

lemmas failed_quietly_intros = failed_quietly_with_id failed_quietly_with_body failed_quietly_reply

lemma failed_quietly_correct:
  "failed_quietly db (reply cr_code db (create_correction now cid gen event key payload db))"
proof (rule failed_quietly_reply)
  fix r db'
  assume "create_correction now cid gen event key payload db = Inr (r, db')"
  then show "cr_code r < 400"
    by (auto simp: create_correction_def correction_duplicate_def store_correction_def Let_def
        split: option.splits if_splits sum.splits)
qed

lemma create_event_code:
  assumes "create_event rt cfg clock now eid gen rq db = (Inr (rep, code), db')"
  shows "code \<in> {200, 201}"
  using assms
proof (cases rule: create_event_cases)
  case (stored source t fs b r)
  then show ?thesis
    by (auto simp: store_event_def store_duplicate_def store_fresh_def Let_def
        split: if_splits option.splits sum.splits)
qed simp

lemma failed_quietly_push:
  "failed_quietly db (reply_admission (create_event rt cfg clock now eid gen rq db))"
proof -
  obtain r db' where run: "create_event rt cfg clock now eid gen rq db = (r, db')" by fastforce
  show ?thesis
  proof (cases r)
    case (Inl err)
    from run have "only_logged db db'"
      by (cases rule: create_event_cases) (simp_all add: Inl)
    then show ?thesis
      by (simp add: failed_quietly_def reply_admission_snd run only_audited_logged)
  next
    case (Inr p)
    then obtain rep code where p: "r = Inr (rep, code)" by (cases p) simp
    have "code \<in> {200, 201}"
      by (rule create_event_code [OF run [unfolded p]])
    then show ?thesis
      by (auto simp: failed_quietly_def reply_admission_def run p)
  qed
qed

lemma rearmed_round:
  assumes "find_destination db dest = Some d" and "dest_confirmation_state d \<noteq> Confirmed" and "row_keys db"
  shows "list_all2 rearmed (destinations db) (destinations (snd (arm_round now s token False dest db)))"
proof -
  have "rearmed x (armed now s token False x)" if "x \<in> set (destinations db)" "dest_id x = dest" for x
  proof -
    have "x = d"
      using assms(1,3) that find_destination_key [OF assms(1)]
      by (auto simp: row_keys_def dest: eq_key_imp_eq_value distinct_map [THEN iffD1] inj_onD)
    then have "dest_confirmation_state x = Conf_pending"
      using assms(2) by (cases "dest_confirmation_state d") simp_all
    then show ?thesis unfolding rearmed_def armed_def by (cases x) auto
  qed
  then show ?thesis
    using assms(1)
    by (auto simp: arm_round_def Let_def update_destination_row_def rearmed_def intro!: list_all2_sql_update)
qed


lemma failed_quietly_confirm:
  assumes "row_keys db"
  shows "failed_quietly db (reply_echo (confirm_destination now s token i echo header db))"
proof -
  let ?log = "\<lambda>rnd kind result. log_confirmation_attempt i rnd kind result"
  have refl: "list_all2 rearmed ds ds" for ds
    by (simp add: list_all2_same rearmed_def)
  have invalid: "only_audited db db'"
    if "apply_echo now s token i challenge db = Inr ((Echo_invalid, d), db')" for challenge d db'
    using that
    by (auto simp: apply_echo_def Let_def only_audited_def log_confirmation_attempt_def refl
        split: option.splits if_splits bool.splits prod.splits)
  have expired: "only_audited db db'"
    if run: "apply_echo now s token i challenge db = Inr ((Echo_expired, d), db')" for challenge d db'
  proof -
    from run obtain dest where dest: "find_destination db i = Some dest" "dest_confirmation_state dest \<noteq> Confirmed"
      and db': "destinations db' = destinations (snd (arm_round now s token False i
          (?log (dest_confirmation_round dest) Kind_expired Result_expired db)))"
        "db' = db\<lparr>destinations := destinations db', ingestion_attempts := ingestion_attempts db',
           confirmation_attempts := confirmation_attempts db'\<rparr>"
      by (auto simp: apply_echo_def arm_round_def Let_def log_confirmation_attempt_def
          update_destination_row_def find_destination_def
          split: option.splits if_splits bool.splits prod.splits)
    have "list_all2 rearmed (destinations db) (destinations db')"
      unfolding db'(1)
      using rearmed_round [of "?log (dest_confirmation_round dest) Kind_expired Result_expired db" i dest now s token]
        dest assms by (simp add: find_destination_def row_keys_def)
    with db'(2) show ?thesis
      unfolding only_audited_def by (rule conjI)
  qed
  define ch where "ch = (case echo of Some c \<Rightarrow> if c \<noteq> [] then py_strip c else py_strip (coalesce header [])
    | None \<Rightarrow> py_strip (coalesce header []))"
  have run: "confirm_destination now s token i echo header db =
    (if ch = [] then (Inl (Http 400), db)
     else case apply_echo now s token i ch db of
       Inl err \<Rightarrow> (Inl err, db)
     | Inr ((disposition, destination), db') \<Rightarrow>
         (case disposition of
            Echo_not_found \<Rightarrow> (Inl (Http 404), db)
          | Echo_invalid \<Rightarrow> (Inl (Http 400), db')
          | Echo_expired \<Rightarrow> (Inl (Http 410), db')
          | _ \<Rightarrow> (Inr destination, db')))"
    unfolding confirm_destination_def ch_def Let_def ..
  show ?thesis
  proof (cases "apply_echo now s token i ch db")
    case (Inl err)
    then show ?thesis
      by (cases err) (simp_all add: run failed_quietly_def reply_echo_def)
  next
    case (Inr out)
    obtain disposition destination db' where out: "out = ((disposition, destination), db')"
      by (metis prod.collapse)
    note res = Inr [unfolded out]
    show ?thesis
      using invalid [of ch] expired [of ch] res
      by (cases disposition) (simp_all add: run failed_quietly_def reply_echo_def)
  qed
qed


theorem serve_failed_quietly:
  assumes "row_keys db"
  shows "failed_quietly db (serve co rt s dr call db)"
proof (cases call)
  case (Call_consent event query body)
  show ?thesis
    unfolding Call_consent serve.simps post_consent_def
    by (cases query) (simp_all, (intro failed_quietly_intros; simp)+)
next
  case (Call_push rq)
  show ?thesis unfolding Call_push serve.simps by (rule failed_quietly_push)
next
  case (Call_confirm i header body)
  show ?thesis
    unfolding Call_confirm serve.simps
    by (rule failed_quietly_with_id) (auto simp: failed_quietly_confirm [OF assms] split: option.split)
next
  case (Call_correct event body)
  show ?thesis
    unfolding Call_correct serve.simps
    by (intro failed_quietly_with_id failed_quietly_with_body failed_quietly_correct)
qed (simp_all only: serve.simps, (intro failed_quietly_intros; simp)+)

end
