(* ===== verification/Wire.thy ===== *)
theory Wire
  imports Worker
begin

text \<open>
  The HTTP requests of app/worker.py, as the receiving address sees them: headers and JSON body of a
  delivery (\<open>deliver\<close>) and of a handshake probe (\<open>send_confirmation_probe\<close>), and the interval of the
  lease heartbeat. \<open>uid\<close> writes a UUID as text (\<open>str\<close> of a UUID).
\<close>

record http_post =
  post_url :: string
  post_headers :: "(string \<times> string) list"
  post_json :: json

section \<open>Deliveries\<close>

definition text_or_null :: "string option \<Rightarrow> json" where
  "text_or_null s = (case s of None \<Rightarrow> JNull | Some t \<Rightarrow> JStr t)"

definition int_or_null :: "int option \<Rightarrow> json" where
  "int_or_null n = (case n of None \<Rightarrow> JNull | Some i \<Rightarrow> JInt i)"

text \<open>\<open>str(value)\<close> of a nullable column and of a nullable number.\<close>

definition str_uuid :: "(uuid \<Rightarrow> string) \<Rightarrow> uuid option \<Rightarrow> string" where
  "str_uuid uid i = (case i of None \<Rightarrow> ''None'' | Some u \<Rightarrow> uid u)"

definition str_int :: "int option \<Rightarrow> string" where
  "str_int n = (case n of None \<Rightarrow> ''None'' | Some i \<Rightarrow> show_int i)"

text \<open>Entries the code adds only when a value is there.\<close>

definition when_some :: "'a option \<Rightarrow> ('a \<Rightarrow> 'b list) \<Rightarrow> 'b list" where
  "when_some x f = (case x of None \<Rightarrow> [] | Some v \<Rightarrow> f v)"

definition delivery_body :: "(uuid \<Rightarrow> string) \<Rightarrow> message \<Rightarrow> (string \<times> json) list" where
  "delivery_body uid m =
     [(''event_id'', JStr (str_uuid uid (msg_event_id m))),
      (''delivery_id'', JStr (uid (msg_delivery_id m))),
      (''event_type'', text_or_null (msg_event_type m)),
      (''destination_id'', JStr (uid (msg_destination_id m))),
      (''destination_seq'', JInt (msg_destination_seq m)),
      (''dedupe_key'', JStr (msg_dedupe_key m)),
      (''payload'', msg_payload m)] @
     (if msg_is_preview m
      then [(''message_type'', JStr ''event_preview''),
            (''preview_payload'', case msg_preview_payload m of None \<Rightarrow> JObj [] | Some p \<Rightarrow> p),
            (''consent_timeout_seconds'', int_or_null (msg_consent_timeout m))] @
           when_some (msg_body_delivery_id m) (\<lambda>b. [(''body_delivery_id'', JStr (uid b))])
      else []) @
     when_some (msg_corrects_event_id m) (\<lambda>e. [(''corrects_event_id'', JStr (uid e))]) @
     when_some (msg_relay m) (\<lambda>(chain, station).
       [(''relay_chain_id'', JStr (uid chain)), (''relay_station_no'', int_or_null station)])"

definition delivery_headers :: "(uuid \<Rightarrow> string) \<Rightarrow> message \<Rightarrow> (string \<times> string) list" where
  "delivery_headers uid m =
     [(''Content-Type'', ''application/json''),
      (''Idempotency-Key'', msg_dedupe_key m),
      (''X-Event-Id'', str_uuid uid (msg_event_id m)),
      (''X-Delivery-Id'', uid (msg_delivery_id m))] @
     when_some (msg_event_type m) (\<lambda>t. [(''X-Event-Type'', t)]) @
     (if msg_is_preview m then [(''X-Message-Type'', ''event_preview'')] else []) @
     when_some (msg_corrects_event_id m) (\<lambda>e. [(''X-Corrects-Event-Id'', uid e)]) @
     when_some (msg_relay m) (\<lambda>(chain, station).
       [(''X-Relay-Chain-Id'', uid chain), (''X-Relay-Station-No'', str_int station)])"

definition delivery_post :: "(uuid \<Rightarrow> string) \<Rightarrow> message \<Rightarrow> http_post" where
  "delivery_post uid m = \<lparr>post_url = msg_url m, post_headers = delivery_headers uid m,
     post_json = JObj (delivery_body uid m)\<rparr>"

section \<open>Probes\<close>

definition probe_post :: "(uuid \<Rightarrow> string) \<Rightarrow> probe \<Rightarrow> http_post" where
  "probe_post uid p =
     \<lparr>post_url = pr_url p,
      post_headers =
        [(''Content-Type'', ''application/json''),
         (''X-Message-Type'', ''activation_challenge''),
         (''X-Confirmation-Round'', show_int (pr_round p))],
      post_json = JObj
        [(''type'', JStr ''activation_challenge''),
         (''destination_id'', JStr (uid (pr_destination p))),
         (''confirmation_round'', JInt (pr_round p)),
         (''challenge'', text_or_null (pr_challenge p)),
         (''challenge_expires_at'', JNull)]\<rparr>"

section \<open>The lease heartbeat\<close>

text \<open>
  \<open>LeaseHeartbeat._run\<close>: the microseconds between two beats, and what a run of beats leaves. A beat
  that fails on the database is retried at the next interval; a beat that finds the row gone ends
  the run with \<open>lost\<close>. A beat is the time at which it ran, or None when the database failed.
\<close>

definition heartbeat_interval :: "settings \<Rightarrow> rat" where
  "heartbeat_interval s =
     max (of_int (seconds 1)) (min (of_int (lease_heartbeat_seconds s)) (of_int (claim_lease_seconds s) / 3))"

fun heartbeat_run :: "settings \<Rightarrow> claim \<Rightarrow> time option list \<Rightarrow> database \<Rightarrow> bool \<times> database" where
  "heartbeat_run s c [] db = (False, db)"
| "heartbeat_run s c (None # beats) db = heartbeat_run s c beats db"
| "heartbeat_run s c (Some now # beats) db =
     (case heartbeat now s (d_id (cl_row c)) (d_claim_token (cl_row c)) db of
        (True, db') \<Rightarrow> heartbeat_run s c beats db'
      | (False, db') \<Rightarrow> (True, db'))"

section \<open>A live lease is never reaped\<close>

lemma heartbeat_interval_le:
  assumes "seconds 3 \<le> claim_lease_seconds s"
  shows "heartbeat_interval s \<le> of_int (claim_lease_seconds s) / 3"
proof -
  have "(of_int (seconds 3) :: rat) \<le> of_int (claim_lease_seconds s)"
    using assms by (simp only: of_int_le_iff)
  then show ?thesis by (simp add: heartbeat_interval_def)
qed

lemma heartbeat_extends:
  assumes "heartbeat now s i token db = (beat, db')" and "d \<in> set (deliveries db')" and "owns i token d"
  shows "d_lease_until d = Some (now + claim_lease_seconds s)"
proof -
  let ?f = "\<lambda>d. d\<lparr>d_lease_until := Some (now + claim_lease_seconds s)\<rparr>"
  have "deliveries db' = sql_update (owns i token) ?f (deliveries db)"
    using assms(1) by (clarsimp simp: heartbeat_def)
  with assms(2) have "d \<in> (\<lambda>x. if owns i token x then ?f x else x) ` set (deliveries db)"
    by (simp only: set_sql_update)
  then obtain x where "d = (if owns i token x then ?f x else x)" by (rule imageE)
  with assms(3) show ?thesis by (cases "owns i token x") simp_all
qed

lemma reap_in_lease:
  assumes "d_lease_until d = Some t" and "now \<le> t" and "d \<in> set (deliveries db)"
  shows "d \<in> set (deliveries (reap now db))"
proof -
  have "\<not> null_lt (d_lease_until d) now" using assms(1,2) by simp
  then show ?thesis
    using assms(3) by (auto simp: reap_def set_sql_update image_iff intro: bexI [of _ d])
qed

lemma heartbeat_protects:
  assumes "heartbeat now s i token db = (beat, db')" and "d \<in> set (deliveries db')" and "owns i token d"
    and "later \<le> now + claim_lease_seconds s"
  shows "d \<in> set (deliveries (reap later db'))"
  using reap_in_lease [OF heartbeat_extends [OF assms(1-3)] assms(4,2)] .

text \<open>The worker that lost its row is told so at its next beat.\<close>

lemma heartbeat_reports_loss:
  assumes "\<not> still_owns_lease c db"
  shows "heartbeat_run s c (Some now # beats) db = (True, db)"
proof -
  have "\<not> owns (d_id (cl_row c)) (d_claim_token (cl_row c)) d" if "d \<in> set (deliveries db)" for d
    using assms that by (auto simp: still_owns_lease_def)
  then show ?thesis
    by (simp add: heartbeat_def count_rows_none update_deliveries_def)
qed

lemma heartbeat_run_keeps: "keeps db (snd (heartbeat_run s c beats db))"
proof (induction s c beats db rule: heartbeat_run.induct)
  case (3 s c now beats db)
  let ?hb = "heartbeat now s (d_id (cl_row c)) (d_claim_token (cl_row c)) db"
  have k: "keeps db (snd ?hb)" by (rule heartbeat_keeps)
  show ?case
  proof (cases ?hb)
    case (Pair beat db')
    with 3 k show ?thesis by (cases beat) (auto intro: keeps_trans)
  qed
qed simp_all

end
