(* ===== verification/Clients.thy ===== *)
theory Clients
  imports Wire Requests
begin

text \<open>
  The two client programs of src/env/scripts. mock_receiver.py is a receiving address: it answers
  handshake probes, previews and deliveries, remembers the keys it has processed, and calls the
  receipt and consent endpoints back. push_event.py is an event source: it signs and pushes one event.

  A request of the receiver is an \<open>http_post\<close> whose body \<open>json.loads\<close> has parsed. A handler runs to its
  end as one step; the delays of the script only wait. The background threads it starts are the
  \<open>callback\<close>s of a step, with the arguments the code passes them.
\<close>

section \<open>The receiver: settings, state and answers\<close>

record receiver_config =
  rc_fail_times :: int
  rc_receipt_url :: "string option"
  rc_receipt_result :: receipt_result
  rc_auto_confirm :: bool
  rc_ingest_url :: "string option"
  rc_preview_decision :: "consent_decision option"

datatype callback =
    Send_receipt string json string receipt_result
  | Send_consent string json json consent_decision

text \<open>
  The module globals. \<open>received\<close> and \<open>counter\<close> are default dicts, so total functions of the key; a key
  is the address a body names. \<open>dict_key\<close> is the identity of a JSON value as a dict key: True, 1 and
  1.0 are one key, and an array or an object is unhashable (None).
\<close>

record receiver =
  rv_processed :: "string option list"
  rv_received :: "json \<Rightarrow> (json \<times> string option) list"
  rv_counter :: "json \<Rightarrow> int"

definition fresh_receiver :: receiver where
  "fresh_receiver = \<lparr>rv_processed = [], rv_received = (\<lambda>_. []), rv_counter = (\<lambda>_. 0)\<rparr>"

fun dict_key :: "json \<Rightarrow> json option" where
  "dict_key (JBool b) = Some (JFloat (Finite (if b then 1 else 0)))"
| "dict_key (JInt i) = Some (JFloat (Finite (of_int i)))"
| "dict_key (JArr _) = None"
| "dict_key (JObj _) = None"
| "dict_key v = Some v"

definition ascii_lower :: "string \<Rightarrow> string" where
  "ascii_lower s = map (\<lambda>c. let n = (of_char c :: nat) in if 65 \<le> n \<and> n \<le> 90 then char_of (n + 32) else c) s"

text \<open>\<open>self.headers.get\<close>: header names compare without case; the first one wins.\<close>

definition header_get :: "string \<Rightarrow> http_post \<Rightarrow> string option" where
  "header_get name p = map_option snd (find (\<lambda>(k, _). ascii_lower k = ascii_lower name) (post_headers p))"

text \<open>What a handler does: its answer (None: it raised before answering), its threads, its globals.\<close>

type_synonym handled = "(int \<times> json) option \<times> callback list \<times> receiver"

section \<open>The receiver: handlers\<close>

definition probe_response :: "receiver_config \<Rightarrow> (string \<times> json) list \<Rightarrow> int \<times> json" where
  "probe_response rc fs =
     (if rc_auto_confirm rc \<and> \<not> falsy (member ''challenge'' fs)
      then (200, JObj [(''type'', JStr ''activation_response''),
                       (''destination_id'', member ''destination_id'' fs),
                       (''echo'', member ''challenge'' fs)])
      else (200, JObj [(''type'', JStr ''activation_response''), (''received'', JBool True)]))"

definition set_url_option :: "string option \<Rightarrow> string option" where
  "set_url_option url = (case url of None \<Rightarrow> None | Some u \<Rightarrow> if u = [] then None else Some u)"

text \<open>The body members are read after the answer was written; a missing one ends the handler.\<close>

definition preview_callbacks :: "receiver_config \<Rightarrow> (string \<times> json) list \<Rightarrow> callback list" where
  "preview_callbacks rc fs =
     (case (set_url_option (rc_ingest_url rc), rc_preview_decision rc) of
        (Some url, Some decision) \<Rightarrow>
          if has_key fs ''event_id'' \<and> has_key fs ''destination_id''
          then [Send_consent url (member ''event_id'' fs) (member ''destination_id'' fs) decision] else []
      | _ \<Rightarrow> [])"

definition maybe_receipt :: "receiver_config \<Rightarrow> json \<Rightarrow> string option \<Rightarrow> callback list" where
  "maybe_receipt rc destination key =
     (case (set_url_option (rc_receipt_url rc), set_url_option key) of
        (Some url, Some k) \<Rightarrow> [Send_receipt url destination k (rc_receipt_result rc)]
      | _ \<Rightarrow> [])"

definition received_json :: "(json \<times> string option) list \<Rightarrow> json" where
  "received_json entries = JArr (map (\<lambda>(seq, key). JArr [seq, text_or_null key]) entries)"

definition take_delivery ::
  "receiver_config \<Rightarrow> (string \<times> json) list \<Rightarrow> string option \<Rightarrow> receiver \<Rightarrow> handled" where
  "take_delivery rc fs key rv =
     (let named = member ''destination_id'' fs;
          destination = (if falsy named then JStr ''unknown'' else named)
      in case dict_key destination of
           None \<Rightarrow> (None, [], rv)
         | Some k \<Rightarrow>
             let n = rv_counter rv k + 1;
                 log = rv_received rv k @ [(member ''destination_seq'' fs, key)];
                 rv1 = rv\<lparr>rv_counter := (rv_counter rv)(k := n), rv_received := (rv_received rv)(k := log)\<rparr>
             in if key \<in> set (rv_processed rv)
                then (Some (200, JObj [(''status'', JStr ''duplicate_ignored''), (''key'', text_or_null key)]),
                      maybe_receipt rc destination key, rv1)
                else if rc_fail_times rc \<noteq> 0 \<and> n \<le> rc_fail_times rc
                then (Some (500, JObj [(''status'', JStr ''forced_failure''), (''attempt'', JInt n)]), [], rv1)
                else (Some (200, JObj [(''status'', JStr ''processed''), (''key'', text_or_null key),
                        (''seq'', member ''destination_seq'' fs), (''received'', received_json log)]),
                      maybe_receipt rc destination key,
                      rv1\<lparr>rv_processed := key # rv_processed rv1\<rparr>))"

definition is_challenge :: "http_post \<Rightarrow> (string \<times> json) list \<Rightarrow> bool" where
  "is_challenge p fs \<longleftrightarrow> header_get ''X-Message-Type'' p = Some ''activation_challenge'' \<or>
     member ''type'' fs = JStr ''activation_challenge''"

definition is_preview_notice :: "http_post \<Rightarrow> (string \<times> json) list \<Rightarrow> bool" where
  "is_preview_notice p fs \<longleftrightarrow> header_get ''X-Message-Type'' p = Some ''event_preview'' \<or>
     member ''message_type'' fs = JStr ''event_preview''"

definition do_POST :: "receiver_config \<Rightarrow> http_post \<Rightarrow> receiver \<Rightarrow> handled" where
  "do_POST rc p rv =
     (case post_json p of
        JObj fs \<Rightarrow>
          if is_challenge p fs then (Some (probe_response rc fs), [], rv)
          else if is_preview_notice p fs
          then (Some (200, JObj [(''status'', JStr ''preview_received''),
                  (''key'', text_or_null (header_get ''Idempotency-Key'' p))]), preview_callbacks rc fs, rv)
          else take_delivery rc fs (header_get ''Idempotency-Key'' p) rv
      | _ \<Rightarrow> (None, [], rv))"

section \<open>The receiver: calls back\<close>

definition receipt_literal :: "receipt_result \<Rightarrow> string" where
  "receipt_literal r = (case r of Success \<Rightarrow> ''success'' | Failure \<Rightarrow> ''failure'')"

definition decision_literal :: "consent_decision \<Rightarrow> string" where
  "decision_literal d = (case d of Approve \<Rightarrow> ''approve'' | Deny \<Rightarrow> ''deny'')"

definition json_header :: "(string \<times> string) list" where
  "json_header = [(''Content-Type'', ''application/json'')]"

definition send_receipt :: "string \<Rightarrow> json \<Rightarrow> string \<Rightarrow> receipt_result \<Rightarrow> http_post" where
  "send_receipt url destination key result =
     \<lparr>post_url = url, post_headers = json_header,
      post_json = JObj [(''destination_id'', destination), (''dedupe_key'', JStr key),
                        (''result'', JStr (receipt_literal result))]\<rparr>"

text \<open>\<open>fmt\<close> is how an f-string writes a JSON value that is not a string.\<close>

definition formatted :: "(json \<Rightarrow> string) \<Rightarrow> json \<Rightarrow> string" where
  "formatted fmt v = (case v of JStr s \<Rightarrow> s | _ \<Rightarrow> fmt v)"

definition send_consent ::
  "(json \<Rightarrow> string) \<Rightarrow> string \<Rightarrow> json \<Rightarrow> json \<Rightarrow> consent_decision \<Rightarrow> http_post" where
  "send_consent fmt url event destination decision =
     \<lparr>post_url = url @ ''/v1/events/'' @ formatted fmt event @ ''/consent?destination_id='' @
        formatted fmt destination,
      post_headers = json_header,
      post_json = JObj [(''decision'', JStr (decision_literal decision))]\<rparr>"

section \<open>The push client\<close>

record push_args =
  pa_source_id :: string
  pa_secret :: "string option"
  pa_event_type :: string
  pa_dedupe_key :: string
  pa_payload :: string
  pa_preview_payload :: "string option"
  pa_not_before :: "string option"
  pa_deliver_by :: "string option"
  pa_signed_at :: "string option"

definition sign :: "runtime \<Rightarrow> string \<Rightarrow> string \<Rightarrow> string \<Rightarrow> string option" where
  "sign rt secret signed_at raw_body =
     (if is_ascii signed_at then Some (rt_hmac rt secret (signed_at @ ''.'' @ raw_body)) else None)"

text \<open>An optional member written as JSON text on the command line: the outer None is a parse error.\<close>

definition parsed_option :: "runtime \<Rightarrow> string option \<Rightarrow> json option option" where
  "parsed_option rt t = (case t of None \<Rightarrow> Some None | Some s \<Rightarrow> map_option Some (rt_loads rt s))"

definition push_event_body :: "runtime \<Rightarrow> push_args \<Rightarrow> (string \<times> json) list option" where
  "push_event_body rt a =
     (case (rt_loads rt (pa_payload a), parsed_option rt (pa_preview_payload a)) of
        (Some payload, Some preview) \<Rightarrow>
          Some ([(''event_type'', JStr (pa_event_type a)), (''dedupe_key'', JStr (pa_dedupe_key a)),
                 (''payload'', payload)] @
                when_some preview (\<lambda>p. [(''preview_payload'', p)]) @
                when_some (pa_not_before a) (\<lambda>t. [(''not_before'', JStr t)]) @
                when_some (pa_deliver_by a) (\<lambda>t. [(''deliver_by'', JStr t)]))
      | _ \<Rightarrow> None)"

definition or_else :: "string option \<Rightarrow> string \<Rightarrow> string" where
  "or_else t d = (case set_url_option t of None \<Rightarrow> d | Some s \<Rightarrow> s)"

text \<open>
  The request the client sends, or its exit status when it sends none: 2 without a secret, 1 when
  an exception ends it. \<open>env\<close> is EVENT_SOURCE_SECRET, \<open>dumps\<close> the JSON writer.
\<close>

definition push_request ::
  "runtime \<Rightarrow> (json \<Rightarrow> string) \<Rightarrow> string option \<Rightarrow> time \<Rightarrow> push_args \<Rightarrow> int + request" where
  "push_request rt dumps env now a =
     (let secret = or_else (pa_secret a) (or_else env []) in
      if secret = [] then Inl 2
      else case push_event_body rt a of
        None \<Rightarrow> Inl 1
      | Some fs \<Rightarrow>
          let raw = dumps (JObj fs);
              signed_at = or_else (pa_signed_at a) (show_int (now div 1000000))
          in case sign rt secret signed_at raw of
               None \<Rightarrow> Inl 1
             | Some signature \<Rightarrow>
                 Inr \<lparr>rq_source_id = Some (pa_source_id a), rq_signed_at = Some signed_at,
                      rq_signature = Some signature, rq_body = raw\<rparr>)"

definition push_exit :: "int \<Rightarrow> int" where
  "push_exit status = (if status \<in> {200, 201} then 0 else 1)"

definition register_body :: "string \<Rightarrow> json" where
  "register_body name = JObj [(''name'', JStr name)]"

definition register_exit :: "int \<Rightarrow> int" where
  "register_exit status = (if status = 201 then 0 else 1)"

section \<open>The receiver processes a key once\<close>

text \<open>The key an answer reports as newly processed.\<close>

definition processed_key :: "(int \<times> json) option \<Rightarrow> json option" where
  "processed_key ans = (case ans of
      Some (code, JObj fs) \<Rightarrow>
        if code = 200 \<and> member ''status'' fs = JStr ''processed'' then Some (member ''key'' fs) else None
    | _ \<Rightarrow> None)"

fun run_receiver :: "receiver_config \<Rightarrow> http_post list \<Rightarrow> receiver \<Rightarrow> (int \<times> json) option list \<times> receiver" where
  "run_receiver rc [] rv = ([], rv)"
| "run_receiver rc (p # ps) rv =
     (case do_POST rc p rv of
        (ans, _, rv1) \<Rightarrow> (case run_receiver rc ps rv1 of (answers, rv2) \<Rightarrow> (ans # answers, rv2)))"

lemma text_or_null_inject [simp]: "text_or_null a = text_or_null b \<longleftrightarrow> a = b"
  by (auto simp: text_or_null_def split: option.splits)

lemma member_simps [simp]:
  "member k [] = JNull"
  "member k ((j, v) # fs) = (if k = j then v else member k fs)"
  by (simp_all add: member_def)

lemma take_delivery_processed:
  assumes "take_delivery rc fs key rv = (ans, cs, rv')"
  shows "processed_key ans = None \<and> rv_processed rv' = rv_processed rv \<or>
    processed_key ans = Some (text_or_null key) \<and> key \<notin> set (rv_processed rv) \<and>
    rv_processed rv' = key # rv_processed rv"
  using assms
  by (auto simp: take_delivery_def Let_def processed_key_def split: option.splits if_splits)

lemma do_POST_processed:
  assumes "do_POST rc p rv = (ans, cs, rv')"
  obtains (other) "processed_key ans = None" "rv_processed rv' = rv_processed rv"
  | (processed) key where "processed_key ans = Some (text_or_null key)" "key \<notin> set (rv_processed rv)"
      "rv_processed rv' = key # rv_processed rv"
proof -
  have "processed_key ans = None \<and> rv_processed rv' = rv_processed rv \<or>
    (\<exists>key. processed_key ans = Some (text_or_null key) \<and> key \<notin> set (rv_processed rv) \<and>
      rv_processed rv' = key # rv_processed rv)"
  proof (cases "post_json p")
    case (JObj fs)
    show ?thesis
      using assms JObj take_delivery_processed [of rc fs "header_get ''Idempotency-Key'' p" rv ans cs rv']
      by (auto simp: do_POST_def probe_response_def processed_key_def split: if_splits)
  qed (use assms in \<open>simp_all add: do_POST_def processed_key_def\<close>)
  then show thesis using that by blast
qed

definition processed_keys :: "(int \<times> json) option list \<Rightarrow> json list" where
  "processed_keys answers = List.map_filter processed_key answers"

lemma processed_keys_simps [simp]:
  "processed_keys [] = []"
  "processed_keys (a # as) = (case processed_key a of None \<Rightarrow> processed_keys as | Some k \<Rightarrow> k # processed_keys as)"
  by (simp_all add: processed_keys_def map_filter_simps split: option.split)

theorem run_receiver_once:
  "distinct (processed_keys (fst (run_receiver rc posts rv))) \<and>
   (\<forall>k \<in> set (processed_keys (fst (run_receiver rc posts rv))). k \<notin> text_or_null ` set (rv_processed rv))"
proof (induction posts arbitrary: rv)
  case (Cons p ps)
  obtain ans cs rv1 where step: "do_POST rc p rv = (ans, cs, rv1)" by (metis prod.collapse)
  obtain answers rv2 where rest: "run_receiver rc ps rv1 = (answers, rv2)" by fastforce
  note IH = Cons.IH [of rv1, unfolded rest]
  from step show ?case
  proof (cases rule: do_POST_processed)
    case other
    with IH show ?thesis by (simp add: step rest)
  next
    case (processed key)
    with IH show ?thesis by (auto simp: step rest)
  qed
qed simp

text \<open>Once an address has been asked often enough, a delivery is no longer refused.\<close>

lemma take_delivery_accepts:
  assumes "take_delivery rc fs key rv = (ans, cs, rv')" and "dict_key (if falsy (member ''destination_id'' fs)
      then JStr ''unknown'' else member ''destination_id'' fs) = Some k"
    and "rc_fail_times rc \<le> rv_counter rv k"
  shows "\<exists>body. ans = Some (200, body)"
  using assms by (auto simp: take_delivery_def Let_def split: if_splits)

lemma take_delivery_counts:
  assumes "take_delivery rc fs key rv = (ans, cs, rv')" and "dict_key (if falsy (member ''destination_id'' fs)
      then JStr ''unknown'' else member ''destination_id'' fs) = Some k"
  shows "rv_counter rv' k = rv_counter rv k + 1"
  using assms by (auto simp: take_delivery_def Let_def split: if_splits)

section \<open>What the worker's requests look like to the receiver\<close>

lemma header_names:
  "ascii_lower ''Content-Type'' = ''content-type''" "ascii_lower ''Idempotency-Key'' = ''idempotency-key''"
  "ascii_lower ''X-Event-Id'' = ''x-event-id''" "ascii_lower ''X-Delivery-Id'' = ''x-delivery-id''"
  "ascii_lower ''X-Event-Type'' = ''x-event-type''" "ascii_lower ''X-Message-Type'' = ''x-message-type''"
  "ascii_lower ''X-Corrects-Event-Id'' = ''x-corrects-event-id''"
  "ascii_lower ''X-Relay-Chain-Id'' = ''x-relay-chain-id''" "ascii_lower ''X-Relay-Station-No'' = ''x-relay-station-no''"
  "ascii_lower ''X-Confirmation-Round'' = ''x-confirmation-round''"
  by code_simp+

lemma delivery_header_key: "header_get ''Idempotency-Key'' (delivery_post uid m) = Some (msg_dedupe_key m)"
  by (simp add: header_get_def delivery_post_def delivery_headers_def header_names)

lemma delivery_header_type:
  "header_get ''X-Message-Type'' (delivery_post uid m) = (if msg_is_preview m then Some ''event_preview'' else None)"
  by (auto simp: header_get_def delivery_post_def delivery_headers_def header_names when_some_def
      split: option.split)

lemma delivery_members:
  "member ''type'' (delivery_body uid m) = JNull"
  "member ''destination_id'' (delivery_body uid m) = JStr (uid (msg_destination_id m))"
  "member ''event_id'' (delivery_body uid m) = JStr (str_uuid uid (msg_event_id m))"
  "has_key (delivery_body uid m) ''event_id''" "has_key (delivery_body uid m) ''destination_id''"
  "member ''message_type'' (delivery_body uid m) = (if msg_is_preview m then JStr ''event_preview'' else JNull)"
  by (auto simp: delivery_body_def when_some_def member_def split: option.split)

lemma delivery_kind:
  "\<not> is_challenge (delivery_post uid m) (delivery_body uid m)"
  "is_preview_notice (delivery_post uid m) (delivery_body uid m) \<longleftrightarrow> msg_is_preview m"
  by (auto simp: is_challenge_def is_preview_notice_def delivery_header_type delivery_members)

lemma post_json_delivery: "post_json (delivery_post uid m) = JObj (delivery_body uid m)"
  by (simp add: delivery_post_def)

lemma do_POST_body:
  "\<not> msg_is_preview m \<Longrightarrow> do_POST rc (delivery_post uid m) rv
     = take_delivery rc (delivery_body uid m) (Some (msg_dedupe_key m)) rv"
  using delivery_kind [of uid m]
  by (simp add: do_POST_def delivery_header_key post_json_delivery)

lemma do_POST_preview:
  "msg_is_preview m \<Longrightarrow> do_POST rc (delivery_post uid m) rv
     = (Some (200, JObj [(''status'', JStr ''preview_received''), (''key'', JStr (msg_dedupe_key m))]),
        preview_callbacks rc (delivery_body uid m), rv)"
  using delivery_kind [of uid m]
  by (simp add: do_POST_def delivery_header_key text_or_null_def post_json_delivery)

lemma do_POST_probe:
  "do_POST rc (probe_post uid p) rv =
     (Some (if rc_auto_confirm rc \<and> \<not> falsy (text_or_null (pr_challenge p))
       then (200, JObj [(''type'', JStr ''activation_response''), (''destination_id'', JStr (uid (pr_destination p))),
                        (''echo'', text_or_null (pr_challenge p))])
       else (200, JObj [(''type'', JStr ''activation_response''), (''received'', JBool True)])), [], rv)"
  by (simp add: do_POST_def is_challenge_def probe_post_def header_get_def header_names probe_response_def)

section \<open>A push signed with the current secret is admitted\<close>

definition hex_digit :: "char \<Rightarrow> bool" where
  "hex_digit c \<longleftrightarrow> (let n = (of_char c :: nat) in (48 \<le> n \<and> n \<le> 57) \<or> (97 \<le> n \<and> n \<le> 102))"

text \<open>\<open>hexdigest()\<close>: a non-empty string of hexadecimal digits.\<close>

definition hex_digest :: "string \<Rightarrow> bool" where
  "hex_digest s \<longleftrightarrow> s \<noteq> [] \<and> list_all hex_digit s"

lemma py_strip_solid:
  assumes "list_all (\<lambda>c. \<not> is_space c) s"
  shows "py_strip s = s"
proof -
  have same: "dropWhile is_space t = t" if "list_all (\<lambda>c. \<not> is_space c) t" for t
    using that by (cases t) auto
  have "list_all (\<lambda>c. \<not> is_space c) (rev s)" using assms by (simp add: list_all_iff)
  with assms show ?thesis by (simp add: py_strip_def same)
qed

lemma plain_header:
  assumes "list_all P s" and "\<And>c. P c \<Longrightarrow> \<not> is_space c \<and> (of_char c :: nat) < 128"
  shows "py_strip s = s" "is_ascii s"
  using assms by (auto simp: is_ascii_def list_all_iff intro!: py_strip_solid)

lemma plain_digits:
  "hex_digit c \<Longrightarrow> \<not> is_space c \<and> (of_char c :: nat) < 128"
  "is_ascii_digit c \<Longrightarrow> \<not> is_space c \<and> (of_char c :: nat) < 128"
  by (auto simp: hex_digit_def is_ascii_digit_def is_space_def Let_def)

lemma hex_digest_header:
  assumes "hex_digest s"
  shows "py_strip s = s" "is_ascii s" "remove_prefix ''sha256='' s = s"
proof -
  from assms have "list_all hex_digit s" by (simp add: hex_digest_def)
  then show "py_strip s = s" "is_ascii s"
    by (simp_all add: plain_header [OF _ plain_digits(1)])
  obtain c cs where s: "s = c # cs" "hex_digit c" using assms by (cases s) (auto simp: hex_digest_def)
  have "\<not> hex_digit CHR ''s''" by code_simp
  with s have "c \<noteq> CHR ''s''" by auto
  then show "remove_prefix ''sha256='' s = s"
    by (simp add: remove_prefix_def starts_with_def s(1))
qed

lemma show_nat_digits: "show_nat n \<noteq> [] \<and> list_all is_ascii_digit (show_nat n)"
proof (induction n rule: show_nat.induct)
  case (1 n)
  have digit: "is_ascii_digit (char_of (48 + m))" if "m < 10" for m :: nat
    using that by (simp add: is_ascii_digit_def Let_def of_char_of take_bit_eq_mod)
  show ?case
  proof (cases "n < 10")
    case True
    then show ?thesis by (simp add: show_nat.simps [of n] digit)
  next
    case False
    with 1 show ?thesis by (simp add: show_nat.simps [of n] digit)
  qed
qed

lemma show_int_header:
  assumes "0 \<le> i"
  shows "py_strip (show_int i) = show_int i" "is_ascii (show_int i)" "show_int i \<noteq> []"
proof -
  have "list_all is_ascii_digit (show_nat (nat i))" "show_nat (nat i) \<noteq> []"
    using show_nat_digits [of "nat i"] by simp_all
  with plain_header [OF this(1) plain_digits(2)] assms
  show "py_strip (show_int i) = show_int i" "is_ascii (show_int i)" "show_int i \<noteq> []"
    by (simp_all add: show_int_def)
qed

lemma push_request_signed:
  assumes "push_request rt dumps env now a = Inr rq" and "pa_signed_at a = None"
  obtains raw secret where "secret = or_else (pa_secret a) (or_else env [])" "secret \<noteq> []"
    "rq = \<lparr>rq_source_id = Some (pa_source_id a), rq_signed_at = Some (show_int (now div 1000000)),
       rq_signature = Some (rt_hmac rt secret (show_int (now div 1000000) @ ''.'' @ raw)), rq_body = raw\<rparr>"
  using assms
  by (auto simp: push_request_def Let_def sign_def or_else_def [of None] set_url_option_def [of None]
      split: if_splits option.splits)

theorem signed_push_authenticates:
  assumes "push_request rt dumps env now a = Inr rq" and "pa_signed_at a = None" and "0 \<le> now"
    and "find_source db i = Some s" and "src_disabled_at s = None"
    and "or_else (pa_secret a) (or_else env []) = src_secret s"
    and "rt_is_uuid rt (py_strip (pa_source_id a))" and "rt_cast_uuid rt (py_strip (pa_source_id a)) = Some i"
    and "rt_float rt (show_int (now div 1000000)) = Some f"
    and "rt_datetime rt f = Some (seconds (now div 1000000))"
    and "hex_digest (rt_hmac rt (src_secret s) (show_int (now div 1000000) @ ''.'' @ rq_body rq))"
    and "clock - seconds (now div 1000000) \<le> ingest_max_age_seconds cfg"
    and "seconds (now div 1000000) - clock \<le> ingest_max_future_skew_seconds cfg"
  shows "authenticate rt cfg clock stamp rq db = (Inr (s, seconds (now div 1000000)), db)"
proof -
  let ?t = "show_int (now div 1000000)"
  obtain raw where rq: "rq = \<lparr>rq_source_id = Some (pa_source_id a), rq_signed_at = Some ?t,
      rq_signature = Some (rt_hmac rt (src_secret s) (?t @ ''.'' @ raw)), rq_body = raw\<rparr>"
    by (rule push_request_signed [OF assms(1,2)]) (use assms(6) in auto)
  have "0 \<le> now div 1000000" using assms(3) by (simp add: pos_imp_zdiv_nonneg_iff)
  note t = show_int_header [OF this]
  have "hex_digest (rt_hmac rt (src_secret s) (?t @ ''.'' @ raw))"
    using assms(11) by (simp add: rq)
  note h = hex_digest_header [OF this]
  have "rt_hmac rt (src_secret s) (?t @ ''.'' @ raw) \<noteq> []"
    using assms(11) by (simp add: rq hex_digest_def)
  with h t have "signature_matches rt (src_secret s) ?t raw (rt_hmac rt (src_secret s) (?t @ ''.'' @ raw)) = Some True"
    by (simp add: signature_matches_def compute_signature_def Let_def)
  then show ?thesis
    using assms(4,5,7-10,12,13) t h \<open>rt_hmac rt (src_secret s) (?t @ ''.'' @ raw) \<noteq> []\<close>
    by (simp add: rq authenticate_def header_value_def parse_signed_at_def admit_def Let_def)
qed

end
