(* ===== verification/Exchange.thy ===== *)
theory Exchange
  imports Api Clients
begin

text \<open>
  The parties together. A pass of the worker (\<open>process_once\<close> of app/worker.py) is its two transactions
  with the HTTP call between them, while other transactions commit; a pass of the confirmer
  (\<open>process_confirmation_once\<close>) likewise. The other end of the call is the receiver of
  scripts/mock_receiver.py, and what it calls back is served by the API. The theorems follow one
  message through all of them.
\<close>

section \<open>A pass of the worker\<close>

record pass =
  ps_now :: time
  ps_token :: uuid
  ps_pick :: "uuid \<Rightarrow> bool"
  ps_locked_dest :: "uuid \<Rightarrow> bool"
  ps_locked_row :: "uuid \<Rightarrow> bool"
  ps_send :: "message \<Rightarrow> http_answer"
  ps_started :: time
  ps_finished :: time
  ps_meanwhile :: "database \<Rightarrow> database"
  ps_lost :: bool
  ps_result_now :: time
  ps_clock :: time
  ps_jitter :: time

text \<open>True: there was work and its result was written.\<close>

definition process_once :: "settings \<Rightarrow> pass \<Rightarrow> database \<Rightarrow> bool \<times> database" where
  "process_once s p db =
     (case claim_next_event (ps_now p) s (ps_token p) (ps_pick p) (ps_locked_dest p) (ps_locked_row p) db of
        (None, db1) \<Rightarrow> (False, db1)
      | (Some c, db1) \<Rightarrow>
          let r = send_result_of s (ps_started p) (ps_finished p) (ps_send p (message_of c));
              db2 = ps_meanwhile p db1
          in (case record_result (ps_result_now p) (ps_clock p) s (ps_jitter p) c r (ps_lost p) db2 of
                Inl Stale_claim \<Rightarrow> (False, db2)
              | Inr (cutoff, db3) \<Rightarrow> (True, db3)))"

lemma process_once_cases:
  obtains (idle) db1 where
      "claim_next_event (ps_now p) s (ps_token p) (ps_pick p) (ps_locked_dest p) (ps_locked_row p) db = (None, db1)"
      "process_once s p db = (False, db1)"
  | (sent) c db1 r where
      "claim_next_event (ps_now p) s (ps_token p) (ps_pick p) (ps_locked_dest p) (ps_locked_row p) db = (Some c, db1)"
      "r = send_result_of s (ps_started p) (ps_finished p) (ps_send p (message_of c))"
      "snd (process_once s p db) = committed
         (record_result (ps_result_now p) (ps_clock p) s (ps_jitter p) c r (ps_lost p) (ps_meanwhile p db1))
         (ps_meanwhile p db1)"
proof -
  obtain out db1 where claim:
    "claim_next_event (ps_now p) s (ps_token p) (ps_pick p) (ps_locked_dest p) (ps_locked_row p) db = (out, db1)"
    by fastforce
  show thesis
  proof (cases out)
    case None
    with claim show thesis by (intro idle) (simp_all add: process_once_def)
  next
    case (Some c)
    show thesis
      by (rule sent [OF claim [unfolded Some] refl])
        (auto simp: process_once_def claim Some Let_def committed_def split: sum.split worker_error.split)
  qed
qed

text \<open>The meanwhile of a pass is what others commit while the claim is held.\<close>

definition others_run :: "settings \<Rightarrow> pass \<Rightarrow> claim list \<Rightarrow> database \<Rightarrow> bool" where
  "others_run s p cs db \<longleftrightarrow>
     (\<forall>c db1. claim_next_event (ps_now p) s (ps_token p) (ps_pick p) (ps_locked_dest p) (ps_locked_row p) db
         = (Some c, db1) \<longrightarrow>
       step\<^sup>*\<^sup>* \<lparr>sys_db = db1, sys_claims = c # cs\<rparr> \<lparr>sys_db = ps_meanwhile p db1, sys_claims = c # cs\<rparr>)"

theorem process_once_steps:
  assumes "others_run s p cs db"
  shows "step\<^sup>*\<^sup>* \<lparr>sys_db = db, sys_claims = cs\<rparr> \<lparr>sys_db = snd (process_once s p db), sys_claims = cs\<rparr>"
proof (cases rule: process_once_cases [of p s db])
  case (idle db1)
  from step.claim [where sys = "\<lparr>sys_db = db, sys_claims = cs\<rparr>", simplified, OF idle(1)]
  have "step \<lparr>sys_db = db, sys_claims = cs\<rparr> \<lparr>sys_db = db1, sys_claims = cs\<rparr>"
    by (simp add: held_def)
  with idle(2) show ?thesis by auto
next
  case (sent c db1 r)
  let ?mid = "\<lparr>sys_db = ps_meanwhile p db1, sys_claims = c # cs\<rparr>"
  from step.claim [where sys = "\<lparr>sys_db = db, sys_claims = cs\<rparr>", simplified, OF sent(1)]
  have 1: "step \<lparr>sys_db = db, sys_claims = cs\<rparr> \<lparr>sys_db = db1, sys_claims = c # cs\<rparr>"
    by (simp add: held_def)
  have 2: "step\<^sup>*\<^sup>* \<lparr>sys_db = db1, sys_claims = c # cs\<rparr> ?mid"
    using assms sent(1) by (simp add: others_run_def)
  have 3: "step ?mid \<lparr>sys_db = snd (process_once s p db), sys_claims = cs\<rparr>"
    using step.result [where sys = ?mid and c = c, simplified] by (simp add: sent(3))
  from 1 2 3 show ?thesis
    by (meson converse_rtranclp_into_rtranclp rtranclp.rtrancl_into_rtrancl)
qed

section \<open>A pass of the confirmer\<close>

record confirmer_pass =
  cf_now :: time
  cf_tokens :: "uuid \<Rightarrow> string"
  cf_jitter :: time
  cf_send :: "probe \<Rightarrow> bool \<times> json option"
  cf_meanwhile :: "database \<Rightarrow> database"
  cf_result_now :: time
  cf_token :: string

text \<open>An exception in the second transaction rolls it back; the loop goes on.\<close>

definition process_confirmation_once :: "settings \<Rightarrow> confirmer_pass \<Rightarrow> database \<Rightarrow> bool \<times> database" where
  "process_confirmation_once s p db =
     (case claim_probe (cf_now p) s (cf_tokens p) (cf_jitter p) db of
        (None, db1) \<Rightarrow> (0 < fst (expire_due_rounds (cf_now p) s (cf_tokens p) 50 db), db1)
      | (Some pr, db1) \<Rightarrow>
          let (success, body) = cf_send p pr; db2 = cf_meanwhile p db1
          in (case record_probe (cf_result_now p) s (cf_token p) pr success body db2 of
                Inl _ \<Rightarrow> (False, db2)
              | Inr (_, db3) \<Rightarrow> (True, db3)))"

lemma process_confirmation_steps:
  assumes "step\<^sup>*\<^sup>* \<lparr>sys_db = snd (claim_probe (cf_now p) s (cf_tokens p) (cf_jitter p) db), sys_claims = cs\<rparr>
    \<lparr>sys_db = cf_meanwhile p (snd (claim_probe (cf_now p) s (cf_tokens p) (cf_jitter p) db)), sys_claims = cs\<rparr>"
  shows "step\<^sup>*\<^sup>* \<lparr>sys_db = db, sys_claims = cs\<rparr> \<lparr>sys_db = snd (process_confirmation_once s p db), sys_claims = cs\<rparr>"
proof -
  let ?sys = "\<lparr>sys_db = db, sys_claims = cs\<rparr>"
  obtain r db1 where claim: "claim_probe (cf_now p) s (cf_tokens p) (cf_jitter p) db = (r, db1)" by fastforce
  have 1: "step ?sys \<lparr>sys_db = db1, sys_claims = cs\<rparr>"
    using step.transact [of ?sys "Claim_probe (cf_now p) s (cf_tokens p) (cf_jitter p)"] by (simp add: claim)
  show ?thesis
  proof (cases r)
    case None
    with 1 show ?thesis by (auto simp: process_confirmation_once_def claim)
  next
    case (Some pr)
    obtain success body where send: "cf_send p pr = (success, body)" by fastforce
    let ?db2 = "cf_meanwhile p db1"
    let ?op = "Record_probe (cf_result_now p) s (cf_token p) pr success body"
    have "snd (process_confirmation_once s p db) = perform ?op ?db2"
      by (auto simp: process_confirmation_once_def claim Some send Let_def committed_def split: sum.split)
    then have 3: "step \<lparr>sys_db = ?db2, sys_claims = cs\<rparr> \<lparr>sys_db = snd (process_confirmation_once s p db), sys_claims = cs\<rparr>"
      using step.transact [of "\<lparr>sys_db = ?db2, sys_claims = cs\<rparr>" ?op] by simp
    from 1 assms 3 show ?thesis
      unfolding claim snd_conv by (meson converse_rtranclp_into_rtranclp rtranclp.rtrancl_into_rtrancl)
  qed
qed

section \<open>The handshake, end to end\<close>

text \<open>What the HTTP client makes of a handler that answered, or that raised.\<close>

definition probe_answer_of :: "handled \<Rightarrow> bool \<times> json option" where
  "probe_answer_of h = (case fst h of None \<Rightarrow> (False, None)
     | Some (code, body) \<Rightarrow> (200 \<le> code \<and> code < 300, Some body))"

definition http_answer_of :: "(json \<Rightarrow> string) \<Rightarrow> string \<Rightarrow> handled \<Rightarrow> http_answer" where
  "http_answer_of dumps dropped h = (case fst h of None \<Rightarrow> Failed_call dropped
     | Some (code, body) \<Rightarrow> Response code (dumps body))"

lemma find_destination_log [simp]:
  "find_destination (log_confirmation_attempt dest rnd kind result db) i = find_destination db i"
  by (simp add: find_destination_def)

lemma probe_exchange:
  assumes "pr_challenge p = Some ch" and "ch \<noteq> []" and "list_all (\<lambda>c. (of_char c :: nat) < 128) ch"
    and "find_destination db (pr_destination p) = Some d" and "dest_confirmation_state d = Conf_pending"
    and "dest_challenge_token d = Some ch" and "\<not> null_lt (dest_challenge_expires_at d) now"
    and "probe_answer_of (do_POST rc (probe_post uid p) rv) = (success, body)"
  shows "\<exists>db'. record_probe now s token p success body db
      = Inr (if rc_auto_confirm rc then Some Echo_confirmed else None, db') \<and>
    find_destination db' (pr_destination p) = Some (if rc_auto_confirm rc then confirmed_dest now d else d)"
proof -
  have answer: "success" "body = Some (JObj (if rc_auto_confirm rc
      then [(''type'', JStr ''activation_response''), (''destination_id'', JStr (uid (pr_destination p))), (''echo'', JStr ch)]
      else [(''type'', JStr ''activation_response''), (''received'', JBool True)]))"
    using assms(1,2,8) by (auto simp: do_POST_probe probe_answer_of_def text_or_null_def split: if_splits)
  have digest: "compare_digest ch ch = Some True"
    using assms(3) by (simp add: compare_digest_def)
  have found: "find_destination (update_destination_row (pr_destination p) (confirmed_dest now) db1) (pr_destination p)
      = Some (confirmed_dest now d)" if "find_destination db1 (pr_destination p) = Some d" for db1
    using that by (subst find_destination_row_update) (simp_all add: confirmed_dest_def)
  show ?thesis
  proof (cases "rc_auto_confirm rc")
    case True
    then have "echo_text (probe_echo body) = Some ch"
      using answer assms(2) by (simp add: probe_echo_def echo_text_def)
    then show ?thesis
      using True answer(1) assms(4-7) digest found
      by (simp add: record_probe_def apply_echo_def)
  next
    case False
    then have "echo_text (probe_echo body) = None"
      using answer by (simp add: probe_echo_def echo_text_def)
    then show ?thesis
      using False answer(1) assms(4) by (simp add: record_probe_def)
  qed
qed


section \<open>A delivery and its receipt, end to end\<close>

text \<open>The call a thread of the receiver makes.\<close>

fun call_of :: "(json \<Rightarrow> string) \<Rightarrow> callback \<Rightarrow> call" where
  "call_of fmt (Send_receipt url dest key result) = Call_receipt (Some (post_json (send_receipt url dest key result)))"
| "call_of fmt (Send_consent url event dest decision) = Call_consent (formatted fmt event) (Some (formatted fmt dest))
     (Some (post_json (send_consent fmt url event dest decision)))"

lemma receipt_in_of_call:
  assumes "co_uuid co (JStr (uid dest)) = Some dest" and "1 \<le> length key" and "length key \<le> 256"
  shows "validate_receipt_in co [(''destination_id'', JStr (uid dest)), (''dedupe_key'', JStr key),
      (''result'', JStr (receipt_literal result))]
    = Some \<lparr>ri_destination_id = dest, ri_dedupe_key = key, ri_result = result\<rparr>"
  using assms
  by (cases result) (simp_all add: validate_receipt_in_def field_def text_between_def result_literal_def receipt_literal_def)

lemma lock_delivery_unique:
  assumes "keys_ok db" and "d \<in> set (deliveries db)"
  shows "lock_delivery db (d_destination_id d) (d_dedupe_key d) = Some d"
proof -
  let ?P = "\<lambda>x. d_destination_id x = d_destination_id d \<and> d_dedupe_key x = d_dedupe_key d"
  have uniq: "x = d" if "x \<in> set (deliveries db)" "?P x" for x
    using assms that by (auto simp: keys_ok_def distinct_map inj_on_def)
  show ?thesis
  proof (cases "first_row ?P (deliveries db)")
    case None
    with assms(2) show ?thesis by (auto simp: first_row_None)
  next
    case (Some x)
    with first_row_Some [OF Some] uniq show ?thesis by (simp add: lock_delivery_def)
  qed
qed

lemma receipt_acknowledges:
  assumes "keys_ok db" and "find_delivery db i = Some d" and "d_reconcile_state d = Awaiting"
    and "\<not> reconcile_expired now d" and "find_destination db (d_destination_id d) \<noteq> None"
  shows "\<exists>r db'. receive_receipt s rid (d_destination_id d) (d_dedupe_key d) Success (False, now, db) [] db = Inr (r, db') \<and>
    r_disposition r = Receipt_applied \<and> find_delivery db' i = Some (apply_receipt_row now Acknowledged Success rid d)"
proof -
  have d: "d_id d = i" "d \<in> set (deliveries db)"
    using find_delivery_key [OF assms(2)] by simp_all
  let ?db1 = "update_delivery_row i (apply_receipt_row now Acknowledged Success rid) db"
  have "find_delivery ?db1 i = Some (apply_receipt_row now Acknowledged Success rid d)"
    using assms(2) d(1) by (simp add: update_delivery_row_def find_delivery_update apply_receipt_row_def)
  moreover have "find_destination ?db1 j = find_destination db j" for j
    by (simp add: find_destination_def update_delivery_row_def)
  ultimately show ?thesis
    using assms(3-5) lock_delivery_unique [OF assms(1) d(2)] d(1)
    by (simp add: receive_receipt_def ingest_receipt_def decide_receipt_def reconcile_def judge_def
        store_receipt_def receipt_state_def Let_def find_delivery_def)
qed

theorem delivery_exchange:
  assumes "db_ok db" and "claim_matches c db" and "still_owns_lease c db" and "d_phase (cl_row c) = Body"
    and "find_delivery db (d_id (cl_row c)) = Some d"
    and "d_deliver_by d = None \<or> null_gt (d_deliver_by d) finished"
    and "find_destination db (d_destination_id (cl_row c)) \<noteq> None"
    and "1 \<le> length (d_dedupe_key (cl_row c))" and "length (d_dedupe_key (cl_row c)) \<le> 256"
    and "uid (d_destination_id (cl_row c)) \<noteq> []"
    and "co_uuid co (JStr (uid (d_destination_id (cl_row c)))) = Some (d_destination_id (cl_row c))"
    and "rc_receipt_url rc = Some url" and "url \<noteq> []" and "rc_receipt_result rc = Success"
    and "do_POST rc (delivery_post uid (message_of c)) rv = (Some (200, told), callbacks, rv')"
    and "record_result now clock s jitter c (send_result_of s started finished (Response 200 (dumps told))) False db
      = Inr (cutoff, db1)"
    and "dr_now dr \<le> now + receipt_timeout_seconds s"
  shows "length callbacks = 1 \<and>
    fst (serve co rt s dr (call_of fmt (hd callbacks)) db1) = 200 \<and>
    map_option d_reconcile_state
      (find_delivery (snd (serve co rt s dr (call_of fmt (hd callbacks)) db1)) (d_id (cl_row c))) = Some Acknowledged"
proof -
  let ?dest = "d_destination_id (cl_row c)" and ?key = "d_dedupe_key (cl_row c)"
  define r where "r = send_result_of s started finished (Response 200 (dumps told))"
  have r: "res_success r" "res_finished r = finished" by (simp_all add: r_def Let_def)
  obtain db2 where db2: "record_result now clock s jitter c r False db = Inr (False, db2)"
      "find_delivery db2 (d_id (cl_row c)) = Some (sent_row now s d)"
      "find_destination db2 ?dest = map_option (\<lambda>x. x\<lparr>dest_failure_count := 0\<rparr>) (find_destination db ?dest)"
    using record_result_handoff [of db c r d now clock s jitter] assms(1,3-6) r by (auto simp: db_ok_def)
  then have "db1 = db2" using assms(16) by (simp add: r_def)
  note found = db2(2,3) [folded this]
  have ok: "keys_ok db1"
  proof -
    have "keeps db (committed (record_result now clock s jitter c r False db) db)"
      by (rule committed_result_keeps [OF assms(1,2)])
    then show ?thesis
      using keeps_db_ok assms(1) db2(1) \<open>db1 = db2\<close> by (auto simp: db_ok_def)
  qed
  have snap: "same_snapshot (cl_row c) d"
    using assms(2) find_delivery_key [OF assms(5)] by (simp add: claim_matches_def)
  have m: "\<not> msg_is_preview (message_of c)" "msg_destination_id (message_of c) = ?dest"
      "msg_dedupe_key (message_of c) = ?key"
    using assms(4) by (simp_all add: message_of_def Let_def)
  have cb: "callbacks = [Send_receipt url (JStr (uid ?dest)) ?key Success]"
  proof -
    have "take_delivery rc (delivery_body uid (message_of c)) (Some ?key) rv = (Some (200, told), callbacks, rv')"
      using assms(15) by (simp add: do_POST_body [OF m(1)] m(3))
    moreover have "?key \<noteq> []" using assms(8) by auto
    ultimately show ?thesis
      using assms(10,12-14)
      by (auto simp: take_delivery_def Let_def delivery_members m(2) maybe_receipt_def set_url_option_def
          split: if_splits)
  qed
  have "\<not> reconcile_expired (dr_now dr) (sent_row now s d)"
    using assms(17) by (simp add: reconcile_expired_def sent_row_def)
  moreover have "d_destination_id (sent_row now s d) = ?dest" "d_dedupe_key (sent_row now s d) = ?key"
      "d_reconcile_state (sent_row now s d) = Awaiting"
    using snap by (simp_all add: sent_row_def release_claim_def same_snapshot_def)
  ultimately obtain rcpt db3 where
      "receive_receipt s (dr_id dr) ?dest ?key Success (False, dr_now dr, db1) [] db1 = Inr (rcpt, db3)"
      "find_delivery db3 (d_id (cl_row c)) = Some (apply_receipt_row (dr_now dr) Acknowledged Success (dr_id dr) (sent_row now s d))"
    using receipt_acknowledges [OF ok found(1), of "dr_now dr" s "dr_id dr"] found(2) assms(7) by auto
  then show ?thesis
    using receipt_in_of_call [where uid = uid and dest = ?dest and key = ?key and result = Success and co = co] assms(8,9,11)
    by (simp add: cb send_receipt_def with_body_def members_def reply_def apply_receipt_row_def)
qed

section \<open>A preview and the answer to it, end to end\<close>

lemma gate_body_update:
  assumes "\<And>d. d_event_id (f d) = d_event_id d" "\<And>d. d_destination_id (f d) = d_destination_id d"
    "\<And>d. d_phase (f d) = d_phase d"
  shows "gate_body (update_deliveries P f db) event dest
    = map_option (\<lambda>d. if P d then f d else d) (gate_body db event dest)"
proof -
  let ?Q = "\<lambda>d. d_event_id d = Some event \<and> d_destination_id d = dest \<and> d_phase d = Body"
  have "first_row ?Q (sql_update P f rows) = map_option (\<lambda>d. if P d then f d else d) (first_row ?Q rows)" for rows
    by (induction rows) (auto simp: assms)
  then show ?thesis by (simp add: gate_body_def)
qed

lemma gate_body_rows: "deliveries db' = deliveries db \<Longrightarrow> gate_body db' event dest = gate_body db event dest"
  by (simp add: gate_body_def)

lemma find_delivery_rows: "deliveries db' = deliveries db \<Longrightarrow> find_delivery db' i = find_delivery db i"
  by (simp add: find_delivery_def)

text \<open>A held body whose preview has gone out takes the answer.\<close>

lemma answer_taken:
  assumes "gate_body db event dest = Some b" and "answerable now b db"
    and "list_all (\<lambda>g. g_delivery_id g \<noteq> Some (d_id b)) (release_gate_decisions db)"
    and "find_delivery db (d_id b) = Some b"
  shows "\<exists>r db'. ingest_decision now dest event decision db = Inr (r, db') \<and>
    find_delivery db' (d_id b) = Some (case decision of Approve \<Rightarrow> released_row now b | Deny \<Rightarrow> denied_row now b)"
proof -
  from assms(2) obtain p preview t where held: "d_status b = Pending" "d_release_state b = Some Held"
    and p: "d_preview_delivery_id b = Some p" "find_delivery db p = Some preview" "d_delivered_at preview \<noteq> None"
    and t: "d_consent_deadline b = Some t" "now \<le> t"
    by (auto simp: answerable_def)
  have fresh: "\<not> (\<exists>g \<in> set (release_gate_decisions (update_delivery_row i f db)). g_delivery_id g = Some (d_id b))" for i f
    using assms(3) by (auto simp: update_delivery_row_def update_deliveries_def list_all_iff)
  have row: "find_delivery (update_delivery_row (d_id b) f db\<lparr>release_gate_decisions := gs\<rparr>) (d_id b) = Some (f b)"
    if "\<And>d. d_id (f d) = d_id d" for f gs
    using assms(4) that find_delivery_rows [of "update_delivery_row (d_id b) f db\<lparr>release_gate_decisions := gs\<rparr>"
        "update_delivery_row (d_id b) f db"]
    by (simp add: update_delivery_row_def find_delivery_update)
  have rows: "find_delivery (update_delivery_row (d_id b) (released_row now) db\<lparr>release_gate_decisions := gs\<rparr>) (d_id b)
      = Some (released_row now b)"
    "find_delivery (update_delivery_row (d_id b) (denied_row now) db\<lparr>release_gate_decisions := gs\<rparr>) (d_id b)
      = Some (denied_row now b)" for gs
    by (rule row, simp add: released_row_def denied_row_def)+
  show ?thesis
    using assms(1) held p t fresh
    by (cases decision)
      (auto simp: ingest_decision_def decide_held_def answer_def record_decision_def rows Let_def)
qed

lemma preview_handoff:
  assumes "keys_ok db" and "find_delivery db (d_id (cl_row c)) = Some pv" and "still_owns_lease c db"
    and "d_phase (cl_row c) = Preview" and "d_phase pv = Preview" and "\<not> null_le (d_deliver_by pv) finished"
    and "d_body_delivery_id pv = Some (d_id b)" and "find_delivery db (d_id b) = Some b"
    and "d_phase b = Body" "d_status b = Pending" "d_release_state b = Some Held"
    and "gate_body db event dest = Some b"
    and "res_success r" and "res_finished r = finished"
  shows "\<exists>db'. record_result now clock s jitter c r False db = Inr (False, db') \<and>
    find_delivery db' (d_id (cl_row c)) = Some (sent_preview_row now pv) \<and>
    find_delivery db' (d_id b) = Some (open_consent_row now b) \<and>
    gate_body db' event dest = Some (open_consent_row now b) \<and>
    release_gate_decisions db' = release_gate_decisions db"
proof -
  let ?i = "d_id (cl_row c)"
  let ?flying = "\<lambda>d. d_id d = ?i \<and> d_status d = In_flight"
  let ?late = "\<lambda>d. ?flying d \<and> null_le (d_deliver_by d) finished"
  let ?opens = "\<lambda>x. d_body_delivery_id pv = Some (d_id x) \<and> d_phase x = Body \<and> d_status x = Pending \<and>
    d_release_state x = Some Held"
  obtain x where x: "owns ?i (d_claim_token (cl_row c)) x"
    and uniq: "\<forall>y \<in> set (deliveries db). d_id y = ?i \<longrightarrow> y = x"
    using owned_unique [OF assms(1,3)] by blast
  have pv: "pv \<in> set (deliveries db)" "d_id pv = ?i"
    using find_delivery_key [OF assms(2)] by simp_all
  then have "x = pv" using uniq by blast
  then have flying: "?flying pv" using x by (simp add: owns_def)
  have late: "first_row ?late (deliveries db) = None"
    using uniq assms(6) \<open>x = pv\<close> by (auto simp: first_row_None)
  have "first_row ?flying (deliveries db) \<noteq> None"
    using pv(1) flying by (auto simp: first_row_None)
  then obtain y where y: "first_row ?flying (deliveries db) = Some y" by blast
  then have "y = pv" using first_row_Some [OF y] uniq \<open>x = pv\<close> by blast
  let ?db1 = "update_deliveries ?opens (open_consent_row now) (update_deliveries ?flying (sent_preview_row now) db)"
  let ?db2 = "reset_failures (d_destination_id pv) ?db1"
  have marked: "mark_preview_delivered now ?i (Some finished) db = (True, ?db2)"
    using late y \<open>y = pv\<close> by (simp add: mark_preview_delivered_def)
  have "record_result now clock s jitter c r False db = Inr (False, audit_attempt c r False ?db2)"
    using assms(3,4,13,14) marked by (simp add: record_result_def result_outcome_def preview_success_def)
  moreover have "find_delivery ?db1 ?i = Some (sent_preview_row now pv)"
    using assms(2,5) flying pv(2)
    by (simp add: find_delivery_update open_consent_row_def sent_preview_row_def release_claim_def)
  moreover have "d_id b \<noteq> ?i"
    using assms(2,5,8,9) by auto
  then have "find_delivery ?db1 (d_id b) = Some (open_consent_row now b)"
    using assms(7-11)
    by (simp add: find_delivery_update open_consent_row_def sent_preview_row_def release_claim_def)
  moreover have "gate_body ?db1 event dest = Some (open_consent_row now b)"
    using assms(7,9-12) \<open>d_id b \<noteq> ?i\<close>
    by (simp add: gate_body_update open_consent_row_def sent_preview_row_def release_claim_def)
  ultimately show ?thesis
    using find_delivery_rows [of "audit_attempt c r False ?db2" ?db1] gate_body_rows [of "audit_attempt c r False ?db2" ?db1]
    by (simp add: audit_attempt_def reset_failures_def update_destination_row_def update_deliveries_def)
qed


lemma consent_in_of_call: "validate_consent_in [(''decision'', JStr (decision_literal decision))] = Some decision"
  by (cases decision) (simp_all add: validate_consent_in_def field_def decision_literal_def)

theorem preview_exchange:
  assumes "keys_ok db" and "still_owns_lease c db" and "find_delivery db (d_id (cl_row c)) = Some pv"
    and "d_phase (cl_row c) = Preview" and "d_phase pv = Preview" and "\<not> null_le (d_deliver_by pv) finished"
    and "d_body_delivery_id pv = Some (d_id b)" and "find_delivery db (d_id b) = Some b"
    and "d_phase b = Body" "d_status b = Pending" "d_release_state b = Some Held"
    and "d_preview_delivery_id b = Some (d_id pv)" and "d_consent_timeout_seconds b = Some n"
    and "gate_body db event dest = Some b"
    and "list_all (\<lambda>g. g_delivery_id g \<noteq> Some (d_id b)) (release_gate_decisions db)"
    and "d_event_id (cl_row c) = Some event" "d_destination_id (cl_row c) = dest"
    and "co_uuid co (JStr (uid event)) = Some event" "co_uuid co (JStr (uid dest)) = Some dest"
    and "rc_ingest_url rc = Some url" "url \<noteq> []" "rc_preview_decision rc = Some decision"
    and "do_POST rc (delivery_post uid (message_of c)) rv = (told, callbacks, rv')"
    and "record_result now clock s jitter c (send_result_of s started finished (http_answer_of dumps dropped
      (told, callbacks, rv'))) False db = Inr (cutoff, db1)"
    and "dr_now dr \<le> now + seconds n"
  shows "length callbacks = 1 \<and>
    fst (serve co rt s dr (call_of fmt (hd callbacks)) db1) = 200 \<and>
    find_delivery (snd (serve co rt s dr (call_of fmt (hd callbacks)) db1)) (d_id b)
      = Some (case decision of Approve \<Rightarrow> released_row (dr_now dr) (open_consent_row now b)
              | Deny \<Rightarrow> denied_row (dr_now dr) (open_consent_row now b))"
proof -
  have m: "msg_is_preview (message_of c)" "msg_destination_id (message_of c) = dest"
      "msg_event_id (message_of c) = Some event"
    using assms(4,16,17) by (simp_all add: message_of_def Let_def)
  have cb: "callbacks = [Send_consent url (JStr (uid event)) (JStr (uid dest)) decision]"
    using assms(20-23)
    by (auto simp: do_POST_preview [OF m(1)] preview_callbacks_def set_url_option_def delivery_members m str_uuid_def)
  define r where "r = send_result_of s started finished (http_answer_of dumps dropped (told, callbacks, rv'))"
  have r: "res_success r" "res_finished r = finished"
    using assms(23) by (auto simp: r_def do_POST_preview [OF m(1)] http_answer_of_def Let_def)
  obtain db2 where db2: "record_result now clock s jitter c r False db = Inr (False, db2)"
      "find_delivery db2 (d_id (cl_row c)) = Some (sent_preview_row now pv)"
      "find_delivery db2 (d_id b) = Some (open_consent_row now b)"
      "gate_body db2 event dest = Some (open_consent_row now b)"
      "release_gate_decisions db2 = release_gate_decisions db"
    using preview_handoff [OF assms(1,3,2,4-11,14) r] by blast
  then have "db1 = db2" using assms(24) by (simp add: r_def)
  note at = db2(2-5) [folded this]
  have "d_id pv = d_id (cl_row c)"
    using find_delivery_key [OF assms(3)] by simp
  then have "answerable (dr_now dr) (open_consent_row now b) db1"
    using at(1) assms(10-13,25) by (simp add: answerable_def open_consent_row_def sent_preview_row_def)
  moreover have "list_all (\<lambda>g. g_delivery_id g \<noteq> Some (d_id (open_consent_row now b))) (release_gate_decisions db1)"
    "find_delivery db1 (d_id (open_consent_row now b)) = Some (open_consent_row now b)"
    using at assms(15) by (simp_all add: open_consent_row_def)
  ultimately obtain answer_row db3 where
      "ingest_decision (dr_now dr) dest event decision db1 = Inr (answer_row, db3)"
      "find_delivery db3 (d_id b) = Some (case decision of Approve \<Rightarrow> released_row (dr_now dr) (open_consent_row now b)
         | Deny \<Rightarrow> denied_row (dr_now dr) (open_consent_row now b))"
    using answer_taken [OF at(3), of "dr_now dr" decision] by (auto simp: open_consent_row_def)
  then show ?thesis
    using assms(18,19) consent_in_of_call
    by (simp add: cb post_consent_def formatted_def send_consent_def with_id_def with_body_def members_def reply_def)
qed

end
