(* ===== verification/Migrations.thy ===== *)
theory Migrations
  imports "HOL-Library.AList" Json
begin

text \<open>
  app/models.py as it runs: \<open>init_db\<close> executes SCHEMA_STATEMENTS, in order and in one transaction,
  whenever a process of the service starts. A statement is a value of \<open>stmt\<close>, a database is its
  catalogue (tables with their columns and constraints, indexes) and the rows of each table, and
  \<open>exec1\<close> is what PostgreSQL does with one statement: IF NOT EXISTS and IF EXISTS, the validation of
  existing rows by ADD CONSTRAINT and CREATE UNIQUE INDEX, the fill of a new column with its default,
  the names it gives to unnamed constraints. A CHECK is three-valued: only "false" violates it.
\<close>

section \<open>Values and conditions\<close>

datatype val = VNull | VText string | VInt int | VBool bool | VTime time | VUuid uuid | VJson json

type_synonym row = "string \<Rightarrow> val"

datatype expr =
    Is_null string
  | One_of string "string list"
  | At_least string int
  | Later string string
  | Is_true string
  | Neg expr
  | Conj expr expr
  | Disj expr expr
  | Iff expr expr

fun not3 :: "bool option \<Rightarrow> bool option" where
  "not3 b = map_option Not b"

fun and3 :: "bool option \<Rightarrow> bool option \<Rightarrow> bool option" where
  "and3 (Some False) _ = Some False"
| "and3 _ (Some False) = Some False"
| "and3 (Some True) (Some True) = Some True"
| "and3 _ _ = None"

fun or3 :: "bool option \<Rightarrow> bool option \<Rightarrow> bool option" where
  "or3 (Some True) _ = Some True"
| "or3 _ (Some True) = Some True"
| "or3 (Some False) (Some False) = Some False"
| "or3 _ _ = None"

fun iff3 :: "bool option \<Rightarrow> bool option \<Rightarrow> bool option" where
  "iff3 (Some a) (Some b) = Some (a = b)"
| "iff3 _ _ = None"

text \<open>A comparison with NULL is unknown; the columns a comparison reads have its type.\<close>

fun holds :: "row \<Rightarrow> expr \<Rightarrow> bool option" where
  "holds r (Is_null c) = Some (r c = VNull)"
| "holds r (One_of c vs) = (case r c of VText t \<Rightarrow> Some (t \<in> set vs) | _ \<Rightarrow> None)"
| "holds r (At_least c n) = (case r c of VInt i \<Rightarrow> Some (n \<le> i) | _ \<Rightarrow> None)"
| "holds r (Later c d) = (case (r c, r d) of (VTime s, VTime t) \<Rightarrow> Some (t < s) | _ \<Rightarrow> None)"
| "holds r (Is_true c) = (case r c of VBool b \<Rightarrow> Some b | _ \<Rightarrow> None)"
| "holds r (Neg e) = not3 (holds r e)"
| "holds r (Conj e f) = and3 (holds r e) (holds r f)"
| "holds r (Disj e f) = or3 (holds r e) (holds r f)"
| "holds r (Iff e f) = iff3 (holds r e) (holds r f)"

fun columns_of :: "expr \<Rightarrow> string list" where
  "columns_of (Is_null c) = [c]"
| "columns_of (One_of c vs) = [c]"
| "columns_of (At_least c n) = [c]"
| "columns_of (Later c d) = [c, d]"
| "columns_of (Is_true c) = [c]"
| "columns_of (Neg e) = columns_of e"
| "columns_of (Conj e f) = columns_of e @ columns_of f"
| "columns_of (Disj e f) = columns_of e @ columns_of f"
| "columns_of (Iff e f) = columns_of e @ columns_of f"

section \<open>The catalogue\<close>

datatype coltype = Ty_uuid | Ty_text | Ty_integer | Ty_bigint | Ty_timestamptz | Ty_jsonb | Ty_boolean

datatype default = No_default | Constant val | Now | Gen_random_uuid | Identity

record column =
  col_name :: string
  col_type :: coltype
  col_not_null :: bool
  col_default :: default

definition nullable_column :: "string \<Rightarrow> coltype \<Rightarrow> column" where
  "nullable_column n ty = \<lparr>col_name = n, col_type = ty, col_not_null = False, col_default = No_default\<rparr>"

definition required_column :: "string \<Rightarrow> coltype \<Rightarrow> column" where
  "required_column n ty = \<lparr>col_name = n, col_type = ty, col_not_null = True, col_default = No_default\<rparr>"

definition filled_column :: "string \<Rightarrow> coltype \<Rightarrow> default \<Rightarrow> column" where
  "filled_column n ty d = \<lparr>col_name = n, col_type = ty, col_not_null = True, col_default = d\<rparr>"

datatype constr =
    Check expr
  | Foreign_key string string
  | Unique "string list"
  | Primary_key "string list"

record table_def =
  td_columns :: "column list"
  td_constraints :: "string \<rightharpoonup> constr"

record catalogue =
  ct_tables :: "(string \<times> table_def) list"
  ct_indexes :: "(string \<times> string) list"

record pg =
  pg_catalogue :: catalogue
  pg_rows :: "string \<Rightarrow> row list"

definition empty_pg :: pg where
  "empty_pg = \<lparr>pg_catalogue = \<lparr>ct_tables = [], ct_indexes = []\<rparr>, pg_rows = (\<lambda>_. [])\<rparr>"

definition has_table :: "catalogue \<Rightarrow> string \<Rightarrow> bool" where
  "has_table ct t \<longleftrightarrow> map_of (ct_tables ct) t \<noteq> None"

definition column_names :: "catalogue \<Rightarrow> string \<Rightarrow> string list" where
  "column_names ct t = (case map_of (ct_tables ct) t of None \<Rightarrow> [] | Some td \<Rightarrow> map col_name (td_columns td))"

definition has_column :: "catalogue \<Rightarrow> string \<Rightarrow> string \<Rightarrow> bool" where
  "has_column ct t c \<longleftrightarrow> c \<in> set (column_names ct t)"

text \<open>A table's entry rewritten in place.\<close>

definition alter :: "string \<Rightarrow> (table_def \<Rightarrow> table_def) \<Rightarrow> catalogue \<Rightarrow> catalogue" where
  "alter t f ct = ct\<lparr>ct_tables := AList.map_entry t f (ct_tables ct)\<rparr>"

definition add_constraint :: "string \<Rightarrow> constr \<Rightarrow> table_def \<Rightarrow> table_def" where
  "add_constraint n c td = td\<lparr>td_constraints := (td_constraints td)(n \<mapsto> c)\<rparr>"

definition drop_constraint :: "string \<Rightarrow> table_def \<Rightarrow> table_def" where
  "drop_constraint n td = td\<lparr>td_constraints := (td_constraints td)(n := None)\<rparr>"

text \<open>The name PostgreSQL gives to an unnamed constraint; a number is added when it is taken.\<close>

fun remdups_first :: "string list \<Rightarrow> string list" where
  "remdups_first [] = []"
| "remdups_first (x # xs) = x # filter (\<lambda>y. y \<noteq> x) (remdups_first xs)"

definition base_name :: "string \<Rightarrow> constr \<Rightarrow> string" where
  "base_name t c = (case c of
      Check e \<Rightarrow> (case remdups_first (columns_of e) of [c] \<Rightarrow> t @ ''_'' @ c @ ''_check'' | _ \<Rightarrow> t @ ''_check'')
    | Foreign_key c _ \<Rightarrow> t @ ''_'' @ c @ ''_fkey''
    | Unique cs \<Rightarrow> t @ concat (map (\<lambda>c. ''_'' @ c) cs) @ ''_key''
    | Primary_key _ \<Rightarrow> t @ ''_pkey'')"

fun free_name :: "(string \<rightharpoonup> constr) \<Rightarrow> string \<Rightarrow> nat list \<Rightarrow> string" where
  "free_name used base [] = base"
| "free_name used base (i # rest) =
     (let n = base @ show_nat i in if used n = None then n else free_name used base rest)"

text \<open>A table declares fewer than a hundred unnamed constraints, so a number below a hundred is free.\<close>

definition chosen_name :: "string \<Rightarrow> (string option \<times> constr) \<Rightarrow> (string \<rightharpoonup> constr) \<Rightarrow> string" where
  "chosen_name t nc used = (case nc of (Some n, _) \<Rightarrow> n
     | (None, c) \<Rightarrow> (let base = base_name t c in if used base = None then base else free_name used base [1..<100]))"

fun name_constraints :: "string \<Rightarrow> (string option \<times> constr) list \<Rightarrow> (string \<rightharpoonup> constr) \<Rightarrow> (string \<rightharpoonup> constr)" where
  "name_constraints t [] used = used"
| "name_constraints t (nc # rest) used = name_constraints t rest (used(chosen_name t nc used \<mapsto> snd nc))"

section \<open>Statements\<close>

datatype stmt =
    Create_table string "column list" "(string option \<times> constr) list"
  | Create_index bool string string "string list" "expr option"
  | Add_column string column
  | Drop_constraint string string
  | Add_check string string expr
  | Drop_index string
  | Add_foreign_key_once string string string string
  | Rename_legacy_events
  | Rename_attempt_event
  | Arm_handshake

datatype ddl_error =
  No_table string | No_column string | Duplicate_name string | Violated string

definition violates :: "expr \<Rightarrow> row \<Rightarrow> bool" where
  "violates e r \<longleftrightarrow> holds r e = Some False"

definition default_value :: "time \<Rightarrow> default \<Rightarrow> val" where
  "default_value now d = (case d of Constant v \<Rightarrow> v | Now \<Rightarrow> VTime now | _ \<Rightarrow> VNull)"

text \<open>ALTER TABLE ... ADD COLUMN of a column that is not there: every row gets the default.\<close>

definition add_column :: "time \<Rightarrow> string \<Rightarrow> column \<Rightarrow> pg \<Rightarrow> ddl_error + pg" where
  "add_column now t c pg =
     (if \<not> has_table (pg_catalogue pg) t then Inl (No_table t)
      else if has_column (pg_catalogue pg) t (col_name c) then Inl (Duplicate_name (col_name c))
      else if col_not_null c \<and> default_value now (col_default c) = VNull \<and> pg_rows pg t \<noteq> []
      then Inl (Violated (col_name c))
      else Inr \<lparr>pg_catalogue = alter t (\<lambda>td. td\<lparr>td_columns := td_columns td @ [c]\<rparr>) (pg_catalogue pg),
                pg_rows = (pg_rows pg)(t := map (\<lambda>r. r(col_name c := default_value now (col_default c))) (pg_rows pg t))\<rparr>)"

fun add_columns :: "time \<Rightarrow> string \<Rightarrow> column list \<Rightarrow> pg \<Rightarrow> ddl_error + pg" where
  "add_columns now t [] pg = Inr pg"
| "add_columns now t (c # cs) pg = (case add_column now t c pg of Inl err \<Rightarrow> Inl err | Inr pg' \<Rightarrow> add_columns now t cs pg')"

definition indexed_row :: "expr option \<Rightarrow> row \<Rightarrow> bool" where
  "indexed_row w r \<longleftrightarrow> (case w of None \<Rightarrow> True | Some e \<Rightarrow> holds r e = Some True)"

definition unique_on :: "string list \<Rightarrow> expr option \<Rightarrow> row list \<Rightarrow> bool" where
  "unique_on cs w rows \<longleftrightarrow>
     distinct (map (\<lambda>r. map r cs) (filter (\<lambda>r. indexed_row w r \<and> list_all (\<lambda>c. r c \<noteq> VNull) cs) rows))"

definition index_columns :: "string list \<Rightarrow> expr option \<Rightarrow> string list" where
  "index_columns cs w = cs @ (case w of None \<Rightarrow> [] | Some e \<Rightarrow> columns_of e)"

definition create_index :: "bool \<Rightarrow> string \<Rightarrow> string \<Rightarrow> string list \<Rightarrow> expr option \<Rightarrow> pg \<Rightarrow> ddl_error + pg" where
  "create_index uniq n t cs w pg =
     (let ct = pg_catalogue pg in
      if n \<in> set (map fst (ct_indexes ct)) then Inr pg
      else if \<not> has_table ct t then Inl (No_table t)
      else if \<not> list_all (has_column ct t) (index_columns cs w) then Inl (No_column n)
      else if uniq \<and> \<not> unique_on cs w (pg_rows pg t) then Inl (Violated n)
      else Inr (pg\<lparr>pg_catalogue := ct\<lparr>ct_indexes := ct_indexes ct @ [(n, t)]\<rparr>\<rparr>))"

definition create_table :: "string \<Rightarrow> column list \<Rightarrow> (string option \<times> constr) list \<Rightarrow> pg \<Rightarrow> ddl_error + pg" where
  "create_table t cols cons pg =
     (let ct = pg_catalogue pg in
      if has_table ct t then Inr pg
      else if \<not> list_all (\<lambda>(_, c). case c of Foreign_key _ target \<Rightarrow> target = t \<or> has_table ct target | _ \<Rightarrow> True) cons
      then Inl (No_table t)
      else Inr \<lparr>pg_catalogue = ct\<lparr>ct_tables := ct_tables ct @
                  [(t, \<lparr>td_columns = cols, td_constraints = name_constraints t cons Map.empty\<rparr>)]\<rparr>,
                pg_rows = (pg_rows pg)(t := [])\<rparr>)"

definition constraint_of :: "catalogue \<Rightarrow> string \<Rightarrow> string \<Rightarrow> constr option" where
  "constraint_of ct t n = (case map_of (ct_tables ct) t of None \<Rightarrow> None | Some td \<Rightarrow> td_constraints td n)"

text \<open>information_schema.table_constraints is asked for the name alone, whatever table has it.\<close>

definition key_taken :: "catalogue \<Rightarrow> string \<Rightarrow> bool" where
  "key_taken ct n \<longleftrightarrow> list_ex (\<lambda>(u, td). td_constraints td n \<noteq> None) (ct_tables ct)"

definition add_check :: "string \<Rightarrow> string \<Rightarrow> expr \<Rightarrow> pg \<Rightarrow> ddl_error + pg" where
  "add_check t n e pg =
     (let ct = pg_catalogue pg in
      if \<not> has_table ct t then Inl (No_table t)
      else if \<not> list_all (has_column ct t) (columns_of e) then Inl (No_column n)
      else if constraint_of ct t n \<noteq> None then Inl (Duplicate_name n)
      else if list_ex (violates e) (pg_rows pg t) then Inl (Violated n)
      else Inr (pg\<lparr>pg_catalogue := alter t (add_constraint n (Check e)) ct\<rparr>))"

definition add_foreign_key :: "string \<Rightarrow> string \<Rightarrow> string \<Rightarrow> string \<Rightarrow> pg \<Rightarrow> ddl_error + pg" where
  "add_foreign_key n t c target pg =
     (let ct = pg_catalogue pg in
      if key_taken ct n then Inr pg
      else if \<not> has_table ct t \<or> \<not> has_table ct target then Inl (No_table t)
      else if \<not> has_column ct t c then Inl (No_column c)
      else if list_ex (\<lambda>r. r c \<noteq> VNull \<and> r c \<notin> set (map (\<lambda>x. x ''id'') (pg_rows pg target))) (pg_rows pg t)
      then Inl (Violated n)
      else Inr (pg\<lparr>pg_catalogue := alter t (add_constraint n (Foreign_key c target)) ct\<rparr>))"

text \<open>The DO blocks: each tests the catalogue and does nothing when its condition fails.\<close>

definition rename_legacy_events :: "pg \<Rightarrow> pg" where
  "rename_legacy_events pg =
     (let ct = pg_catalogue pg in
      if has_table ct ''events'' \<and> \<not> has_table ct ''deliveries'' \<and> has_column ct ''events'' ''destination_id''
      then \<lparr>pg_catalogue = \<lparr>ct_tables = map (\<lambda>(n, td). (if n = ''events'' then ''deliveries'' else n, td)) (ct_tables ct),
                            ct_indexes = map (\<lambda>(n, t). (n, if t = ''events'' then ''deliveries'' else t)) (ct_indexes ct)\<rparr>,
            pg_rows = (pg_rows pg)(''deliveries'' := pg_rows pg ''events'', ''events'' := [])\<rparr>
      else pg)"

definition rename_string :: "string \<Rightarrow> string \<Rightarrow> string \<Rightarrow> string" where
  "rename_string old new c = (if c = old then new else c)"

primrec rename_expr :: "string \<Rightarrow> string \<Rightarrow> expr \<Rightarrow> expr" where
  "rename_expr old new (Is_null c) = Is_null (rename_string old new c)"
| "rename_expr old new (One_of c vs) = One_of (rename_string old new c) vs"
| "rename_expr old new (At_least c n) = At_least (rename_string old new c) n"
| "rename_expr old new (Later c d) = Later (rename_string old new c) (rename_string old new d)"
| "rename_expr old new (Is_true c) = Is_true (rename_string old new c)"
| "rename_expr old new (Neg e) = Neg (rename_expr old new e)"
| "rename_expr old new (Conj e f) = Conj (rename_expr old new e) (rename_expr old new f)"
| "rename_expr old new (Disj e f) = Disj (rename_expr old new e) (rename_expr old new f)"
| "rename_expr old new (Iff e f) = Iff (rename_expr old new e) (rename_expr old new f)"

definition rename_constr :: "string \<Rightarrow> string \<Rightarrow> constr \<Rightarrow> constr" where
  "rename_constr old new c = (case c of
      Foreign_key d t \<Rightarrow> Foreign_key (rename_string old new d) t
    | Unique cs \<Rightarrow> Unique (map (rename_string old new) cs)
    | Primary_key cs \<Rightarrow> Primary_key (map (rename_string old new) cs)
    | Check e \<Rightarrow> Check (rename_expr old new e))"

definition rename_attempt_event :: "pg \<Rightarrow> pg" where
  "rename_attempt_event pg =
     (let ct = pg_catalogue pg; t = ''delivery_attempts''; old = ''event_id''; new = ''delivery_id'' in
      if has_column ct t old \<and> \<not> has_column ct t new
      then \<lparr>pg_catalogue = alter t (\<lambda>td. td
              \<lparr>td_columns := map (\<lambda>c. c\<lparr>col_name := rename_string old new (col_name c)\<rparr>) (td_columns td),
               td_constraints := (\<lambda>n. map_option (rename_constr old new) (td_constraints td n))\<rparr>) ct,
            pg_rows = (pg_rows pg)(t := map (\<lambda>r. r(new := r old, old := VNull)) (pg_rows pg t))\<rparr>
      else pg)"

definition handshake_columns :: "column list" where
  "handshake_columns =
     [filled_column ''confirmation_state'' Ty_text (Constant (VText ''pending'')),
      nullable_column ''challenge_token'' Ty_text,
      nullable_column ''challenge_expires_at'' Ty_timestamptz,
      nullable_column ''confirmed_at'' Ty_timestamptz,
      filled_column ''confirmation_generation'' Ty_bigint (Constant (VInt 1)),
      filled_column ''confirmation_round'' Ty_bigint (Constant (VInt 1)),
      filled_column ''confirmation_attempt_count'' Ty_integer (Constant (VInt 0)),
      filled_column ''next_probe_at'' Ty_timestamptz Now]"

definition confirmed_legacy :: "time \<Rightarrow> row \<Rightarrow> row" where
  "confirmed_legacy now r = r(''confirmation_state'' := VText ''confirmed'', ''confirmed_at'' := VTime now,
     ''challenge_token'' := VNull, ''challenge_expires_at'' := VNull)"

definition arm_handshake :: "time \<Rightarrow> pg \<Rightarrow> ddl_error + pg" where
  "arm_handshake now pg =
     (let t = ''destinations'' in
      if has_column (pg_catalogue pg) t ''confirmation_state'' then Inr pg
      else case add_columns now t handshake_columns pg of
        Inl err \<Rightarrow> Inl err
      | Inr pg' \<Rightarrow> Inr (pg'\<lparr>pg_rows := (pg_rows pg')(t := map (confirmed_legacy now) (pg_rows pg' t))\<rparr>))"

primrec exec1 :: "time \<Rightarrow> stmt \<Rightarrow> pg \<Rightarrow> ddl_error + pg" where
  "exec1 now (Create_table t cols cons) pg = create_table t cols cons pg"
| "exec1 now (Create_index uniq n t cs w) pg = create_index uniq n t cs w pg"
| "exec1 now (Add_column t c) pg =
     (if has_column (pg_catalogue pg) t (col_name c) then Inr pg else add_column now t c pg)"
| "exec1 now (Drop_constraint t n) pg =
     (if has_table (pg_catalogue pg) t then Inr (pg\<lparr>pg_catalogue := alter t (drop_constraint n) (pg_catalogue pg)\<rparr>)
      else Inl (No_table t))"
| "exec1 now (Add_check t n e) pg = add_check t n e pg"
| "exec1 now (Drop_index n) pg = Inr (pg\<lparr>pg_catalogue := (pg_catalogue pg)
     \<lparr>ct_indexes := filter (\<lambda>(m, _). m \<noteq> n) (ct_indexes (pg_catalogue pg))\<rparr>\<rparr>)"
| "exec1 now (Add_foreign_key_once n t c target) pg = add_foreign_key n t c target pg"
| "exec1 now Rename_legacy_events pg = Inr (rename_legacy_events pg)"
| "exec1 now Rename_attempt_event pg = Inr (rename_attempt_event pg)"
| "exec1 now Arm_handshake pg = arm_handshake now pg"

text \<open>All statements, or none: an error rolls the transaction back.\<close>

fun exec :: "time \<Rightarrow> stmt list \<Rightarrow> pg \<Rightarrow> ddl_error + pg" where
  "exec now [] pg = Inr pg"
| "exec now (s # ss) pg = (case exec1 now s pg of Inl err \<Rightarrow> Inl err | Inr pg' \<Rightarrow> exec now ss pg')"

end
