(* ===== verification/Schema_Statements.thy ===== *)
theory Schema_Statements
  imports Migrations
begin

text \<open>
  SCHEMA_STATEMENTS of app/models.py, statement by statement and in its order, and \<open>init_db\<close>. The
  CHECK conditions that the list asserts more than once are named once. ON DELETE CASCADE, sort
  directions and the comments of the statements have no counterpart: no statement here deletes a row
  or reads an index.
\<close>

section \<open>Conditions and columns the statements repeat\<close>

definition id_column :: column where
  "id_column = filled_column ''id'' Ty_uuid Gen_random_uuid"

definition serial_id :: column where
  "serial_id = filled_column ''id'' Ty_bigint Identity"

definition stamp_column :: "string \<Rightarrow> column" where
  "stamp_column n = filled_column n Ty_timestamptz Now"

definition counter_column :: "string \<Rightarrow> coltype \<Rightarrow> int \<Rightarrow> column" where
  "counter_column n ty i = filled_column n ty (Constant (VInt i))"

definition word_column :: "string \<Rightarrow> string \<Rightarrow> column" where
  "word_column n v = filled_column n Ty_text (Constant (VText v))"

definition flag_column :: "string \<Rightarrow> bool \<Rightarrow> column" where
  "flag_column n b = filled_column n Ty_boolean (Constant (VBool b))"

definition Not_null :: "string \<Rightarrow> expr" where
  "Not_null c = Neg (Is_null c)"

definition status_check :: expr where
  "status_check = One_of ''status''
     [''pending'', ''in_flight'', ''delivered'', ''cancelled'', ''superseded'', ''dead_lettered'', ''failed'',
      ''release_denied'', ''release_expired'', ''release_voided'', ''relay_skipped'', ''deadline_expired'']"

definition phase_check :: expr where
  "phase_check = One_of ''phase'' [''preview'', ''body'']"

definition relay_snapshot_check :: expr where
  "relay_snapshot_check = Iff (Is_null ''relay_chain_id'') (Is_null ''relay_station_no'')"

definition relay_station_check :: expr where
  "relay_station_check = Disj (Is_null ''relay_station_no'') (At_least ''relay_station_no'' 1)"

definition relay_skip_check :: expr where
  "relay_skip_check = Iff (One_of ''status'' [''relay_skipped'']) (Not_null ''relay_skip_reason'')"

definition relay_skip_reason_check :: expr where
  "relay_skip_reason_check = Disj (Is_null ''relay_skip_reason'') (One_of ''relay_skip_reason''
     [''delivery_attempts_exhausted'', ''receipt_timeout_exhausted'', ''receipt_failure_exhausted'',
      ''receipt_failed'', ''receipt_timeout'', ''superseded'', ''deliver_by_expired''])"

definition release_state_check :: expr where
  "release_state_check = Disj (Is_null ''release_state'') (One_of ''release_state''
     [''held'', ''released'', ''release_denied'', ''release_expired'', ''release_voided'', ''deadline_expired''])"

definition release_shape_check :: expr where
  "release_shape_check = Disj
     (Conj (Conj (One_of ''phase'' [''preview'']) (Not_null ''body_delivery_id'')) (Is_null ''preview_delivery_id''))
     (Conj (One_of ''phase'' [''body'']) (Is_null ''body_delivery_id''))"

definition void_reason_check :: expr where
  "void_reason_check = Disj (Is_null ''void_reason'') (One_of ''void_reason''
     [''manual'', ''preview_dead_lettered'', ''preview_superseded'', ''preview_deadline_expired'', ''deliver_by_expired''])"

definition dead_letter_check :: expr where
  "dead_letter_check = Iff (One_of ''status'' [''dead_lettered'']) (Not_null ''dead_letter_reason'')"

definition dead_letter_reason_check :: expr where
  "dead_letter_reason_check = Disj (Is_null ''dead_letter_reason'') (One_of ''dead_letter_reason''
     [''delivery_attempts_exhausted'', ''receipt_timeout_exhausted'', ''receipt_failure_exhausted''])"

definition failures_check :: expr where
  "failures_check = At_least ''consecutive_failures'' 0"

definition confirmation_state_check :: expr where
  "confirmation_state_check = One_of ''confirmation_state'' [''pending'', ''confirmed'']"

definition pause_window_check :: expr where
  "pause_window_check = Conj (Disj (Is_null ''paused_until'') (Not_null ''paused_from''))
     (Disj (Is_null ''paused_until'') (Later ''paused_until'' ''paused_from''))"

definition required_ack_check :: expr where
  "required_ack_check = Disj (Is_null ''required_ack_count'') (At_least ''required_ack_count'' 0)"

definition disposition_check :: expr where
  "disposition_check = One_of ''disposition''
     [''accepted'', ''unrouted'', ''pending_confirmation'', ''filtered'', ''duplicate'', ''source_unknown'',
      ''source_disabled'', ''bad_signature'', ''stale_timestamp'', ''future_timestamp'', ''invalid_timestamp'',
      ''invalid_body'']"

text \<open>DROP CONSTRAINT IF EXISTS followed by ADD CONSTRAINT of the same name.\<close>

definition reassert :: "string \<Rightarrow> string \<Rightarrow> expr \<Rightarrow> stmt list" where
  "reassert t n e = [Drop_constraint t n, Add_check t n e]"

definition widen_status :: "stmt list" where
  "widen_status = [Drop_constraint ''deliveries'' ''deliveries_status_check'',
     Drop_constraint ''deliveries'' ''events_status_check'',
     Add_check ''deliveries'' ''deliveries_status_check'' status_check]"

section \<open>The statements\<close>

definition destinations_table :: stmt where
  "destinations_table = Create_table ''destinations''
     [id_column, required_column ''url'' Ty_text, word_column ''status'' ''active'',
      counter_column ''failure_count'' Ty_integer 0, counter_column ''next_event_seq'' Ty_bigint 0,
      nullable_column ''recoverable_at'' Ty_timestamptz, stamp_column ''created_at'',
      word_column ''confirmation_state'' ''pending'', nullable_column ''challenge_token'' Ty_text,
      nullable_column ''challenge_expires_at'' Ty_timestamptz, nullable_column ''confirmed_at'' Ty_timestamptz,
      counter_column ''confirmation_generation'' Ty_bigint 1, counter_column ''confirmation_round'' Ty_bigint 1,
      counter_column ''confirmation_attempt_count'' Ty_integer 0, stamp_column ''next_probe_at'', flag_column ''observe_only'' False,
      nullable_column ''paused_from'' Ty_timestamptz, nullable_column ''paused_until'' Ty_timestamptz]
     [(None, Primary_key [''id'']), (None, Unique [''url'']),
      (None, Check (One_of ''status'' [''active'', ''isolated''])),
      (None, Check (At_least ''failure_count'' 0)), (None, Check (At_least ''next_event_seq'' 0)),
      (None, Check confirmation_state_check), (None, Check (At_least ''confirmation_generation'' 1)),
      (None, Check (At_least ''confirmation_round'' 1)), (None, Check (At_least ''confirmation_attempt_count'' 0)),
      (Some ''destinations_pause_window_check'', Check pause_window_check)]"

definition confirmation_attempts_table :: "stmt list" where
  "confirmation_attempts_table =
     [Create_table ''confirmation_attempts''
        [serial_id, required_column ''destination_id'' Ty_uuid, required_column ''confirmation_round'' Ty_bigint,
         required_column ''kind'' Ty_text, required_column ''result'' Ty_text, nullable_column ''status_code'' Ty_integer,
         nullable_column ''response_excerpt'' Ty_text, nullable_column ''error'' Ty_text, stamp_column ''created_at'']
        [(None, Primary_key [''id'']), (None, Foreign_key ''destination_id'' ''destinations''),
         (None, Check (One_of ''kind'' [''challenge'', ''echo'', ''expired''])),
         (None, Check (One_of ''result'' [''sent'', ''confirmed'', ''failed'', ''invalid'', ''expired'']))],
      Create_index False ''confirmation_attempts_destination_idx'' ''confirmation_attempts''
        [''destination_id'', ''created_at'', ''id''] None]"

definition events_tables :: "stmt list" where
  "events_tables =
     [Create_table ''event_type_ack_thresholds''
        [required_column ''event_type'' Ty_text, required_column ''ack_threshold'' Ty_integer, stamp_column ''created_at'', stamp_column ''updated_at'']
        [(None, Primary_key [''event_type'']), (None, Check (At_least ''ack_threshold'' 1))],
      Create_table ''events''
        [id_column, required_column ''event_type'' Ty_text, required_column ''dedupe_key'' Ty_text, required_column ''payload'' Ty_jsonb,
         nullable_column ''not_before'' Ty_timestamptz, nullable_column ''deliver_by'' Ty_timestamptz,
         nullable_column ''cancelled_at'' Ty_timestamptz, stamp_column ''created_at'', nullable_column ''preview_payload'' Ty_jsonb,
         nullable_column ''required_ack_count'' Ty_integer]
        [(None, Primary_key [''id'']), (None, Unique [''dedupe_key'']), (None, Check required_ack_check)]]"

definition deliveries_columns :: "column list" where
  "deliveries_columns =
     [id_column, nullable_column ''event_id'' Ty_uuid, required_column ''destination_id'' Ty_uuid, nullable_column ''event_type'' Ty_text,
      required_column ''dedupe_key'' Ty_text, required_column ''payload'' Ty_jsonb, required_column ''destination_seq'' Ty_bigint,
      word_column ''status'' ''pending'', counter_column ''attempts'' Ty_integer 0, nullable_column ''claim_token'' Ty_uuid,
      nullable_column ''claimed_at'' Ty_timestamptz, nullable_column ''lease_until'' Ty_timestamptz, stamp_column ''next_attempt_at'',
      nullable_column ''not_before'' Ty_timestamptz, nullable_column ''deliver_by'' Ty_timestamptz, nullable_column ''last_error'' Ty_text,
      stamp_column ''created_at'', stamp_column ''updated_at'', nullable_column ''delivered_at'' Ty_timestamptz,
      nullable_column ''deliver_by_expired_at'' Ty_timestamptz, word_column ''reconcile_state'' ''none'',
      nullable_column ''reconcile_deadline'' Ty_timestamptz, nullable_column ''reconciled_at'' Ty_timestamptz,
      nullable_column ''receipt_result'' Ty_text, nullable_column ''receipt_id'' Ty_uuid, counter_column ''requeue_count'' Ty_integer 0,
      counter_column ''consecutive_failures'' Ty_integer 0, nullable_column ''dead_letter_reason'' Ty_text,
      nullable_column ''dead_lettered_at'' Ty_timestamptz, counter_column ''confirmation_generation'' Ty_bigint 1,
      flag_column ''observe_only'' False, nullable_column ''filter_spec'' Ty_jsonb, word_column ''phase'' ''body'',
      nullable_column ''release_state'' Ty_text, nullable_column ''preview_delivery_id'' Ty_uuid, nullable_column ''body_delivery_id'' Ty_uuid,
      nullable_column ''consent_deadline'' Ty_timestamptz, nullable_column ''consent_timeout_seconds'' Ty_bigint,
      nullable_column ''released_at'' Ty_timestamptz, nullable_column ''voided_at'' Ty_timestamptz, nullable_column ''void_reason'' Ty_text,
      nullable_column ''relay_chain_id'' Ty_uuid, nullable_column ''relay_station_no'' Ty_integer,
      nullable_column ''relay_skipped_at'' Ty_timestamptz, nullable_column ''relay_skip_reason'' Ty_text,
      nullable_column ''relay_stopped_by_delivery_id'' Ty_uuid]"

definition deliveries_constraints :: "(string option \<times> constr) list" where
  "deliveries_constraints =
     [(None, Primary_key [''id'']), (None, Foreign_key ''event_id'' ''events''),
      (None, Foreign_key ''destination_id'' ''destinations''),
      (None, Unique [''destination_id'', ''destination_seq'']), (None, Unique [''destination_id'', ''dedupe_key'']),
      (None, Check status_check), (None, Check phase_check), (None, Check relay_snapshot_check),
      (None, Check relay_station_check), (None, Check relay_skip_check), (None, Check relay_skip_reason_check),
      (None, Check release_state_check), (None, Check release_shape_check), (None, Check void_reason_check),
      (None, Check (At_least ''attempts'' 0)), (None, Check (At_least ''destination_seq'' 0)),
      (None, Check (One_of ''reconcile_state'' [''none'', ''awaiting'', ''acknowledged'', ''receipt_failed'', ''timed_out''])),
      (None, Check (At_least ''requeue_count'' 0)), (None, Check failures_check), (None, Check dead_letter_check),
      (None, Check dead_letter_reason_check)]"

definition gate_upgrade :: "stmt list" where
  "gate_upgrade = map (Add_column ''deliveries'')
       [word_column ''phase'' ''body'', nullable_column ''release_state'' Ty_text, nullable_column ''preview_delivery_id'' Ty_uuid,
        nullable_column ''body_delivery_id'' Ty_uuid, nullable_column ''consent_deadline'' Ty_timestamptz,
        nullable_column ''consent_timeout_seconds'' Ty_bigint, nullable_column ''released_at'' Ty_timestamptz,
        nullable_column ''voided_at'' Ty_timestamptz, nullable_column ''void_reason'' Ty_text] @
     reassert ''deliveries'' ''deliveries_phase_check'' phase_check @
     reassert ''deliveries'' ''deliveries_release_state_check'' release_state_check @
     reassert ''deliveries'' ''deliveries_release_shape_check'' release_shape_check @
     reassert ''deliveries'' ''deliveries_void_reason_check'' void_reason_check @
     [Create_index False ''deliveries_release_due_idx'' ''deliveries'' [''consent_deadline'']
        (Some (Conj (Conj (One_of ''phase'' [''body'']) (One_of ''release_state'' [''held'']))
                 (One_of ''status'' [''pending'']))),
      Add_column ''events'' (nullable_column ''preview_payload'' Ty_jsonb)]"

definition gate_tables :: "stmt list" where
  "gate_tables =
     [Create_table ''event_type_preview_policies''
        [required_column ''event_type'' Ty_text, required_column ''consent_timeout_seconds'' Ty_bigint, stamp_column ''created_at'',
         stamp_column ''updated_at'']
        [(None, Primary_key [''event_type'']), (None, Check (At_least ''consent_timeout_seconds'' 1))],
      Create_table ''release_gate_decisions''
        [serial_id, required_column ''destination_id'' Ty_uuid, nullable_column ''event_id'' Ty_uuid, nullable_column ''delivery_id'' Ty_uuid,
         required_column ''decision'' Ty_text, required_column ''disposition'' Ty_text, nullable_column ''reason'' Ty_text, stamp_column ''created_at'']
        [(None, Primary_key [''id'']), (None, Foreign_key ''delivery_id'' ''deliveries''),
         (None, Check (One_of ''decision'' [''approve'', ''deny''])),
         (None, Check (One_of ''disposition''
            [''released'', ''denied'', ''duplicate'', ''late_ignored'', ''conflict'', ''preview_not_delivered'',
             ''not_gated'', ''orphan'']))],
      Create_index True ''release_gate_decisions_effective_uniq'' ''release_gate_decisions'' [''delivery_id'']
        (Some (Not_null ''delivery_id'')),
      Create_index False ''release_gate_decisions_event_idx'' ''release_gate_decisions''
        [''event_id'', ''created_at'', ''id''] (Some (Not_null ''event_id'')),
      Create_index False ''release_gate_decisions_destination_idx'' ''release_gate_decisions''
        [''destination_id'', ''created_at'', ''id''] None]"

definition receipts_table :: stmt where
  "receipts_table = Create_table ''receipts''
     [id_column, required_column ''destination_id'' Ty_uuid, required_column ''dedupe_key'' Ty_text, required_column ''result'' Ty_text,
      nullable_column ''delivery_id'' Ty_uuid, required_column ''disposition'' Ty_text, stamp_column ''received_at'']
     [(None, Primary_key [''id'']), (None, Foreign_key ''destination_id'' ''destinations''),
      (None, Foreign_key ''delivery_id'' ''deliveries''),
      (None, Check (One_of ''result'' [''success'', ''failure''])),
      (None, Check (One_of ''disposition'' [''applied'', ''duplicate'', ''late'', ''orphan'', ''premature'']))]"

definition sources_tables :: "stmt list" where
  "sources_tables =
     [Create_table ''event_sources''
        [id_column, required_column ''name'' Ty_text, required_column ''secret'' Ty_text, stamp_column ''key_rotated_at'',
         nullable_column ''disabled_at'' Ty_timestamptz, stamp_column ''created_at'']
        [(None, Primary_key [''id'']), (None, Unique [''name''])],
      Create_table ''ingestion_attempts''
        [serial_id, nullable_column ''source_id'' Ty_uuid, nullable_column ''source_name'' Ty_text, nullable_column ''event_id'' Ty_uuid,
         nullable_column ''dedupe_key'' Ty_text, nullable_column ''event_type'' Ty_text, nullable_column ''signed_at'' Ty_timestamptz,
         required_column ''disposition'' Ty_text, nullable_column ''reason'' Ty_text, nullable_column ''remote_addr'' Ty_text, stamp_column ''received_at'']
        [(None, Primary_key [''id'']), (None, Foreign_key ''event_id'' ''events''), (None, Check disposition_check)],
      Create_index False ''ingestion_attempts_received_idx'' ''ingestion_attempts'' [''received_at'', ''id''] None,
      Create_index False ''ingestion_attempts_disposition_idx'' ''ingestion_attempts'' [''disposition'', ''received_at''] None,
      Create_index False ''ingestion_attempts_source_idx'' ''ingestion_attempts'' [''source_id'', ''received_at''] None,
      Drop_constraint ''ingestion_attempts'' ''ingestion_attempts_source_id_fkey'']"

definition subscriptions_tables :: "stmt list" where
  "subscriptions_tables =
     [Create_table ''destination_subscriptions''
        [required_column ''destination_id'' Ty_uuid, required_column ''event_type'' Ty_text, stamp_column ''created_at'',
         nullable_column ''filter_spec'' Ty_jsonb]
        [(None, Foreign_key ''destination_id'' ''destinations''), (None, Primary_key [''destination_id'', ''event_type''])],
      Create_table ''subscription_filter_evaluations''
        [serial_id, required_column ''event_id'' Ty_uuid, required_column ''destination_id'' Ty_uuid, required_column ''event_type'' Ty_text,
         required_column ''matched'' Ty_boolean, required_column ''filter_spec'' Ty_jsonb, flag_column ''observe_only'' False, stamp_column ''created_at'']
        [(None, Primary_key [''id'']), (None, Foreign_key ''event_id'' ''events''),
         (None, Foreign_key ''destination_id'' ''destinations''), (None, Unique [''event_id'', ''destination_id''])],
      Create_index False ''subscription_filter_evaluations_event_idx'' ''subscription_filter_evaluations'' [''event_id''] None,
      Create_index False ''subscription_filter_evaluations_destination_idx'' ''subscription_filter_evaluations''
        [''destination_id'', ''created_at'', ''id''] None,
      Create_index False ''subscription_filter_evaluations_unmatched_idx'' ''subscription_filter_evaluations''
        [''created_at'', ''id''] (Some (Neg (Is_true ''matched'')))]"

definition attempts_table :: "stmt list" where
  "attempts_table =
     [Create_table ''delivery_attempts''
        [serial_id, nullable_column ''delivery_id'' Ty_uuid, nullable_column ''event_id'' Ty_uuid, required_column ''destination_id'' Ty_uuid,
         required_column ''attempt_no'' Ty_integer, required_column ''started_at'' Ty_timestamptz, required_column ''finished_at'' Ty_timestamptz,
         required_column ''success'' Ty_boolean, nullable_column ''status_code'' Ty_integer, nullable_column ''response_excerpt'' Ty_text,
         nullable_column ''error'' Ty_text, flag_column ''lost_lease'' False]
        [(None, Primary_key [''id'']), (None, Foreign_key ''delivery_id'' ''deliveries''),
         (None, Foreign_key ''event_id'' ''events''), (None, Foreign_key ''destination_id'' ''destinations''),
         (None, Check (At_least ''attempt_no'' 1)), (None, Check (Neg (Later ''started_at'' ''finished_at'')))],
      Create_index False ''events_delivery_idx'' ''deliveries'' [''destination_id'', ''destination_seq'']
        (Some (One_of ''status'' [''pending'', ''in_flight'']))]"

definition lease_upgrade :: "stmt list" where
  "lease_upgrade =
     [Add_column ''deliveries'' (nullable_column ''lease_until'' Ty_timestamptz),
      Add_column ''delivery_attempts'' (flag_column ''lost_lease'' False),
      Drop_index ''events_stale_claim_idx'',
      Create_index False ''events_lease_until_idx'' ''deliveries'' [''lease_until''] (Some (One_of ''status'' [''in_flight''])),
      Create_index False ''destinations_recovery_idx'' ''destinations'' [''recoverable_at'']
        (Some (One_of ''status'' [''isolated'']))]"

definition fan_out_upgrade :: "stmt list" where
  "fan_out_upgrade =
     [Add_column ''deliveries'' (nullable_column ''event_id'' Ty_uuid), Add_column ''deliveries'' (nullable_column ''event_type'' Ty_text),
      Rename_attempt_event,
      Add_column ''delivery_attempts'' (nullable_column ''delivery_id'' Ty_uuid),
      Add_column ''delivery_attempts'' (nullable_column ''event_id'' Ty_uuid),
      Create_index False ''deliveries_event_idx'' ''deliveries'' [''event_id''] None,
      Create_index False ''delivery_attempts_event_idx'' ''delivery_attempts'' [''event_id''] None,
      Create_index False ''destination_subscriptions_type_idx'' ''destination_subscriptions''
        [''event_type'', ''destination_id''] None]"

definition receipts_upgrade :: "stmt list" where
  "receipts_upgrade = map (Add_column ''deliveries'')
       [word_column ''reconcile_state'' ''none'', nullable_column ''reconcile_deadline'' Ty_timestamptz,
        nullable_column ''reconciled_at'' Ty_timestamptz, nullable_column ''receipt_result'' Ty_text, nullable_column ''receipt_id'' Ty_uuid,
        counter_column ''requeue_count'' Ty_integer 0] @
     [Create_index False ''deliveries_reconcile_due_idx'' ''deliveries'' [''reconcile_deadline'']
        (Some (One_of ''reconcile_state'' [''awaiting''])),
      Create_index False ''deliveries_reconcile_state_idx'' ''deliveries'' [''reconcile_state'', ''destination_id'']
        (Some (Neg (One_of ''reconcile_state'' [''none'']))),
      Create_index False ''receipts_destination_dedupe_idx'' ''receipts'' [''destination_id'', ''dedupe_key''] None,
      Create_index False ''receipts_disposition_idx'' ''receipts'' [''disposition'', ''received_at''] None,
      Create_index False ''receipts_delivery_idx'' ''receipts'' [''delivery_id''] None]"

definition schedule_upgrade :: "stmt list" where
  "schedule_upgrade =
     [Add_column ''events'' (nullable_column ''not_before'' Ty_timestamptz),
      Add_column ''events'' (nullable_column ''cancelled_at'' Ty_timestamptz),
      Add_column ''deliveries'' (nullable_column ''not_before'' Ty_timestamptz)] @ widen_status"

definition source_upgrade :: "stmt list" where
  "source_upgrade =
     [Add_column ''events'' (nullable_column ''source_id'' Ty_uuid),
      Add_foreign_key_once ''events_source_id_fkey'' ''events'' ''source_id'' ''event_sources'',
      Create_index False ''events_source_idx'' ''events'' [''source_id''] None]"

definition handshake_checks :: "stmt list" where
  "handshake_checks =
     reassert ''destinations'' ''destinations_confirmation_state_check'' confirmation_state_check @
     [Create_index False ''destinations_probe_idx'' ''destinations'' [''next_probe_at'']
        (Some (One_of ''confirmation_state'' [''pending''])),
      Add_column ''deliveries'' (counter_column ''confirmation_generation'' Ty_bigint 1)] @ widen_status @
     reassert ''ingestion_attempts'' ''ingestion_attempts_disposition_check'' disposition_check"

definition dead_letter_upgrade :: "stmt list" where
  "dead_letter_upgrade = map (Add_column ''deliveries'')
       [counter_column ''consecutive_failures'' Ty_integer 0, nullable_column ''dead_letter_reason'' Ty_text,
        nullable_column ''dead_lettered_at'' Ty_timestamptz] @ widen_status @
     reassert ''deliveries'' ''deliveries_consecutive_failures_check'' failures_check @
     reassert ''deliveries'' ''deliveries_dead_letter_check'' dead_letter_check @
     reassert ''deliveries'' ''deliveries_dead_letter_reason_check'' dead_letter_reason_check @
     [Create_index False ''deliveries_dead_letter_idx'' ''deliveries'' [''dead_lettered_at'', ''id'']
        (Some (One_of ''status'' [''dead_lettered'']))]"

definition observer_upgrade :: "stmt list" where
  "observer_upgrade =
     [Add_column ''destinations'' (flag_column ''observe_only'' False), Add_column ''deliveries'' (flag_column ''observe_only'' False),
      Create_index False ''deliveries_event_observe_idx'' ''deliveries'' [''event_id''] (Some (Neg (Is_true ''observe_only''))),
      Add_column ''events'' (nullable_column ''required_ack_count'' Ty_integer)] @
     reassert ''events'' ''events_required_ack_count_check'' required_ack_check"

definition filter_upgrade :: "stmt list" where
  "filter_upgrade =
     [Add_column ''destination_subscriptions'' (nullable_column ''filter_spec'' Ty_jsonb),
      Add_column ''deliveries'' (nullable_column ''filter_spec'' Ty_jsonb),
      Add_column ''subscription_filter_evaluations'' (flag_column ''observe_only'' False)] @
     reassert ''ingestion_attempts'' ''ingestion_attempts_disposition_check'' disposition_check @
     [Add_column ''destinations'' (nullable_column ''paused_from'' Ty_timestamptz),
      Add_column ''destinations'' (nullable_column ''paused_until'' Ty_timestamptz)] @
     reassert ''destinations'' ''destinations_pause_window_check'' pause_window_check"

definition corrections_upgrade :: "stmt list" where
  "corrections_upgrade =
     [Add_column ''events'' (nullable_column ''corrects_event_id'' Ty_uuid),
      Add_foreign_key_once ''events_corrects_event_id_fkey'' ''events'' ''corrects_event_id'' ''events'',
      Create_index False ''events_corrects_event_idx'' ''events'' [''corrects_event_id'']
        (Some (Not_null ''corrects_event_id''))] @ widen_status"

definition relay_upgrade :: "stmt list" where
  "relay_upgrade =
     [Create_table ''relay_chains''
        [id_column, required_column ''event_type'' Ty_text, required_column ''version'' Ty_integer, flag_column ''active'' True, stamp_column ''created_at'']
        [(None, Primary_key [''id'']), (None, Unique [''event_type'', ''version''])],
      Create_index True ''relay_chains_active_uniq'' ''relay_chains'' [''event_type''] (Some (Is_true ''active'')),
      Create_table ''relay_chain_stations''
        [required_column ''chain_id'' Ty_uuid, required_column ''station_no'' Ty_integer, required_column ''destination_id'' Ty_uuid]
        [(None, Foreign_key ''chain_id'' ''relay_chains''), (None, Foreign_key ''destination_id'' ''destinations''),
         (None, Primary_key [''chain_id'', ''station_no'']), (None, Unique [''chain_id'', ''destination_id'']),
         (None, Check (At_least ''station_no'' 1))]] @
     map (Add_column ''deliveries'')
       [nullable_column ''relay_chain_id'' Ty_uuid, nullable_column ''relay_station_no'' Ty_integer,
        nullable_column ''relay_skipped_at'' Ty_timestamptz, nullable_column ''relay_skip_reason'' Ty_text,
        nullable_column ''relay_stopped_by_delivery_id'' Ty_uuid] @
     [Add_foreign_key_once ''deliveries_relay_chain_fkey'' ''deliveries'' ''relay_chain_id'' ''relay_chains''] @
     reassert ''deliveries'' ''deliveries_relay_snapshot_check'' relay_snapshot_check @
     reassert ''deliveries'' ''deliveries_relay_station_no_check'' relay_station_check @
     reassert ''deliveries'' ''deliveries_relay_skip_check'' relay_skip_check @
     reassert ''deliveries'' ''deliveries_relay_skip_reason_check'' relay_skip_reason_check @
     [Create_index False ''deliveries_relay_gate_idx'' ''deliveries'' [''event_id'', ''relay_chain_id'', ''relay_station_no'']
        (Some (Not_null ''relay_chain_id''))]"

definition deadline_upgrade :: "stmt list" where
  "deadline_upgrade =
     [Add_column ''events'' (nullable_column ''deliver_by'' Ty_timestamptz),
      Add_column ''deliveries'' (nullable_column ''deliver_by'' Ty_timestamptz),
      Add_column ''deliveries'' (nullable_column ''deliver_by_expired_at'' Ty_timestamptz)] @ widen_status @
     reassert ''deliveries'' ''deliveries_release_state_check'' release_state_check @
     reassert ''deliveries'' ''deliveries_void_reason_check'' void_reason_check @
     reassert ''deliveries'' ''deliveries_relay_skip_reason_check'' relay_skip_reason_check @
     [Create_index False ''deliveries_deliver_by_due_idx'' ''deliveries'' [''deliver_by'']
        (Some (Conj (One_of ''status'' [''pending'']) (Not_null ''deliver_by'')))]"

text \<open>The list, up to the handshake block and after it.\<close>

definition statements_before_handshake :: "stmt list" where
  "statements_before_handshake = destinations_table # confirmation_attempts_table @ [Rename_legacy_events] @ events_tables @
     [Create_table ''deliveries'' deliveries_columns deliveries_constraints] @ gate_upgrade @ gate_tables @
     [receipts_table] @ sources_tables @ subscriptions_tables @ attempts_table @ lease_upgrade @ fan_out_upgrade @
     receipts_upgrade @ schedule_upgrade @ source_upgrade"

definition statements_after_handshake :: "stmt list" where
  "statements_after_handshake = handshake_checks @ dead_letter_upgrade @ observer_upgrade @ filter_upgrade @
     corrections_upgrade @ relay_upgrade @ deadline_upgrade"

definition schema_statements :: "stmt list" where
  "schema_statements = statements_before_handshake @ [Arm_handshake] @ statements_after_handshake"

definition init_db :: "time \<Rightarrow> pg \<Rightarrow> ddl_error + pg" where
  "init_db now pg = exec now schema_statements pg"

end
