(* ===== verification/Restart.thy ===== *)
theory Restart
  imports Schema_Statements
begin

text \<open>
  The second and every later start of the service (app/models.py, \<open>init_db\<close>): \<open>init_db_again\<close>
  says that SCHEMA_STATEMENTS, run on the catalogue an earlier run left, succeed and change nothing,
  whatever rows were written in between under the CHECKs of that catalogue. The proof follows the
  facts each statement establishes about the catalogue (\<open>learns\<close>) and checks that no later statement
  undoes one (\<open>lasting\<close>).
\<close>


section \<open>What statements establish and keep\<close>

text \<open>What one statement leaves true of the catalogue, and which statements keep it true.\<close>

datatype fact =
    Has_table string
  | Has_column string string
  | Has_index string
  | No_index string
  | Has_check string string expr
  | No_constraint string string
  | Has_key string

primrec true_in :: "catalogue \<Rightarrow> fact \<Rightarrow> bool" where
  "true_in ct (Has_table t) = has_table ct t"
| "true_in ct (Has_column t c) = has_column ct t c"
| "true_in ct (Has_index n) = (n \<in> set (map fst (ct_indexes ct)))"
| "true_in ct (No_index n) = (n \<notin> set (map fst (ct_indexes ct)))"
| "true_in ct (Has_check t n e) = (constraint_of ct t n = Some (Check e))"
| "true_in ct (No_constraint t n) = (constraint_of ct t n = None)"
| "true_in ct (Has_key n) = key_taken ct n"

datatype step_group =
    Alone stmt
  | Reassert string string "string list" expr

fun statements_of :: "step_group \<Rightarrow> stmt list" where
  "statements_of (Alone s) = [s]"
| "statements_of (Reassert t n olds e) = map (Drop_constraint t) (n # olds) @ [Add_check t n e]"

fun learns :: "step_group \<Rightarrow> fact list" where
  "learns (Reassert t n olds e) = Has_table t # Has_check t n e # map (No_constraint t) olds @ map (Has_column t) (columns_of e)"
| "learns (Alone (Create_table t cols cons)) = [Has_table t]"
| "learns (Alone (Create_index u n t cs w)) = [Has_index n]"
| "learns (Alone (Add_column t c)) = [Has_column t (col_name c)]"
| "learns (Alone (Drop_constraint t n)) = [Has_table t, No_constraint t n]"
| "learns (Alone (Drop_index n)) = [No_index n]"
| "learns (Alone (Add_foreign_key_once n t c target)) = [Has_key n]"
| "learns (Alone Arm_handshake) = [Has_column ''destinations'' ''confirmation_state'']"
| "learns _ = []"

fun spares1 :: "stmt \<Rightarrow> fact \<Rightarrow> bool" where
  "spares1 (Create_table t cols cons) f = (case f of No_constraint u n \<Rightarrow> u \<noteq> t | _ \<Rightarrow> True)"
| "spares1 (Create_index u n t cs w) f = (case f of No_index m \<Rightarrow> m \<noteq> n | _ \<Rightarrow> True)"
| "spares1 (Add_column t c) f = True"
| "spares1 (Drop_constraint t n) f = (case f of Has_check u m e \<Rightarrow> m \<noteq> n \<or> u \<noteq> t | Has_key m \<Rightarrow> m \<noteq> n | _ \<Rightarrow> True)"
| "spares1 (Add_check t n e) f = (case f of No_constraint u m \<Rightarrow> m \<noteq> n \<or> u \<noteq> t | _ \<Rightarrow> True)"
| "spares1 (Drop_index n) f = (case f of Has_index m \<Rightarrow> m \<noteq> n | _ \<Rightarrow> True)"
| "spares1 (Add_foreign_key_once n t c target) f = (case f of No_constraint u m \<Rightarrow> m \<noteq> n \<or> u \<noteq> t | _ \<Rightarrow> True)"
| "spares1 Rename_legacy_events f = (case f of
     Has_table u \<Rightarrow> u \<noteq> ''events''
   | Has_column u c \<Rightarrow> u \<noteq> ''events'' \<and> u \<noteq> ''deliveries''
   | Has_check u n e \<Rightarrow> u \<noteq> ''events'' \<and> u \<noteq> ''deliveries''
   | No_constraint u n \<Rightarrow> u \<noteq> ''events'' \<and> u \<noteq> ''deliveries''
   | _ \<Rightarrow> True)"
| "spares1 Rename_attempt_event f = (case f of
     Has_column u c \<Rightarrow> u \<noteq> ''delivery_attempts'' \<or> c \<noteq> ''event_id''
   | Has_check u n e \<Rightarrow> u \<noteq> ''delivery_attempts''
   | _ \<Rightarrow> True)"
| "spares1 Arm_handshake f = True"

fun spares :: "step_group \<Rightarrow> fact \<Rightarrow> bool" where
  "spares (Alone s) f = spares1 s f"
| "spares (Reassert t n olds e) f = (case f of
     Has_check u m d \<Rightarrow> (if m = n then if u = t then d = e else True else m \<notin> set olds \<or> u \<noteq> t)
   | Has_key m \<Rightarrow> m \<noteq> n \<and> m \<notin> set olds
   | No_constraint u m \<Rightarrow> m \<noteq> n \<or> u \<noteq> t
   | _ \<Rightarrow> True)"


lemma map_of_map_entry:
  "map_of (AList.map_entry k f xs) = (map_of xs)(k := map_option f (map_of xs k))"
  by (induction xs) (auto simp: fun_eq_iff)

lemma map_of_alter: "map_of (ct_tables (alter t f ct)) = (map_of (ct_tables ct))(t := map_option f (map_of (ct_tables ct) t))"
  by (simp add: alter_def map_of_map_entry)

lemma indexes_alter [simp]: "ct_indexes (alter t f ct) = ct_indexes ct"
  by (simp add: alter_def)

lemma has_table_alter [simp]: "has_table (alter t f ct) u = has_table ct u"
  by (simp add: has_table_def map_of_alter)

lemma column_names_alter:
  "column_names (alter t f ct) u = (if u = t
     then (case map_of (ct_tables ct) t of None \<Rightarrow> [] | Some td \<Rightarrow> map col_name (td_columns (f td))) else column_names ct u)"
  by (simp add: column_names_def map_of_alter split: option.split)

lemma constraint_of_alter:
  "constraint_of (alter t f ct) u n = (if u = t
     then (case map_of (ct_tables ct) t of None \<Rightarrow> None | Some td \<Rightarrow> td_constraints (f td) n) else constraint_of ct u n)"
  by (simp add: constraint_of_def map_of_alter split: option.split)

lemma has_column_case:
  "has_column ct t c \<longleftrightarrow> (case map_of (ct_tables ct) t of None \<Rightarrow> False | Some td \<Rightarrow> c \<in> col_name ` set (td_columns td))"
  by (simp add: has_column_def column_names_def split: option.split)

lemma has_column_alter:
  assumes "\<And>td. col_name ` set (td_columns td) \<subseteq> col_name ` set (td_columns (f td))" and "has_column ct u c"
  shows "has_column (alter t f ct) u c"
  using assms(2) by (auto simp: has_column_case map_of_alter intro: subsetD [OF assms(1)] split: option.splits)

lemma key_taken_entry:
  assumes "\<And>td. td_constraints td n \<noteq> None \<Longrightarrow> td_constraints (f td) n \<noteq> None"
    and "list_ex (\<lambda>(u, td). td_constraints td n \<noteq> None) xs"
  shows "list_ex (\<lambda>(u, td). td_constraints td n \<noteq> None) (AList.map_entry t f xs)"
  using assms(2) by (induction xs) (use assms(1) in auto)

lemma key_taken_alter:
  assumes "\<And>td. td_constraints td n \<noteq> None \<Longrightarrow> td_constraints (f td) n \<noteq> None" and "key_taken ct n"
  shows "key_taken (alter t f ct) n"
  using key_taken_entry [of n f "ct_tables ct" t, OF assms(1)] assms(2) by (simp add: key_taken_def alter_def)

lemma constraints_dropped [simp]: "td_constraints (drop_constraint n td) = (td_constraints td)(n := None)"
  and columns_dropped [simp]: "td_columns (drop_constraint n td) = td_columns td"
  by (simp_all add: drop_constraint_def)

lemma constraints_added [simp]: "td_constraints (add_constraint n c td) = (td_constraints td)(n \<mapsto> c)"
  and columns_added [simp]: "td_columns (add_constraint n c td) = td_columns td"
  by (simp_all add: add_constraint_def)

lemma drop_spares:
  assumes "true_in ct f" and "spares1 (Drop_constraint t n) f"
  shows "true_in (alter t (drop_constraint n) ct) f"
  using assms
  by (cases f) (auto simp: constraint_of_def map_of_alter intro!: key_taken_alter has_column_alter
      split: option.splits if_splits)

lemma add_spares:
  assumes "true_in ct f" and "case f of No_constraint u m \<Rightarrow> m \<noteq> n \<or> u \<noteq> t | Has_check u m e \<Rightarrow> m \<noteq> n \<or> u \<noteq> t | _ \<Rightarrow> True"
  shows "true_in (alter t (add_constraint n c) ct) f"
  using assms
  by (cases f) (auto simp: constraint_of_def map_of_alter intro!: key_taken_alter has_column_alter
      split: option.splits if_splits)


lemma no_table_no_constraint: "\<not> has_table ct t \<Longrightarrow> constraint_of ct t n = None"
  by (simp add: has_table_def constraint_of_def)

lemma column_has_table: "has_column ct t c \<Longrightarrow> has_table ct t"
  by (auto simp: has_column_case has_table_def split: option.splits)

lemma has_column_alter_iff:
  "has_column (alter t f ct) u c \<longleftrightarrow> (if u = t
     then (case map_of (ct_tables ct) t of None \<Rightarrow> False | Some td \<Rightarrow> c \<in> col_name ` set (td_columns (f td)))
     else has_column ct u c)"
  by (auto simp: has_column_def column_names_alter split: option.splits)

lemma table_entry: "has_table ct t \<Longrightarrow> \<exists>td. map_of (ct_tables ct) t = Some td"
  by (simp add: has_table_def)

lemma add_column_Inr:
  assumes "add_column now t c pg = Inr pg'"
  shows "has_table (pg_catalogue pg) t" and "\<not> has_column (pg_catalogue pg) t (col_name c)"
    and "pg_catalogue pg' = alter t (\<lambda>td. td\<lparr>td_columns := td_columns td @ [c]\<rparr>) (pg_catalogue pg)"
    and "pg_rows pg' = (pg_rows pg)(t := map (\<lambda>r. r(col_name c := default_value now (col_default c))) (pg_rows pg t))"
  using assms by (auto simp: add_column_def split: if_splits)

lemma add_column_learns: "add_column now t c pg = Inr pg' \<Longrightarrow> has_column (pg_catalogue pg') t (col_name c)"
  using table_entry [of "pg_catalogue pg" t] by (auto simp: add_column_Inr has_column_alter_iff)

lemma add_column_keeps:
  assumes "add_column now t c pg = Inr pg'" and "true_in (pg_catalogue pg) f"
  shows "true_in (pg_catalogue pg') f"
  using assms(2) unfolding add_column_Inr(3) [OF assms(1)]
  by (cases f) (auto simp: constraint_of_def map_of_alter intro!: key_taken_alter has_column_alter split: option.splits)

lemma add_columns_keep:
  "add_columns now t cs pg = Inr pg' \<Longrightarrow> true_in (pg_catalogue pg) f \<Longrightarrow> true_in (pg_catalogue pg') f"
  by (induction cs arbitrary: pg) (auto intro: add_column_keeps split: sum.splits)

lemma map_of_append_absent: "map_of xs t = None \<Longrightarrow> map_of (xs @ [(t, y)]) = (map_of xs)(t \<mapsto> y)"
  by (auto simp: fun_eq_iff map_add_def split: option.splits)

lemma create_table_keeps:
  assumes "create_table t cols cons pg = Inr pg'" and "true_in (pg_catalogue pg) f"
    and "case f of No_constraint u n \<Rightarrow> u \<noteq> t | _ \<Rightarrow> True"
  shows "true_in (pg_catalogue pg') f"
  using assms
  by (cases f) (auto simp: create_table_def Let_def has_table_def has_column_case constraint_of_def key_taken_def
      map_of_append_absent map_add_def split: if_splits option.splits)

lemma create_index_keeps:
  assumes "create_index u n t cs w pg = Inr pg'" and "true_in (pg_catalogue pg) f"
    and "case f of No_index m \<Rightarrow> m \<noteq> n | _ \<Rightarrow> True"
  shows "true_in (pg_catalogue pg') f"
  using assms
  by (cases f) (auto simp: create_index_def Let_def has_table_def has_column_case constraint_of_def key_taken_def
      split: if_splits)


lemma map_of_moved:
  "u \<noteq> old \<Longrightarrow> u \<noteq> new \<Longrightarrow> map_of (map (\<lambda>(n, td). (if n = old then new else n, td)) xs) u = map_of xs u"
  by (induction xs) auto

lemma list_ex_moved:
  "list_ex (\<lambda>(u, td). P td) (map (\<lambda>(n, td). (g n, td)) xs) = list_ex (\<lambda>(u, td). P td) xs"
  by (induction xs) auto

lemma names_moved: "map (fst \<circ> (\<lambda>(n, t). (n, h t))) xs = map fst xs"
  by (induction xs) auto

lemma table_moved:
  "map_of xs u = Some y \<Longrightarrow> map_of xs new = None \<Longrightarrow> u \<noteq> old \<Longrightarrow>
     map_of (map (\<lambda>(n, td). (if n = old then new else n, td)) xs) u = Some y"
  by (induction xs) (auto split: if_splits)

lemma rename_legacy_keeps:
  assumes "true_in (pg_catalogue pg) f" and "spares1 Rename_legacy_events f"
  shows "true_in (pg_catalogue (rename_legacy_events pg)) f"
proof -
  show ?thesis
  proof (cases "has_table (pg_catalogue pg) ''events'' \<and> \<not> has_table (pg_catalogue pg) ''deliveries'' \<and>
      has_column (pg_catalogue pg) ''events'' ''destination_id''")
    case True
    show ?thesis
      using assms True
      by (cases f) (auto simp: rename_legacy_events_def Let_def has_table_def has_column_case constraint_of_def key_taken_def
          map_of_moved list_ex_moved names_moved table_moved simp del: set_map)
  next
    case False
    then show ?thesis using assms(1) by (auto simp: rename_legacy_events_def Let_def)
  qed
qed


lemma rename_attempt_keeps:
  assumes "true_in (pg_catalogue pg) f" and "spares1 Rename_attempt_event f"
  shows "true_in (pg_catalogue (rename_attempt_event pg)) f"
proof (cases f)
  case (Has_column u c)
  then show ?thesis
    using assms by (auto simp: rename_attempt_event_def Let_def has_column_case map_of_alter rename_string_def image_image
        split: option.splits)
next
  case (Has_key n)
  then show ?thesis
    using assms by (auto simp: rename_attempt_event_def Let_def intro!: key_taken_alter)
qed (use assms in \<open>auto simp: rename_attempt_event_def Let_def constraint_of_def map_of_alter split: option.splits\<close>)

lemma arm_keeps:
  assumes "arm_handshake now pg = Inr pg'" and "true_in (pg_catalogue pg) f"
  shows "true_in (pg_catalogue pg') f"
  using assms by (auto simp: arm_handshake_def Let_def dest: add_columns_keep split: if_splits sum.splits)

lemma add_columns_learn:
  assumes "add_columns now t cs pg = Inr pg'" and "c \<in> set cs"
  shows "has_column (pg_catalogue pg') t (col_name c)"
  using assms
proof (induction cs arbitrary: pg)
  case (Cons d cs)
  obtain p where p: "add_column now t d pg = Inr p" and rest: "add_columns now t cs p = Inr pg'"
    using Cons.prems(1) by (auto split: sum.splits)
  show ?case
    using Cons.IH [OF rest] Cons.prems(2) add_columns_keep [OF rest, of "Has_column t (col_name d)"] add_column_learns [OF p]
    by auto
qed simp

lemma exec1_keeps:
  assumes "exec1 now s pg = Inr pg'" and "true_in (pg_catalogue pg) f" and "spares1 s f"
  shows "true_in (pg_catalogue pg') f"
proof (cases s)
  case (Add_check t n e)
  have "\<And>u m d. f = Has_check u m d \<Longrightarrow> m \<noteq> n \<or> u \<noteq> t"
    using assms(1,2) Add_check by (auto simp: add_check_def Let_def split: if_splits)
  then show ?thesis
    using assms Add_check add_spares [of "pg_catalogue pg" f n t "Check e"]
    by (cases f) (auto simp: add_check_def Let_def split: if_splits)
next
  case (Add_foreign_key_once n t c target)
  have "\<And>u m d. f = Has_check u m d \<Longrightarrow> key_taken (pg_catalogue pg) n \<or> m \<noteq> n \<or> u \<noteq> t"
    using assms(2) by (auto simp: constraint_of_def key_taken_def list_ex_iff dest!: map_of_SomeD split: option.splits)
  then show ?thesis
    using assms Add_foreign_key_once add_spares [of "pg_catalogue pg" f n t "Foreign_key c target"]
    by (cases f) (auto simp: add_foreign_key_def Let_def split: if_splits)
next
  case (Drop_constraint t n)
  then show ?thesis
    using assms drop_spares [of "pg_catalogue pg" f t n] by (auto split: if_splits)
next
  case (Drop_index n)
  then show ?thesis
    using assms by (cases f) (auto simp: has_table_def has_column_case constraint_of_def key_taken_def)
qed (use assms in \<open>auto intro: create_table_keeps create_index_keeps add_column_keeps rename_legacy_keeps
       rename_attempt_keeps arm_keeps simp del: spares1.simps(8,9) split: if_splits\<close>)


lemma exec_append: "exec now (xs @ ys) pg = (case exec now xs pg of Inl err \<Rightarrow> Inl err | Inr p \<Rightarrow> exec now ys p)"
  by (induction xs arbitrary: pg) (auto split: sum.split)

lemma exec_keeps:
  "exec now ss pg = Inr pg' \<Longrightarrow> true_in (pg_catalogue pg) f \<Longrightarrow> list_all (\<lambda>s. spares1 s f) ss \<Longrightarrow> true_in (pg_catalogue pg') f"
  by (induction ss arbitrary: pg) (auto split: sum.splits intro: exec1_keeps)

definition proper_group :: "step_group \<Rightarrow> bool" where
  "proper_group g \<longleftrightarrow> (case g of Reassert t n olds e \<Rightarrow> n \<notin> set olds | Alone (Add_check _ _ _) \<Rightarrow> False | _ \<Rightarrow> True)"

lemma drops_Inr:
  assumes "exec now (map (Drop_constraint t) ns) pg = Inr p"
  shows "pg_rows p = pg_rows pg" and "n \<in> set ns \<Longrightarrow> constraint_of (pg_catalogue p) t n = None"
    and "ns \<noteq> [] \<Longrightarrow> has_table (pg_catalogue p) t"
proof -
  have "pg_rows p = pg_rows pg \<and> (n \<in> set ns \<longrightarrow> constraint_of (pg_catalogue p) t n = None) \<and>
      (ns \<noteq> [] \<longrightarrow> has_table (pg_catalogue p) t)"
    using assms
  proof (induction ns arbitrary: pg)
    case (Cons m ns)
    let ?p = "pg\<lparr>pg_catalogue := alter t (drop_constraint m) (pg_catalogue pg)\<rparr>"
    have rest: "exec now (map (Drop_constraint t) ns) ?p = Inr p" and ht: "has_table (pg_catalogue pg) t"
      using Cons.prems by (auto split: if_splits)
    have gone: "constraint_of (pg_catalogue ?p) t m = None"
      by (auto simp: constraint_of_alter split: option.split)
    have "constraint_of (pg_catalogue p) t m = None"
      using exec_keeps [OF rest, of "No_constraint t m"] gone by (simp add: list.pred_map list.pred_True comp_def)
    moreover have "has_table (pg_catalogue p) t"
      using exec_keeps [OF rest, of "Has_table t"] ht by (simp add: list.pred_map list.pred_True comp_def)
    ultimately show ?case using Cons.IH [OF rest] by auto
  qed simp
  then show "pg_rows p = pg_rows pg" and "n \<in> set ns \<Longrightarrow> constraint_of (pg_catalogue p) t n = None"
    and "ns \<noteq> [] \<Longrightarrow> has_table (pg_catalogue p) t" by blast+
qed

lemma add_check_learns:
  assumes "add_check t n e pg = Inr pg'"
  shows "has_table (pg_catalogue pg') t" and "c \<in> set (columns_of e) \<Longrightarrow> has_column (pg_catalogue pg') t c"
    and "constraint_of (pg_catalogue pg') t n = Some (Check e)" and "pg_rows pg' = pg_rows pg"
  using assms table_entry [of "pg_catalogue pg" t]
  by (auto simp: add_check_def Let_def constraint_of_alter list_all_iff intro!: has_column_alter split: if_splits)

lemma reassert_runs:
  assumes "exec now (statements_of (Reassert t n olds e)) pg = Inr pg'"
  obtains p where "exec now (map (Drop_constraint t) (n # olds)) pg = Inr p" and "add_check t n e p = Inr pg'"
proof -
  have "exec now (map (Drop_constraint t) (n # olds) @ [Add_check t n e]) pg = Inr pg'" using assms by simp
  then show ?thesis using that by (auto simp only: exec_append exec.simps exec1.simps split: sum.splits)
qed

lemma group_learns:
  assumes "exec now (statements_of g) pg = Inr pg'" and "proper_group g" and "f \<in> set (learns g)"
  shows "true_in (pg_catalogue pg') f"
proof (cases g)
  case (Alone s)
  have run: "exec1 now s pg = Inr pg'" using assms(1) Alone by (auto split: sum.splits)
  show ?thesis
  proof (cases s)
    case (Create_table t cols cons)
    then show ?thesis using run assms(3) Alone
      by (auto simp: create_table_def Let_def has_table_def map_add_def split: if_splits option.split)
  next
    case (Create_index u n t cs w)
    then show ?thesis using run assms(3) Alone by (auto simp: create_index_def Let_def split: if_splits)
  next
    case (Add_column t c)
    then show ?thesis using run assms(3) Alone by (auto intro: add_column_learns split: if_splits)
  next
    case (Drop_constraint t n)
    then show ?thesis using run assms(3) Alone by (auto simp: constraint_of_alter split: if_splits option.split)
  next
    case (Drop_index n)
    then show ?thesis using run assms(3) Alone by auto
  next
    case (Add_foreign_key_once n t c target)
    have "key_taken (alter t (add_constraint n (Foreign_key c target)) ct) n" if "has_table ct t" for ct
      using table_entry [OF that] map_of_SomeD [of "ct_tables (alter t (add_constraint n (Foreign_key c target)) ct)" t]
      by (auto simp: key_taken_def list_ex_iff map_of_alter intro!: bexI)
    then show ?thesis using run assms(3) Alone Add_foreign_key_once
      by (auto simp: add_foreign_key_def Let_def split: if_splits)
  next
    case Arm_handshake
    then show ?thesis using run assms(3) Alone
        add_columns_learn [of now "''destinations''" handshake_columns pg _ "filled_column ''confirmation_state'' Ty_text (Constant (VText ''pending''))"]
      by (auto simp: arm_handshake_def Let_def handshake_columns_def filled_column_def simp del: add_columns.simps split: if_splits sum.splits)
  qed (use assms(3) Alone in auto)
next
  case (Reassert t n olds e)
  obtain p where drops: "exec now (map (Drop_constraint t) (n # olds)) pg = Inr p" and add: "add_check t n e p = Inr pg'"
    using assms(1) Reassert by (blast elim: reassert_runs)
  have gone: "constraint_of (pg_catalogue pg') t m = None" if "m \<in> set olds" for m
    using drops_Inr(2) [OF drops, of m] exec1_keeps [of now "Add_check t n e" p pg' "No_constraint t m"] add that assms(2) Reassert
    by (auto simp: proper_group_def)
  show ?thesis
    using assms(3) Reassert add_check_learns [OF add] gone by auto
qed


lemma group_keeps:
  assumes "exec now (statements_of g) pg = Inr pg'" and "proper_group g" and "true_in (pg_catalogue pg) f" and "spares g f"
  shows "true_in (pg_catalogue pg') f"
proof (cases g)
  case (Alone s)
  then show ?thesis using assms exec1_keeps [of now s pg pg' f] by (auto split: sum.splits)
next
  case (Reassert t n olds e)
  show ?thesis
  proof (cases "f = Has_check t n e")
    case True
    then show ?thesis using group_learns [OF assms(1,2), of f] Reassert by simp
  next
    case False
    have "list_all (\<lambda>s. spares1 s f) (statements_of g)"
      using assms(4) False Reassert by (cases f) (auto simp: list_all_iff)
    then show ?thesis using exec_keeps [OF assms(1,3)] by blast
  qed
qed

text \<open>
  Only a few statements threaten a fact of a kind: the renames and the drops threaten any, a new table
  or index a fact about an absence, a re-asserted CHECK an absence, another CHECK of its name or a key.
\<close>

fun kind_of :: "fact \<Rightarrow> nat" where
  "kind_of (Has_check t n e) = 1"
| "kind_of (Has_key n) = 1"
| "kind_of (No_constraint t n) = 2"
| "kind_of (No_index n) = 2"
| "kind_of _ = 0"

fun threatens :: "step_group \<Rightarrow> nat \<Rightarrow> bool" where
  "threatens (Alone (Add_column t c)) k = False"
| "threatens (Alone Arm_handshake) k = False"
| "threatens (Alone (Create_table t cols cons)) k = (k = 2)"
| "threatens (Alone (Create_index u n t cs w)) k = (k = 2)"
| "threatens (Alone (Add_foreign_key_once n t c target)) k = (k = 2)"
| "threatens (Reassert t n olds e) k = (k \<noteq> 0)"
| "threatens _ k = True"

lemma unthreatened: "\<not> threatens g (kind_of f) \<Longrightarrow> spares g f"
  by (cases "(g, kind_of f)" rule: threatens.cases; cases f) auto

text \<open>The facts known so far, by kind; each group must spare those it threatens.\<close>

definition of_kind :: "nat \<Rightarrow> fact list \<Rightarrow> fact list" where
  "of_kind k fs = filter (\<lambda>f. kind_of f = k) fs"

fun lasting :: "fact list \<Rightarrow> fact list \<Rightarrow> fact list \<Rightarrow> step_group list \<Rightarrow> bool" where
  "lasting there firm absent [] = True"
| "lasting there firm absent (g # gs) =
     ((if threatens g 0 then list_all (spares g) there else True) \<and>
      (if threatens g 1 then list_all (spares g) firm else True) \<and>
      (if threatens g 2 then list_all (spares g) absent else True) \<and>
      lasting (of_kind 0 (learns g) @ there) (of_kind 1 (learns g) @ firm) (of_kind 2 (learns g) @ absent) gs)"

abbreviation run_groups :: "time \<Rightarrow> step_group list \<Rightarrow> pg \<Rightarrow> ddl_error + pg" where
  "run_groups now gs \<equiv> exec now (concat (map statements_of gs))"

definition sorted_by_kind :: "fact list \<Rightarrow> fact list \<Rightarrow> fact list \<Rightarrow> bool" where
  "sorted_by_kind there firm absent \<longleftrightarrow> list_all (\<lambda>f. kind_of f = 0) there \<and> list_all (\<lambda>f. kind_of f = 1) firm \<and>
     list_all (\<lambda>f. kind_of f = 2) absent"

lemma kinds: "kind_of f \<noteq> 0 \<Longrightarrow> kind_of f \<noteq> 2 \<Longrightarrow> kind_of f = 1"
  by (cases f) auto

lemma groups_learn:
  assumes "run_groups now gs pg = Inr pg'" and "list_all proper_group gs" and "lasting there firm absent gs"
    and "sorted_by_kind there firm absent" and "list_all (true_in (pg_catalogue pg)) (there @ firm @ absent)"
  shows "list_all (true_in (pg_catalogue pg')) (there @ firm @ absent @ concat (map learns gs))"
  using assms
proof (induction gs arbitrary: pg there firm absent)
  case (Cons g gs)
  obtain p where g: "exec now (statements_of g) pg = Inr p" and rest: "run_groups now gs p = Inr pg'"
    using Cons.prems(1) by (auto simp: exec_append split: sum.splits)
  let ?new = "\<lambda>k. of_kind k (learns g)"
  have spared: "list_all (spares g) (there @ firm @ absent)"
    using Cons.prems(3,4) unthreatened [of g] by (auto simp: sorted_by_kind_def list_all_iff split: if_splits)
  have kept: "list_all (true_in (pg_catalogue p)) (there @ firm @ absent)"
    using spared Cons.prems(2,5) group_keeps [OF g] by (auto simp: list_all_iff)
  have learnt: "list_all (true_in (pg_catalogue p)) (learns g)"
    using group_learns [OF g] Cons.prems(2) by (auto simp: list_all_iff)
  have "list_all (true_in (pg_catalogue pg')) ((?new 0 @ there) @ (?new 1 @ firm) @ (?new 2 @ absent) @ concat (map learns gs))"
  proof (rule Cons.IH [OF rest])
    show "list_all (true_in (pg_catalogue p)) ((?new 0 @ there) @ (?new 1 @ firm) @ ?new 2 @ absent)"
      using kept learnt by (auto simp: list_all_iff of_kind_def)
    show "sorted_by_kind (?new 0 @ there) (?new 1 @ firm) (?new 2 @ absent)"
      using Cons.prems(4) by (auto simp: sorted_by_kind_def list_all_iff of_kind_def)
  qed (use Cons.prems(2,3) in auto)
  moreover have "set (learns g) \<subseteq> set (?new 0 @ ?new 1 @ ?new 2)"
    using kinds by (auto simp: of_kind_def simp del: One_nat_def)
  ultimately show ?case by (auto simp: list_all_iff)
qed simp

text \<open>
  PostgreSQL enforces the CHECKs of its catalogue on every row that is written, so they hold of the
  rows a restart finds.
\<close>

definition checks_enforced :: "pg \<Rightarrow> bool" where
  "checks_enforced pg \<longleftrightarrow> (\<forall>t n e. constraint_of (pg_catalogue pg) t n = Some (Check e) \<longrightarrow>
     list_all (\<lambda>r. \<not> violates e r) (pg_rows pg t))"

lemma map_entry_same: "map_of xs t = Some td \<Longrightarrow> f td = td \<Longrightarrow> AList.map_entry t f xs = xs"
  by (induction xs) auto

lemma map_entry_absent: "map_of xs t = None \<Longrightarrow> AList.map_entry t f xs = xs"
  by (induction xs) auto

lemma map_entry_twice: "AList.map_entry t f (AList.map_entry t g xs) = AList.map_entry t (f \<circ> g) xs"
  by (induction xs) auto

lemma alter_same: "(\<And>td. map_of (ct_tables ct) t = Some td \<Longrightarrow> f td = td) \<Longrightarrow> alter t f ct = ct"
  by (cases "map_of (ct_tables ct) t") (simp_all add: alter_def map_entry_same map_entry_absent)

lemma alter_twice: "alter t f (alter t g ct) = alter t (f \<circ> g) ct"
  by (simp add: alter_def map_entry_twice)

lemma drop_absent: "constraint_of ct t n = None \<Longrightarrow> alter t (drop_constraint n) ct = ct"
  by (rule alter_same) (simp add: constraint_of_def drop_constraint_def fun_upd_idem)

lemma drop_then_add: "constraint_of ct t n = Some c \<Longrightarrow> alter t (add_constraint n c) (alter t (drop_constraint n) ct) = ct"
  unfolding alter_twice
  by (rule alter_same) (simp add: constraint_of_def drop_constraint_def add_constraint_def fun_upd_idem)


lemma drops_absent:
  "has_table (pg_catalogue pg) t \<Longrightarrow> list_all (\<lambda>m. constraint_of (pg_catalogue pg) t m = None) ns \<Longrightarrow>
     exec now (map (Drop_constraint t) ns) pg = Inr pg"
  by (induction ns) (simp_all add: drop_absent)

lemma reassert_quiet:
  assumes table: "has_table (pg_catalogue pg) t" and there: "constraint_of (pg_catalogue pg) t n = Some (Check e)"
    and olds: "list_all (\<lambda>m. constraint_of (pg_catalogue pg) t m = None) olds"
    and cols: "list_all (has_column (pg_catalogue pg) t) (columns_of e)" and ok: "list_all (\<lambda>r. \<not> violates e r) (pg_rows pg t)"
  shows "exec now (statements_of (Reassert t n olds e)) pg = Inr pg"
proof -
  let ?p = "pg\<lparr>pg_catalogue := alter t (drop_constraint n) (pg_catalogue pg)\<rparr>"
  have drops: "exec now (map (Drop_constraint t) (n # olds)) pg = Inr ?p"
  proof -
    have "exec now (map (Drop_constraint t) olds) ?p = Inr ?p"
    proof (rule drops_absent)
      show "list_all (\<lambda>m. constraint_of (pg_catalogue ?p) t m = None) olds"
        using olds unfolding constraint_of_def by (simp add: map_of_alter list_all_iff split: option.splits)
    qed (use table in simp)
    then show ?thesis using table by simp
  qed
  have gone: "constraint_of (pg_catalogue ?p) t n = None"
    by (simp add: constraint_of_alter split: option.split)
  have has: "list_all (has_column (pg_catalogue ?p) t) (columns_of e)"
    using cols by (auto simp: list_all_iff intro!: has_column_alter)
  have "\<not> list_ex (violates e) (pg_rows pg t)"
    using ok by (auto simp: list_all_iff list_ex_iff)
  then have "add_check t n e ?p = Inr pg"
    using table gone has by (simp add: add_check_def Let_def drop_then_add [OF there])
  then show ?thesis using drops by (simp only: statements_of.simps exec_append) simp
qed

text \<open>The CHECKs a list validates the rows against again.\<close>

fun asserted :: "step_group \<Rightarrow> (string \<times> expr) list" where
  "asserted (Reassert t n olds e) = [(t, e)]"
| "asserted (Alone s) = []"

definition rows_pass :: "pg \<Rightarrow> (string \<times> expr) list \<Rightarrow> bool" where
  "rows_pass pg checks \<longleftrightarrow> list_all (\<lambda>(t, e). list_all (\<lambda>r. \<not> violates e r) (pg_rows pg t)) checks"

lemma group_quiet:
  assumes facts: "list_all (true_in (pg_catalogue pg)) (learns g)" and "proper_group g" and "rows_pass pg (asserted g)"
    and "has_table (pg_catalogue pg) ''deliveries''" and "has_column (pg_catalogue pg) ''delivery_attempts'' ''delivery_id''"
  shows "exec now (statements_of g) pg = Inr pg"
proof (cases g)
  case (Reassert t n olds e)
  then show ?thesis using facts assms(3)
    by (auto simp: list_all_iff ball_Un rows_pass_def intro!: reassert_quiet simp del: statements_of.simps)
next
  case (Alone s)
  have "exec1 now s pg = Inr pg"
  proof (cases s)
    case (Drop_index n)
    have "filter (\<lambda>(m, _). m \<noteq> n) xs = xs" if "n \<notin> fst ` set xs" for xs :: "(string \<times> string) list"
      using that by (induction xs) auto
    then show ?thesis using facts Alone Drop_index by simp
  qed (use assms Alone in \<open>auto simp: create_table_def create_index_def add_foreign_key_def rename_legacy_events_def
      rename_attempt_event_def arm_handshake_def Let_def drop_absent proper_group_def\<close>)
  then show ?thesis using Alone by simp
qed

lemma groups_quiet:
  assumes "list_all (\<lambda>g. list_all (true_in (pg_catalogue pg)) (learns g)) gs" and "list_all proper_group gs" and "rows_pass pg (concat (map asserted gs))"
    and "has_table (pg_catalogue pg) ''deliveries''" and "has_column (pg_catalogue pg) ''delivery_attempts'' ''delivery_id''"
  shows "run_groups now gs pg = Inr pg"
  using assms(1-3) by (induction gs) (simp_all add: exec_append group_quiet assms(4,5) rows_pass_def)

section \<open>The list of the service\<close>

fun group_steps :: "stmt list \<Rightarrow> step_group list" where
  "group_steps (Drop_constraint t n # Add_check u m e # rest) =
     (if t = u \<and> n = m then Reassert t n [] e # group_steps rest else Alone (Drop_constraint t n) # group_steps (Add_check u m e # rest))"
| "group_steps (Drop_constraint t n # Drop_constraint t' n' # Add_check u m e # rest) =
     (if t = u \<and> t' = u \<and> n = m then Reassert t n [n'] e # group_steps rest
      else Alone (Drop_constraint t n) # group_steps (Drop_constraint t' n' # Add_check u m e # rest))"
| "group_steps (s # rest) = Alone s # group_steps rest"
| "group_steps [] = []"

lemma group_flat: "concat (map statements_of (group_steps ss)) = ss"
  by (induction ss rule: group_steps.induct) auto

definition schema_groups :: "step_group list" where
  "schema_groups = group_steps schema_statements"



lemma schema_proper: "list_all proper_group schema_groups"
  by code_simp

lemma schema_lasting: "lasting [] [] [] schema_groups"
  by code_simp

lemma schema_flat: "concat (map statements_of schema_groups) = schema_statements"
  unfolding schema_groups_def by (rule group_flat)

lemma renames_settled:
  "list_ex (\<lambda>g. list_ex (\<lambda>f. f = Has_table ''deliveries'') (learns g)) schema_groups"
  "list_ex (\<lambda>g. list_ex (\<lambda>f. f = Has_column ''delivery_attempts'' ''delivery_id'') (learns g)) schema_groups"
  by code_simp+

definition revalidated :: "(string \<times> expr) list" where
  "revalidated = concat (map asserted schema_groups)"

lemma init_db_facts:
  assumes "init_db now pg = Inr started"
  shows "list_all (\<lambda>g. list_all (true_in (pg_catalogue started)) (learns g)) schema_groups"
    and "has_table (pg_catalogue started) ''deliveries''"
    and "has_column (pg_catalogue started) ''delivery_attempts'' ''delivery_id''"
proof -
  have learnt: "list_all (true_in (pg_catalogue started)) (concat (map learns schema_groups))"
    using groups_learn [of now schema_groups pg started "[]" "[]" "[]"] assms schema_proper schema_lasting
    by (simp add: init_db_def schema_flat sorted_by_kind_def)
  then show "list_all (\<lambda>g. list_all (true_in (pg_catalogue started)) (learns g)) schema_groups"
    by (auto simp: list_all_iff)
  show "has_table (pg_catalogue started) ''deliveries''"
    "has_column (pg_catalogue started) ''delivery_attempts'' ''delivery_id''"
    using learnt renames_settled by (fastforce simp: list_all_iff list_ex_iff)+
qed

theorem init_db_revalidates:
  assumes "init_db now pg = Inr started" and "pg_catalogue later_pg = pg_catalogue started" and "rows_pass later_pg revalidated"
  shows "init_db later later_pg = Inr later_pg"
  using groups_quiet [of later_pg schema_groups later] schema_proper init_db_facts [OF assms(1)] assms(2,3)
  by (simp add: init_db_def schema_flat revalidated_def)

theorem init_db_again:
  assumes "init_db now pg = Inr started" and "pg_catalogue later_pg = pg_catalogue started" and "checks_enforced later_pg"
  shows "init_db later later_pg = Inr later_pg"
proof (rule init_db_revalidates [OF assms(1,2)])
  have "list_all (\<lambda>r. \<not> violates e r) (pg_rows later_pg t)" if "g \<in> set schema_groups" "(t, e) \<in> set (asserted g)" for g t e
  proof (cases g)
    case (Reassert u n olds f)
    then have "constraint_of (pg_catalogue started) t n = Some (Check e)"
      using init_db_facts(1) [OF assms(1)] that by (fastforce simp: list_all_iff)
    then show ?thesis using assms(2,3) by (simp add: checks_enforced_def)
  qed (use that in simp)
  then show "rows_pass later_pg revalidated"
    by (auto simp: rows_pass_def revalidated_def list_all_iff)
qed

section \<open>The values a start keeps\<close>

lemma row_cells [simp]: "map (\<lambda>r. r c) (map f rows) = map (\<lambda>r. f r c) rows"
  by simp

lemma add_column_cells:
  assumes "add_column now t d pg = Inr pg'" and "has_column (pg_catalogue pg) u c"
  shows "map (\<lambda>r. r c) (pg_rows pg' u) = map (\<lambda>r. r c) (pg_rows pg u)"
  using assms by (auto simp: add_column_Inr)

lemma add_columns_cells:
  "add_columns now t ds pg = Inr pg' \<Longrightarrow> has_column (pg_catalogue pg) u c \<Longrightarrow>
     map (\<lambda>r. r c) (pg_rows pg' u) = map (\<lambda>r. r c) (pg_rows pg u)"
proof (induction ds arbitrary: pg)
  case (Cons d ds)
  obtain p where p: "add_column now t d pg = Inr p" and rest: "add_columns now t ds p = Inr pg'"
    using Cons.prems(1) by (auto split: sum.splits)
  show ?case
    using Cons.IH [OF rest] add_column_cells [OF p Cons.prems(2)] add_column_keeps [OF p, of "Has_column u c"] Cons.prems(2)
    by simp
qed simp

lemma add_columns_fresh:
  "add_columns now t ds pg = Inr pg' \<Longrightarrow> has_column (pg_catalogue pg) t c \<Longrightarrow> c \<notin> col_name ` set ds"
proof (induction ds arbitrary: pg)
  case (Cons d ds)
  obtain p where p: "add_column now t d pg = Inr p" and rest: "add_columns now t ds p = Inr pg'"
    using Cons.prems(1) by (auto split: sum.splits)
  show ?case
    using Cons.IH [OF rest] add_column_Inr(2) [OF p] add_column_keeps [OF p, of "Has_column t c"] Cons.prems(2) by auto
qed simp

lemma arm_cells:
  assumes "arm_handshake now pg = Inr pg'" and "has_column (pg_catalogue pg) u c"
  shows "map (\<lambda>r. r c) (pg_rows pg' u) = map (\<lambda>r. r c) (pg_rows pg u)"
proof (cases "has_column (pg_catalogue pg) ''destinations'' ''confirmation_state''")
  case True
  then show ?thesis using assms(1) by (simp add: arm_handshake_def)
next
  case False
  obtain p where p: "add_columns now ''destinations'' handshake_columns pg = Inr p"
      and pg': "pg' = p\<lparr>pg_rows := (pg_rows p)(''destinations'' := map (confirmed_legacy now) (pg_rows p ''destinations''))\<rparr>"
    using assms(1) False by (auto simp: arm_handshake_def Let_def split: sum.splits)
  have "confirmed_legacy now r c = r c" if "u = ''destinations''" for r
    using add_columns_fresh [OF p, of c] assms(2) that
    by (auto simp: confirmed_legacy_def handshake_columns_def filled_column_def nullable_column_def)
  then show ?thesis
    unfolding add_columns_cells [OF p assms(2), symmetric] pg' by simp
qed

lemma exec1_cells:
  assumes "exec1 now s pg = Inr pg'" and col: "has_column (pg_catalogue pg) u c"
    and "spares1 Rename_legacy_events (Has_column u c)" and "spares1 Rename_attempt_event (Has_column u c)"
  shows "map (\<lambda>r. r c) (pg_rows pg' u) = map (\<lambda>r. r c) (pg_rows pg u)"
proof (cases s)
  case (Create_table t cols cons)
  then show ?thesis using assms(1) column_has_table [OF col] by (auto simp: create_table_def Let_def split: if_splits)
next
  case Rename_attempt_event
  have "u = ''delivery_attempts'' \<Longrightarrow> has_column (pg_catalogue pg) ''delivery_attempts'' ''delivery_id'' \<or> c \<noteq> ''delivery_id''"
    using col by auto
  then show ?thesis using Rename_attempt_event assms(1,4) by (auto simp: rename_attempt_event_def Let_def)
qed (use assms add_column_cells [OF _ col] arm_cells [OF _ col] in
     \<open>auto simp: create_index_def add_check_def add_foreign_key_def rename_legacy_events_def Let_def split: if_splits\<close>)

lemma exec_cells:
  assumes "exec now ss pg = Inr pg'" and "has_column (pg_catalogue pg) u c"
    and "u \<noteq> ''events''" and "u \<noteq> ''deliveries''" and "u \<noteq> ''delivery_attempts'' \<or> c \<noteq> ''event_id''"
  shows "map (\<lambda>r. r c) (pg_rows pg' u) = map (\<lambda>r. r c) (pg_rows pg u)"
  using assms
proof (induction ss arbitrary: pg)
  case (Cons s ss)
  obtain p where p: "exec1 now s pg = Inr p" and rest: "exec now ss p = Inr pg'"
    using Cons.prems(1) by (auto split: sum.splits)
  have spared: "spares1 s (Has_column u c)" using Cons.prems(3-5) by (cases s) auto
  have "has_column (pg_catalogue p) u c" using exec1_keeps [OF p _ spared] Cons.prems(2) by simp
  then have "map (\<lambda>r. r c) (pg_rows pg' u) = map (\<lambda>r. r c) (pg_rows p u)"
    using Cons.IH [OF rest] Cons.prems(3-5) by blast
  also have "\<dots> = map (\<lambda>r. r c) (pg_rows pg u)"
    using exec1_cells [OF p Cons.prems(2)] Cons.prems(3-5) by simp
  finally show ?case .
qed simp

theorem init_db_keeps_values:
  assumes "init_db now pg = Inr pg'" and "has_column (pg_catalogue pg) ''destinations'' c"
  shows "map (\<lambda>r. r c) (pg_rows pg' ''destinations'') = map (\<lambda>r. r c) (pg_rows pg ''destinations'')"
  using exec_cells [of now schema_statements pg pg' "''destinations''" c] assms by (simp add: init_db_def)

section \<open>Databases from before the handshake\<close>

fun adds_handshake :: "stmt \<Rightarrow> bool" where
  "adds_handshake (Add_column t c) = (if t = ''destinations'' then col_name c = ''confirmation_state'' else False)"
| "adds_handshake Arm_handshake = True"
| "adds_handshake _ = False"

lemma exec1_unarmed:
  assumes "exec1 now s pg = Inr pg'" and "\<not> adds_handshake s" and "has_table (pg_catalogue pg) ''destinations''"
    and "\<not> has_column (pg_catalogue pg) ''destinations'' ''confirmation_state''"
  shows "\<not> has_column (pg_catalogue pg') ''destinations'' ''confirmation_state''"
    and "length (pg_rows pg' ''destinations'') = length (pg_rows pg ''destinations'')"
proof -
  have "\<not> has_column (pg_catalogue pg') ''destinations'' ''confirmation_state'' \<and>
      length (pg_rows pg' ''destinations'') = length (pg_rows pg ''destinations'')"
  proof (cases s)
    case Rename_legacy_events
    then show ?thesis using assms by (auto simp: rename_legacy_events_def Let_def has_column_case map_of_moved split: if_splits option.splits)
  qed (use assms in \<open>auto simp: create_table_def create_index_def add_check_def add_foreign_key_def add_column_Inr Let_def
      rename_attempt_event_def has_column_case has_table_def map_of_alter map_of_append_absent map_add_def
      split: if_splits option.splits\<close>)
  then show "\<not> has_column (pg_catalogue pg') ''destinations'' ''confirmation_state''"
    and "length (pg_rows pg' ''destinations'') = length (pg_rows pg ''destinations'')" by blast+
qed

lemma exec_unarmed:
  "exec now ss pg = Inr pg' \<Longrightarrow> list_all (\<lambda>s. \<not> adds_handshake s) ss \<Longrightarrow> has_table (pg_catalogue pg) ''destinations'' \<Longrightarrow>
     \<not> has_column (pg_catalogue pg) ''destinations'' ''confirmation_state'' \<Longrightarrow>
   \<not> has_column (pg_catalogue pg') ''destinations'' ''confirmation_state'' \<and>
     length (pg_rows pg' ''destinations'') = length (pg_rows pg ''destinations'')"
proof (induction ss arbitrary: pg)
  case (Cons s ss)
  obtain p where p: "exec1 now s pg = Inr p" and rest: "exec now ss p = Inr pg'"
    using Cons.prems(1) by (auto split: sum.splits)
  have "has_table (pg_catalogue p) ''destinations''"
    using exec1_keeps [OF p, of "Has_table ''destinations''"] Cons.prems(3) by (cases s) auto
  then show ?case using Cons.IH [OF rest] exec1_unarmed [OF p] Cons.prems(2-4) by auto
qed simp

lemma before_unarmed: "list_all (\<lambda>s. \<not> adds_handshake s) statements_before_handshake"
  by code_simp

definition armed_legacy :: "time \<Rightarrow> row \<Rightarrow> bool" where
  "armed_legacy now r \<longleftrightarrow> r ''confirmation_state'' = VText ''confirmed'' \<and> r ''confirmed_at'' = VTime now \<and>
     r ''challenge_token'' = VNull \<and> r ''challenge_expires_at'' = VNull \<and> r ''confirmation_generation'' = VInt 1"

lemma add_columns_last:
  "add_columns now t ds pg = Inr pg' \<Longrightarrow> d \<in> set ds \<Longrightarrow>
     list_all (\<lambda>r. r (col_name d) = default_value now (col_default d)) (pg_rows pg' t)"
proof (induction ds arbitrary: pg)
  case (Cons e ds)
  obtain p where p: "add_column now t e pg = Inr p" and rest: "add_columns now t ds p = Inr pg'"
    using Cons.prems(1) by (auto split: sum.splits)
  have "map (\<lambda>r. r (col_name e)) (pg_rows pg' t) = map (\<lambda>r. r (col_name e)) (pg_rows p t)"
    by (rule add_columns_cells [OF rest add_column_learns [OF p]])
  also have "\<dots> = map (\<lambda>_. default_value now (col_default e)) (pg_rows pg t)"
    by (simp add: add_column_Inr(4) [OF p])
  finally have "\<forall>v \<in> set (map (\<lambda>r. r (col_name e)) (pg_rows pg' t)). v = default_value now (col_default e)" by simp
  then show ?case using Cons.IH [OF rest] Cons.prems(2) by (auto simp: list_all_iff)
qed simp

lemma add_columns_count: "add_columns now t ds pg = Inr pg' \<Longrightarrow> length (pg_rows pg' t) = length (pg_rows pg t)"
  by (induction ds arbitrary: pg) (fastforce simp: add_column_Inr split: sum.splits)+

lemma arm_legacy:
  assumes "arm_handshake now pg = Inr pg'" and "\<not> has_column (pg_catalogue pg) ''destinations'' ''confirmation_state''"
  shows "list_all (armed_legacy now) (pg_rows pg' ''destinations'')"
    and "length (pg_rows pg' ''destinations'') = length (pg_rows pg ''destinations'')"
proof -
  obtain p where p: "add_columns now ''destinations'' handshake_columns pg = Inr p"
      and pg': "pg' = p\<lparr>pg_rows := (pg_rows p)(''destinations'' := map (confirmed_legacy now) (pg_rows p ''destinations''))\<rparr>"
    using assms by (auto simp: arm_handshake_def Let_def split: sum.splits)
  have "list_all (\<lambda>r. r ''confirmation_generation'' = VInt 1) (pg_rows p ''destinations'')"
    using add_columns_last [OF p, of "filled_column ''confirmation_generation'' Ty_bigint (Constant (VInt 1))"]
    by (simp add: handshake_columns_def filled_column_def default_value_def)
  then show "list_all (armed_legacy now) (pg_rows pg' ''destinations'')"
    by (auto simp: pg' list_all_iff armed_legacy_def confirmed_legacy_def)
  show "length (pg_rows pg' ''destinations'') = length (pg_rows pg ''destinations'')"
    using add_columns_count [OF p] by (simp add: pg')
qed

definition handshake_names :: "string list" where
  "handshake_names = map col_name handshake_columns"

lemma handshake_named:
  "List.member handshake_names ''confirmation_state''" "List.member handshake_names ''confirmed_at''"
  "List.member handshake_names ''challenge_token''" "List.member handshake_names ''challenge_expires_at''"
  "List.member handshake_names ''confirmation_generation''"
  by code_simp+

theorem init_db_confirms_legacy:
  assumes "init_db now pg = Inr pg'" and "has_table (pg_catalogue pg) ''destinations''"
    and "\<not> has_column (pg_catalogue pg) ''destinations'' ''confirmation_state''"
  shows "list_all (armed_legacy now) (pg_rows pg' ''destinations'')"
    and "length (pg_rows pg' ''destinations'') = length (pg_rows pg ''destinations'')"
proof -
  let ?d = "''destinations''"
  obtain p q where p: "exec now statements_before_handshake pg = Inr p" and q: "arm_handshake now p = Inr q"
      and rest: "exec now statements_after_handshake q = Inr pg'"
    using assms(1) by (auto simp: init_db_def schema_statements_def exec_append split: sum.splits)
  have before: "\<not> has_column (pg_catalogue p) ?d ''confirmation_state''" "length (pg_rows p ?d) = length (pg_rows pg ?d)"
    using exec_unarmed [OF p before_unarmed assms(2,3)] by blast+
  note armed = arm_legacy [OF q before(1)]
  have known: "has_column (pg_catalogue q) ?d (col_name c)" if "c \<in> set handshake_columns" for c
    using q before(1) add_columns_learn that by (auto simp: arm_handshake_def Let_def split: sum.splits)
  have same: "map (\<lambda>r. r c) (pg_rows pg' ?d) = map (\<lambda>r. r c) (pg_rows q ?d)" if "List.member handshake_names c" for c
    using exec_cells [OF rest, of ?d c] known that by (auto simp: handshake_names_def List.member_iff)
  have len: "length (pg_rows pg' ?d) = length (pg_rows q ?d)"
    using map_eq_imp_length_eq [OF same [OF handshake_named(1)]] .
  have cell: "(pg_rows pg' ?d ! i) c = (pg_rows q ?d ! i) c" if "i < length (pg_rows q ?d)" "List.member handshake_names c" for i c
    using arg_cong [OF same [OF that(2)], of "\<lambda>xs. xs ! i"] that(1) len by simp
  have "armed_legacy now (pg_rows pg' ?d ! i)" if "i < length (pg_rows q ?d)" for i
    using armed(1) that unfolding list_all_length armed_legacy_def by (simp only: cell [OF that] handshake_named)
  then show "list_all (armed_legacy now) (pg_rows pg' ?d)"
    using len by (simp add: list_all_length)
  show "length (pg_rows pg' ?d) = length (pg_rows pg ?d)"
    using len armed(2) before(2) by simp
qed

end
