(* ===== verification/First_Start.thy ===== *)
theory First_Start
  imports Restart
begin

text \<open>
  SCHEMA_STATEMENTS of app/models.py succeed (\<open>init_db_first\<close>): on no tables at all they build the
  fifteen tables, and on a \<open>destinations\<close> table of before the handshake they run through. Success is
  decided on \<open>shape\<close>s, the names of the tables and columns (\<open>exec_allowed\<close>).
\<close>

section \<open>The first start\<close>

text \<open>
  Whether the list succeeds depends, on tables without rows, on the names of tables and columns
  alone. Rows are let into \<open>destinations\<close> when they satisfy the two CHECKs the list asserts of it.
\<close>

type_synonym shape = "(string \<times> string list) list"

definition shape_of :: "catalogue \<Rightarrow> shape" where
  "shape_of ct = map (\<lambda>(t, td). (t, map col_name (td_columns td))) (ct_tables ct)"

fun same_text :: "string \<Rightarrow> string \<Rightarrow> bool" where
  "same_text [] [] = True"
| "same_text (c # cs) (d # ds) = (if c = d then same_text cs ds else False)"
| "same_text _ _ = False"

lemma same_eq [simp]: "same_text s t \<longleftrightarrow> s = t"
  by (induction s t rule: same_text.induct) auto

text \<open>
  The tests below are evaluated by rewriting, which is strict in all but the condition of an \<open>if\<close> and
  walks through a chosen branch again; \<open>branch\<close> and the companion functions avoid that walk.
\<close>

primrec branch :: "bool \<Rightarrow> 'a \<Rightarrow> 'a \<Rightarrow> 'a" where
  "branch True a b = a"
| "branch False a b = b"

lemma branch_iff [simp]: "branch b x y = (if b then x else y)"
  by (cases b) simp_all

fun listed_name :: "string list \<Rightarrow> string \<Rightarrow> bool" where
  "listed_name [] c = False"
| "listed_name (d # ds) c = (same_text d c \<or> listed_name ds c)"

lemma listed_iff [simp]: "listed_name cs c \<longleftrightarrow> c \<in> set cs"
  by (induction cs) auto

fun known_table :: "shape \<Rightarrow> string \<Rightarrow> bool" where
  "known_table [] t = False"
| "known_table ((u, cs) # sh) t = (same_text u t \<or> known_table sh t)"

fun known_column :: "shape \<Rightarrow> string \<Rightarrow> string \<Rightarrow> bool"
  and column_at :: "bool \<Rightarrow> string list \<Rightarrow> shape \<Rightarrow> string \<Rightarrow> string \<Rightarrow> bool" where
  "known_column [] t c = False"
| "known_column ((u, cs) # sh) t c = column_at (same_text u t) cs sh t c"
| "column_at True cs sh t c = listed_name cs c"
| "column_at False cs sh t c = known_column sh t c"

fun add_names :: "shape \<Rightarrow> string \<Rightarrow> string list \<Rightarrow> shape"
  and names_at :: "bool \<Rightarrow> string \<Rightarrow> string list \<Rightarrow> shape \<Rightarrow> string \<Rightarrow> string list \<Rightarrow> shape" where
  "add_names [] t ns = []"
| "add_names ((u, cs) # sh) t ns = names_at (same_text u t) u cs sh t ns"
| "names_at True u cs sh t ns = (u, cs @ ns) # sh"
| "names_at False u cs sh t ns = (u, cs) # add_names sh t ns"

lemma known_map_of: "known_table sh t \<longleftrightarrow> map_of sh t \<noteq> None"
  by (induction sh t rule: known_table.induct) auto

lemma column_at_if [simp]: "column_at b cs sh t c = (if b then c \<in> set cs else known_column sh t c)"
  by (cases b) simp_all

lemma known_column_map_of: "known_column sh t c \<longleftrightarrow> (case map_of sh t of None \<Rightarrow> False | Some cs \<Rightarrow> c \<in> set cs)"
  by (induction sh) auto

lemma names_at_if [simp]: "names_at b u cs sh t ns = (if b then (u, cs @ ns) # sh else (u, cs) # add_names sh t ns)"
  by (cases b) simp_all

lemma add_names_entry: "add_names sh t ns = AList.map_entry t (\<lambda>cs. cs @ ns) sh"
  by (induction sh) auto

fun known_targets :: "shape \<Rightarrow> string \<Rightarrow> (string option \<times> constr) list \<Rightarrow> bool" where
  "known_targets sh t [] = True"
| "known_targets sh t ((n, Foreign_key c target) # rest) = ((same_text target t \<or> known_table sh target) \<and> known_targets sh t rest)"
| "known_targets sh t (_ # rest) = known_targets sh t rest"

text \<open>What may be done to the rows of \<open>destinations\<close>.\<close>

definition fits_rows :: "string \<Rightarrow> column \<Rightarrow> bool" where
  "fits_rows t c = (if t = ''destinations'' then
       if col_name c = ''confirmation_state'' then col_default c = Constant (VText ''pending'')
       else if col_not_null c then
         (case col_default c of Constant v \<Rightarrow> if v = VNull then False else col_name c \<noteq> ''paused_until''
          | Now \<Rightarrow> col_name c \<noteq> ''paused_until'' | _ \<Rightarrow> False)
       else col_default c = No_default
     else True)"

definition fits_check :: "string \<Rightarrow> expr \<Rightarrow> bool" where
  "fits_check t e = (if t = ''destinations'' then if e = confirmation_state_check then True else e = pause_window_check else True)"

definition mild :: "row \<Rightarrow> bool" where
  "mild r \<longleftrightarrow> r ''paused_until'' = VNull \<and>
     (r ''confirmation_state'' = VNull \<or> r ''confirmation_state'' = VText ''pending'' \<or> r ''confirmation_state'' = VText ''confirmed'')"

definition mild_rows :: "pg \<Rightarrow> bool" where
  "mild_rows pg \<longleftrightarrow> (\<forall>t. t \<noteq> ''destinations'' \<longrightarrow> pg_rows pg t = []) \<and> list_all mild (pg_rows pg ''destinations'')"

fun allowed_on :: "stmt \<Rightarrow> shape \<Rightarrow> (string \<times> string) list \<Rightarrow> bool" where
  "allowed_on (Create_table t cols cons) sh gone = (known_table sh t \<or> known_targets sh t cons)"
| "allowed_on (Create_index u n t cs w) sh gone =
     (known_table sh t \<and> \<not> (u \<and> same_text t ''destinations'') \<and> list_all (known_column sh t) (index_columns cs w))"
| "allowed_on (Add_column t c) sh gone = (known_table sh t \<and> fits_rows t c)"
| "allowed_on (Drop_constraint t n) sh gone = known_table sh t"
| "allowed_on (Add_check t n e) sh gone =
     (known_table sh t \<and> list_ex (\<lambda>(u, m). same_text m n \<and> same_text u t) gone \<and> fits_check t e \<and> list_all (known_column sh t) (columns_of e))"
| "allowed_on (Drop_index n) sh gone = True"
| "allowed_on (Add_foreign_key_once n t c target) sh gone =
     (\<not> same_text t ''destinations'' \<and> known_table sh target \<and> known_column sh t c)"
| "allowed_on Rename_legacy_events sh gone = (\<not> known_table sh ''events'')"
| "allowed_on Rename_attempt_event sh gone = known_column sh ''delivery_attempts'' ''delivery_id''"
| "allowed_on Arm_handshake sh gone =
     (known_column sh ''destinations'' ''confirmation_state'' \<or>
      (known_table sh ''destinations'' \<and> \<not> list_ex (known_column sh ''destinations'') handshake_names))"

fun reshape :: "stmt \<Rightarrow> shape \<Rightarrow> shape" where
  "reshape (Create_table t cols cons) sh = branch (known_table sh t) sh (sh @ [(t, map col_name cols)])"
| "reshape (Add_column t c) sh = branch (known_column sh t (col_name c)) sh (add_names sh t [col_name c])"
| "reshape Arm_handshake sh = branch (known_column sh ''destinations'' ''confirmation_state'') sh
     (add_names sh ''destinations'' handshake_names)"
| "reshape _ sh = sh"

fun dropped_by :: "stmt \<Rightarrow> (string \<times> string) list \<Rightarrow> (string \<times> string) list" where
  "dropped_by (Drop_constraint t n) gone = (t, n) # gone"
| "dropped_by _ gone = []"

fun shape_exec :: "stmt list \<Rightarrow> shape \<Rightarrow> (string \<times> string) list \<Rightarrow> bool" where
  "shape_exec [] sh gone = True"
| "shape_exec (s # ss) sh gone = (allowed_on s sh gone \<and> shape_exec ss (reshape s sh) (dropped_by s gone))"

definition shape_matches :: "shape \<Rightarrow> (string \<times> string) list \<Rightarrow> pg \<Rightarrow> bool" where
  "shape_matches sh gone pg \<longleftrightarrow> shape_of (pg_catalogue pg) = sh \<and> mild_rows pg \<and>
     list_all (\<lambda>(t, n). constraint_of (pg_catalogue pg) t n = None) gone"

lemma map_of_shape: "map_of (shape_of ct) t = map_option (\<lambda>td. map col_name (td_columns td)) (map_of (ct_tables ct) t)"
proof -
  have "map_of (map (\<lambda>(t, td). (t, map col_name (td_columns td))) xs) t =
      map_option (\<lambda>td. map col_name (td_columns td)) (map_of xs t)" for xs :: "(string \<times> table_def) list"
    by (induction xs) auto
  then show ?thesis by (simp add: shape_of_def)
qed

lemma known_shape [simp]: "known_table (shape_of ct) t = has_table ct t"
  by (simp add: known_map_of map_of_shape has_table_def)

lemma known_column_shape [simp]: "known_column (shape_of ct) t c = has_column ct t c"
  by (simp add: known_column_map_of map_of_shape has_column_def column_names_def split: option.split)

lemma known_targets_shape:
  "known_targets (shape_of ct) t cons \<longleftrightarrow>
     list_all (\<lambda>(_, c). case c of Foreign_key _ target \<Rightarrow> target = t \<or> has_table ct target | _ \<Rightarrow> True) cons"
proof (induction cons)
  case (Cons nc cons)
  then show ?case by (cases nc; cases "snd nc") auto
qed simp

lemma shape_alter:
  assumes "\<And>td. map col_name (td_columns (f td)) = g (map col_name (td_columns td))"
  shows "shape_of (alter t f ct) = AList.map_entry t g (shape_of ct)"
proof -
  have "map (\<lambda>(t, td). (t, map col_name (td_columns td))) (AList.map_entry t f xs) =
      AList.map_entry t g (map (\<lambda>(t, td). (t, map col_name (td_columns td))) xs)" for xs
    by (induction xs) (auto simp: assms)
  then show ?thesis by (simp add: shape_of_def alter_def)
qed

lemma map_entry_id: "AList.map_entry t (\<lambda>x. x) xs = xs"
  by (induction xs) auto

lemma shape_alter_constraint [simp]:
  "shape_of (alter t (drop_constraint n) ct) = shape_of ct" "shape_of (alter t (add_constraint n c) ct) = shape_of ct"
  by (simp_all add: shape_alter [where g = "\<lambda>x. x"] map_entry_id)

lemma shape_tables [simp]: "shape_of (ct\<lparr>ct_indexes := is\<rparr>) = shape_of ct"
  by (simp add: shape_of_def)


lemma mild_checks: "mild r \<Longrightarrow> fits_check ''destinations'' e \<Longrightarrow> \<not> violates e r"
  by (auto simp: mild_def fits_check_def violates_def confirmation_state_check_def pause_window_check_def split: if_splits)

lemma fits_default: "fits_rows ''destinations'' c \<Longrightarrow> col_not_null c \<longrightarrow> default_value now (col_default c) \<noteq> VNull"
  by (auto simp: fits_rows_def default_value_def split: default.splits if_splits)

lemma fits_mild: "fits_rows ''destinations'' c \<Longrightarrow> mild r \<Longrightarrow> mild (r(col_name c := default_value now (col_default c)))"
  by (auto simp: fits_rows_def mild_def default_value_def split: default.splits if_splits)

lemma mild_rows_update:
  assumes "mild_rows pg" and "\<And>r. t = ''destinations'' \<Longrightarrow> mild r \<Longrightarrow> mild (f r)"
    and "pg_rows pg' = (pg_rows pg)(t := map f (pg_rows pg t))"
  shows "mild_rows pg'"
  using assms(1,2) by (auto simp: mild_rows_def list_all_iff assms(3))

lemma mild_rows_same: "mild_rows pg \<Longrightarrow> pg_rows pg' = pg_rows pg \<Longrightarrow> mild_rows pg'"
  by (simp add: mild_rows_def)

lemma add_column_runs:
  assumes "mild_rows pg" and "has_table (pg_catalogue pg) t" and "\<not> has_column (pg_catalogue pg) t (col_name c)"
    and "fits_rows t c"
  shows "\<exists>p. add_column now t c pg = Inr p \<and> mild_rows p \<and>
    shape_of (pg_catalogue p) = AList.map_entry t (\<lambda>cs. cs @ [col_name c]) (shape_of (pg_catalogue pg))"
proof -
  have "pg_rows pg t \<noteq> [] \<Longrightarrow> t = ''destinations''" using assms(1) by (auto simp: mild_rows_def)
  then have "\<exists>p. add_column now t c pg = Inr p"
    using assms(2,3,4) fits_default by (fastforce simp: add_column_def)
  then obtain p where p: "add_column now t c pg = Inr p" by blast
  have "mild_rows p"
    by (rule mild_rows_update [OF assms(1) _ add_column_Inr(4) [OF p]]) (use fits_mild assms(4) in blast)
  moreover have "shape_of (pg_catalogue p) = AList.map_entry t (\<lambda>cs. cs @ [col_name c]) (shape_of (pg_catalogue pg))"
    unfolding add_column_Inr(3) [OF p] by (rule shape_alter) simp
  ultimately show ?thesis using p by blast
qed

lemma add_columns_run:
  "mild_rows pg \<Longrightarrow> has_table (pg_catalogue pg) t \<Longrightarrow> list_all (\<lambda>c. \<not> has_column (pg_catalogue pg) t (col_name c)) cs \<Longrightarrow>
     distinct (map col_name cs) \<Longrightarrow> list_all (fits_rows t) cs \<Longrightarrow>
   \<exists>p. add_columns now t cs pg = Inr p \<and> mild_rows p \<and>
     shape_of (pg_catalogue p) = AList.map_entry t (\<lambda>ns. ns @ map col_name cs) (shape_of (pg_catalogue pg))"
proof (induction cs arbitrary: pg)
  case Nil
  then show ?case by (simp add: map_entry_id)
next
  case (Cons c cs)
  obtain p where p: "add_column now t c pg = Inr p" and mild: "mild_rows p"
      and shape: "shape_of (pg_catalogue p) = AList.map_entry t (\<lambda>cs. cs @ [col_name c]) (shape_of (pg_catalogue pg))"
    using add_column_runs [of pg t c now] Cons.prems by auto
  have "has_table (pg_catalogue p) t"
    using add_column_keeps [OF p, of "Has_table t"] Cons.prems(2) by simp
  moreover have "list_all (\<lambda>c. \<not> has_column (pg_catalogue p) t (col_name c)) cs"
    using Cons.prems(3,4)
    by (auto simp: add_column_Inr(3) [OF p] list_all_iff has_column_case map_of_alter rev_image_eqI split: option.splits)
  ultimately obtain q where "add_columns now t cs p = Inr q" "mild_rows q"
      "shape_of (pg_catalogue q) = AList.map_entry t (\<lambda>ns. ns @ map col_name cs) (shape_of (pg_catalogue p))"
    using Cons.IH [OF mild] Cons.prems(4,5) by auto
  then show ?case using p by (simp add: shape map_entry_twice comp_def)
qed

lemma handshake_fits: "list_all (fits_rows ''destinations'') handshake_columns" "distinct (map col_name handshake_columns)"
  by code_simp+

lemma shape_create_table:
  "create_table t cols cons pg = Inr p \<Longrightarrow> \<not> has_table (pg_catalogue pg) t \<Longrightarrow>
     shape_of (pg_catalogue p) = shape_of (pg_catalogue pg) @ [(t, map col_name cols)]"
  by (auto simp: create_table_def Let_def shape_of_def split: if_splits)

lemma arm_runs:
  assumes "mild_rows pg" and "has_table (pg_catalogue pg) ''destinations''"
    and "\<not> list_ex (has_column (pg_catalogue pg) ''destinations'') handshake_names"
  shows "\<exists>p. arm_handshake now pg = Inr p \<and> mild_rows p \<and>
    shape_of (pg_catalogue p) = AList.map_entry ''destinations'' (\<lambda>cs. cs @ handshake_names) (shape_of (pg_catalogue pg))"
proof -
  have absent: "list_all (\<lambda>c. \<not> has_column (pg_catalogue pg) ''destinations'' (col_name c)) handshake_columns"
    using assms(3) by (auto simp: handshake_names_def list_ex_iff list_all_iff)
  have "\<not> has_column (pg_catalogue pg) ''destinations'' ''confirmation_state''"
    using assms(3) handshake_named(1) by (auto simp: list_ex_iff List.member_iff)
  moreover obtain p where "add_columns now ''destinations'' handshake_columns pg = Inr p" and mild: "mild_rows p"
      and "shape_of (pg_catalogue p) = AList.map_entry ''destinations'' (\<lambda>ns. ns @ map col_name handshake_columns) (shape_of (pg_catalogue pg))"
    using add_columns_run [OF assms(1,2) absent handshake_fits(2,1)] by blast
  moreover have "mild_rows (p\<lparr>pg_rows := (pg_rows p)(''destinations'' := map (confirmed_legacy now) (pg_rows p ''destinations''))\<rparr>)"
    by (rule mild_rows_update [OF mild]) (auto simp: mild_def confirmed_legacy_def)
  ultimately show ?thesis by (simp add: arm_handshake_def Let_def handshake_names_def)
qed


lemma known_column_eta: "list_all (known_column (shape_of ct) t) cs = list_all (has_column ct t) cs"
  "list_ex (known_column (shape_of ct) t) cs = list_ex (has_column ct t) cs"
  by (simp_all add: list_all_iff list_ex_iff)

lemma exec1_allowed:
  assumes "allowed_on s sh gone" and "shape_matches sh gone pg"
  shows "\<exists>pg'. exec1 now s pg = Inr pg' \<and> shape_matches (reshape s sh) (dropped_by s gone) pg'"
proof -
  have sh: "sh = shape_of (pg_catalogue pg)" and mild: "mild_rows pg"
    and gone: "list_all (\<lambda>(t, n). constraint_of (pg_catalogue pg) t n = None) gone"
    using assms(2) by (auto simp: shape_matches_def)
  have empty: "pg_rows pg t = []" if "t \<noteq> ''destinations''" for t using mild that by (simp add: mild_rows_def)
  show ?thesis
  proof (cases s)
    case (Create_table t cols cons)
    show ?thesis
    proof (cases "has_table (pg_catalogue pg) t")
      case True
      then show ?thesis using sh mild Create_table by (auto simp: create_table_def Let_def shape_matches_def)
    next
      case False
      then obtain p where p: "create_table t cols cons pg = Inr p"
        using assms(1) Create_table sh by (auto simp: create_table_def Let_def known_targets_shape)
      have "mild_rows p" using p False mild by (auto simp: create_table_def Let_def mild_rows_def split: if_splits)
      then show ?thesis using p False sh Create_table shape_create_table [OF p] by (simp add: shape_matches_def)
    qed
  next
    case (Create_index u n t cs w)
    have c: "has_table (pg_catalogue pg) t" "u \<longrightarrow> t \<noteq> ''destinations''"
        "list_all (has_column (pg_catalogue pg) t) (index_columns cs w)"
      using assms(1) sh Create_index by (auto simp: known_column_eta)
    have "u \<longrightarrow> unique_on cs w (pg_rows pg t)" using c(2) empty [of t] by (simp add: unique_on_def)
    then show ?thesis using c sh mild Create_index
      by (auto simp: create_index_def Let_def shape_matches_def intro: mild_rows_same)
  next
    case (Add_column t c)
    then show ?thesis using assms(1) sh mild add_column_runs [of pg t c now] by (auto simp: shape_matches_def add_names_entry)
  next
    case (Drop_constraint t n)
    have "constraint_of (alter t (drop_constraint n) (pg_catalogue pg)) u m = None"
      if "constraint_of (pg_catalogue pg) u m = None \<or> (u = t \<and> m = n)" for u m
      using that by (auto simp: constraint_of_def map_of_alter split: option.splits)
    then show ?thesis using assms(1) sh mild gone Drop_constraint
      by (auto simp: shape_matches_def list_all_iff intro: mild_rows_same)
  next
    case (Add_check t n e)
    have c: "has_table (pg_catalogue pg) t" "(t, n) \<in> set gone" "fits_check t e"
        "list_all (has_column (pg_catalogue pg) t) (columns_of e)"
      using assms(1) sh Add_check by (auto simp: known_column_eta list_ex_iff)
    have "\<not> list_ex (violates e) (pg_rows pg t)"
      using empty [of t] mild mild_checks c(3) by (cases "t = ''destinations''") (auto simp: mild_rows_def list_ex_iff list_all_iff)
    moreover have "constraint_of (pg_catalogue pg) t n = None"
      using gone c(2) by (auto simp: list_all_iff)
    ultimately show ?thesis using c sh mild Add_check
      by (auto simp: add_check_def Let_def shape_matches_def intro: mild_rows_same)
  next
    case (Add_foreign_key_once n t c target)
    then show ?thesis using assms(1) sh mild empty [of t] column_has_table [of "pg_catalogue pg" t c]
      by (auto simp: add_foreign_key_def Let_def shape_matches_def intro: mild_rows_same)
  next
    case Arm_handshake
    then show ?thesis using assms(1) sh mild arm_runs [OF mild, of now]
      by (auto simp: shape_matches_def arm_handshake_def Let_def known_column_eta add_names_entry)
  qed (use assms(1) sh mild in \<open>auto simp: shape_matches_def rename_legacy_events_def rename_attempt_event_def Let_def
        intro: mild_rows_same\<close>)
qed

lemma exec_allowed:
  "shape_exec ss sh gone \<Longrightarrow> shape_matches sh gone pg \<Longrightarrow>
     \<exists>pg'. exec now ss pg = Inr pg' \<and> shape_matches (fold reshape ss sh) (fold dropped_by ss gone) pg'"
proof (induction ss arbitrary: sh gone pg)
  case (Cons s ss)
  have s: "allowed_on s sh gone" and ss: "shape_exec ss (reshape s sh) (dropped_by s gone)"
    using Cons.prems(1) by simp_all
  obtain p where "exec1 now s pg = Inr p" "shape_matches (reshape s sh) (dropped_by s gone) p"
    using exec1_allowed [OF s Cons.prems(2)] by blast
  then show ?case using Cons.IH [OF ss] by auto
qed simp

lemma shape_exec_append:
  "shape_exec (xs @ ys) sh gone \<longleftrightarrow> shape_exec xs sh gone \<and> shape_exec ys (fold reshape xs sh) (fold dropped_by xs gone)"
  by (induction xs arbitrary: sh gone) auto

text \<open>The list is taken in three parts, from no table and from a table of before the handshake.\<close>

definition first_part :: "stmt list" where
  "first_part = statements_before_handshake"

definition second_part :: "stmt list" where
  "second_part = Arm_handshake # handshake_checks @ dead_letter_upgrade @ observer_upgrade @ filter_upgrade"

definition third_part :: "stmt list" where
  "third_part = corrections_upgrade @ relay_upgrade @ deadline_upgrade"

lemma parts: "schema_statements = first_part @ second_part @ third_part"
  by (simp add: schema_statements_def first_part_def second_part_def third_part_def statements_after_handshake_def)

definition legacy_shape :: shape where
  "legacy_shape = [(''destinations'', [''id'', ''url'', ''status'', ''failure_count'', ''next_event_seq'', ''recoverable_at'', ''created_at''])]"

lemma no_table_parts:
  "shape_exec first_part [] []" "shape_exec second_part (fold reshape first_part []) []"
  "shape_exec third_part (fold reshape (first_part @ second_part) []) []"
  by code_simp+

lemma legacy_parts:
  "shape_exec first_part legacy_shape []" "shape_exec second_part (fold reshape first_part legacy_shape) []"
  "shape_exec third_part (fold reshape (first_part @ second_part) legacy_shape) []"
  by code_simp+

lemma parts_end: "fold dropped_by first_part [] = []" "fold dropped_by second_part [] = []"
  by code_simp+

lemma no_table_allowed: "shape_exec schema_statements [] []"
  using no_table_parts by (simp add: parts shape_exec_append parts_end)

lemma legacy_allowed: "shape_exec schema_statements legacy_shape []"
  using legacy_parts by (simp add: parts shape_exec_append parts_end)

definition table_names :: "string list" where
  "table_names = [''destinations'', ''confirmation_attempts'', ''event_type_ack_thresholds'', ''events'', ''deliveries'',
     ''event_type_preview_policies'', ''release_gate_decisions'', ''receipts'', ''event_sources'', ''ingestion_attempts'',
     ''destination_subscriptions'', ''subscription_filter_evaluations'', ''delivery_attempts'', ''relay_chains'',
     ''relay_chain_stations'']"

lemma final_names: "map fst (fold reshape schema_statements []) = table_names"
  by code_simp

lemma exec1_no_rows: "exec1 now s pg = Inr pg' \<Longrightarrow> pg_rows pg = (\<lambda>_. []) \<Longrightarrow> pg_rows pg' = (\<lambda>_. [])"
proof -
  have columns: "pg_rows p = (\<lambda>_. [])" if "add_columns now t cs pg = Inr p" "pg_rows pg = (\<lambda>_. [])" for t cs p pg
    using that
  proof (induction cs arbitrary: pg)
    case (Cons c cs)
    obtain q where "add_column now t c pg = Inr q" and "add_columns now t cs q = Inr p"
      using Cons.prems(1) by (auto split: sum.splits)
    then show ?case using Cons.IH Cons.prems(2) by (simp add: add_column_Inr fun_eq_iff)
  qed simp
  assume "exec1 now s pg = Inr pg'" and "pg_rows pg = (\<lambda>_. [])"
  then show ?thesis
    by (cases s) (auto simp: create_table_def create_index_def add_check_def add_foreign_key_def add_column_Inr Let_def
        rename_legacy_events_def rename_attempt_event_def arm_handshake_def fun_eq_iff columns split: if_splits sum.splits)
qed

lemma exec_no_rows: "exec now ss pg = Inr pg' \<Longrightarrow> pg_rows pg = (\<lambda>_. []) \<Longrightarrow> pg_rows pg' = (\<lambda>_. [])"
  by (induction ss arbitrary: pg) (auto split: sum.splits dest: exec1_no_rows)

theorem init_db_first:
  "\<exists>pg. init_db now empty_pg = Inr pg \<and> map fst (ct_tables (pg_catalogue pg)) = table_names \<and> pg_rows pg = (\<lambda>_. [])"
proof -
  have "shape_matches [] [] empty_pg"
    by (simp add: shape_matches_def empty_pg_def shape_of_def mild_rows_def)
  then obtain pg where pg: "exec now schema_statements empty_pg = Inr pg"
      and m: "shape_matches (fold reshape schema_statements []) (fold dropped_by schema_statements []) pg"
    using exec_allowed [OF no_table_allowed] by blast
  have "map fst (ct_tables (pg_catalogue pg)) = map fst (shape_of (pg_catalogue pg))"
    by (simp add: shape_of_def comp_def split_def)
  then have "map fst (ct_tables (pg_catalogue pg)) = table_names"
    using m final_names by (simp add: shape_matches_def)
  moreover have "pg_rows pg = (\<lambda>_. [])"
    by (rule exec_no_rows [OF pg]) (simp add: empty_pg_def)
  ultimately show ?thesis using pg by (auto simp: init_db_def)
qed

end
