(* ===== verification/Exchange_Samples.thy ===== *)
theory Exchange_Samples
  imports Request_Samples Exchange First_Start
begin

text \<open>
  Concrete parties on which the witnesses of the properties that span the service, its clients and
  its database evaluate.
\<close>

section \<open>The service and the receiver\<close>

definition sample_coercions :: coercions where
  "sample_coercions = \<lparr>co_uuid = (\<lambda>v. case v of JStr t \<Rightarrow> py_int t | _ \<Rightarrow> None),
     co_url = (\<lambda>v. case v of JStr t \<Rightarrow> Some t | _ \<Rightarrow> None), co_datetime = (\<lambda>_. None),
     co_bool = (\<lambda>v. case v of JBool b \<Rightarrow> Some b | _ \<Rightarrow> None), co_int = (\<lambda>v. case v of JInt n \<Rightarrow> Some n | _ \<Rightarrow> None)\<rparr>"

definition sample_draws :: "time \<Rightarrow> draws" where
  "sample_draws now = \<lparr>dr_now = now, dr_clock = now, dr_id = 80, dr_ids = (\<lambda>n. 300 + n),
     dr_pairs = (\<lambda>n. (500 + n, 600 + n)), dr_token = ''fresh''\<rparr>"

definition sample_receiver :: receiver_config where
  "sample_receiver = \<lparr>rc_fail_times = 0, rc_receipt_url = Some ''http://relay/v1/receipts'', rc_receipt_result = Success,
     rc_auto_confirm = True, rc_ingest_url = Some ''http://relay'', rc_preview_decision = Some Approve\<rparr>"

definition sample_dumps :: "json \<Rightarrow> string" where
  "sample_dumps v = ''{}''"

definition sample_call :: "callback list \<Rightarrow> time \<Rightarrow> database \<Rightarrow> answered" where
  "sample_call callbacks now db =
     serve sample_coercions sample_runtime default_settings (sample_draws now) (call_of sample_dumps (hd callbacks)) db"

section \<open>A delivery and its receipt\<close>

definition delivery_told :: handled where
  "delivery_told = do_POST sample_receiver (delivery_post show_nat (message_of sample_claim)) fresh_receiver"

definition delivery_result :: "worker_error + bool \<times> database" where
  "delivery_result = record_result 12 12 default_settings 0 sample_claim
     (send_result_of default_settings 10 11 (Response 200 (sample_dumps (snd (the (fst delivery_told)))))) False in_flight_db"

lemma delivery_told_200: "map_option fst (fst delivery_told) = Some 200"
  by code_simp

lemma delivery_told_eq: "delivery_told = (Some (200, snd (the (fst delivery_told))), fst (snd delivery_told), snd (snd delivery_told))"
  using delivery_told_200 by (auto simp: prod_eq_iff)

lemma delivery_result_Inr: "delivery_result = Inr (run_value delivery_result, run_state delivery_result)"
proof -
  have "run_ok delivery_result" by code_simp
  then show ?thesis by (rule run_Inr)
qed

lemma in_flight_consistent: "db_ok in_flight_db" "claim_matches sample_claim in_flight_db"
  by code_simp+

section \<open>A preview and the answer to it\<close>

definition preview_claim :: claim where
  "preview_claim = sample_claim\<lparr>cl_row := claim_row 10 default_settings 99
     ((sample_copy 3 7 3)\<lparr>d_phase := Preview, d_body_delivery_id := Some 4, d_consent_timeout_seconds := Some 60\<rparr>)\<rparr>"

definition waiting_body :: delivery where
  "waiting_body = (sample_copy 4 7 4)\<lparr>d_release_state := Some Held, d_preview_delivery_id := Some 3,
     d_consent_timeout_seconds := Some 60\<rparr>"

definition preview_db :: database where
  "preview_db = database_of [cl_row preview_claim, waiting_body]"

definition preview_told :: handled where
  "preview_told = do_POST sample_receiver (delivery_post show_nat (message_of preview_claim)) fresh_receiver"

definition preview_result :: "worker_error + bool \<times> database" where
  "preview_result = record_result 12 12 default_settings 0 preview_claim
     (send_result_of default_settings 10 11 (http_answer_of sample_dumps ''dropped'' preview_told)) False preview_db"

lemma preview_result_Inr: "preview_result = Inr (run_value preview_result, run_state preview_result)"
proof -
  have "run_ok preview_result" by code_simp
  then show ?thesis by (rule run_Inr)
qed

lemma preview_db_facts:
  "keys_ok preview_db" "still_owns_lease preview_claim preview_db"
  "find_delivery preview_db (d_id (cl_row preview_claim)) = Some (cl_row preview_claim)"
  "find_delivery preview_db (d_id waiting_body) = Some waiting_body"
  "gate_body preview_db 50 7 = Some waiting_body"
  "release_gate_decisions preview_db = []"
  by code_simp+

lemma preview_rows:
  "d_phase (cl_row preview_claim) = Preview" "d_deliver_by (cl_row preview_claim) = None"
  "d_body_delivery_id (cl_row preview_claim) = Some 4" "d_id (cl_row preview_claim) = 3"
  "d_event_id (cl_row preview_claim) = Some 50" "d_destination_id (cl_row preview_claim) = 7"
  "d_id waiting_body = 4" "d_phase waiting_body = Body" "d_status waiting_body = Pending"
  "d_release_state waiting_body = Some Held" "d_preview_delivery_id waiting_body = Some 3"
  "d_consent_timeout_seconds waiting_body = Some 60"
  by code_simp+

section \<open>A signed push\<close>

text \<open>A runtime whose digest is hexadecimal, as the library's is.\<close>

definition hex_runtime :: runtime where
  "hex_runtime = sample_runtime\<lparr>rt_hmac := (\<lambda>secret message. show_nat (length secret + length message))\<rparr>"

definition sample_push :: push_args where
  "sample_push = \<lparr>pa_source_id = ''90'', pa_secret = Some ''key'', pa_event_type = ''order'', pa_dedupe_key = ''k1'',
     pa_payload = ''body'', pa_preview_payload = None, pa_not_before = None, pa_deliver_by = None, pa_signed_at = None\<rparr>"

definition client_request :: "int + request" where
  "client_request = push_request hex_runtime sample_dumps None 3000000 sample_push"

definition request_of :: "int + request \<Rightarrow> request" where
  "request_of out = (case out of Inl _ \<Rightarrow> undefined | Inr rq \<Rightarrow> rq)"

lemma request_of_Inr: "(case out of Inl _ \<Rightarrow> False | Inr _ \<Rightarrow> True) \<Longrightarrow> out = Inr (request_of out)"
  by (cases out) (simp_all add: request_of_def)

lemma client_request_Inr: "push_request hex_runtime sample_dumps None 3000000 sample_push = Inr (request_of client_request)"
proof -
  have "case client_request of Inl _ \<Rightarrow> False | Inr _ \<Rightarrow> True" by code_simp
  from request_of_Inr [OF this] show ?thesis by (simp only: client_request_def)
qed

lemma registered_source:
  "find_source subscribed_db 90 = Some sample_source" "src_disabled_at sample_source = None" "src_secret sample_source = ''key''"
  by code_simp+

section \<open>A probe\<close>

definition sample_probe :: probe where
  "sample_probe = \<lparr>pr_destination = 7, pr_url = ''https://a'', pr_challenge = Some ''tok'', pr_round = 1\<rparr>"

definition open_destination :: destination where
  "open_destination = (sample_destination 7)\<lparr>dest_confirmation_state := Conf_pending,
     dest_challenge_token := Some ''tok'', dest_challenge_expires_at := Some 100\<rparr>"

definition probe_told :: handled where
  "probe_told = do_POST sample_receiver (probe_post show_nat sample_probe) fresh_receiver"

lemma open_destination_found: "find_destination unconfirmed_db 7 = Some open_destination"
  by code_simp

section \<open>A pass of the worker\<close>

definition sample_pass :: pass where
  "sample_pass = \<lparr>ps_now = 10, ps_token = 99, ps_pick = (\<lambda>_. True), ps_locked_dest = (\<lambda>_. False), ps_locked_row = (\<lambda>_. False),
     ps_send = (\<lambda>_. Response 200 ''ok''), ps_started = 10, ps_finished = 11, ps_meanwhile = perform (Cancel_event 11 51), ps_lost = False,
     ps_result_now = 12, ps_clock = 12, ps_jitter = 0\<rparr>"

lemma sample_pass_others: "others_run default_settings sample_pass cs db"
  unfolding others_run_def
proof (intro allI impI)
  fix c db1
  have "step \<lparr>sys_db = db1, sys_claims = c # cs\<rparr> \<lparr>sys_db = perform (Cancel_event 11 51) db1, sys_claims = c # cs\<rparr>"
    using step.transact [of "\<lparr>sys_db = db1, sys_claims = c # cs\<rparr>" "Cancel_event 11 51"] by (simp del: perform.simps)
  then show "step\<^sup>*\<^sup>* \<lparr>sys_db = db1, sys_claims = c # cs\<rparr> \<lparr>sys_db = ps_meanwhile sample_pass db1, sys_claims = c # cs\<rparr>"
    by (simp add: sample_pass_def)
qed

section \<open>Databases of before the handshake\<close>

definition legacy_row :: row where
  "legacy_row = (\<lambda>_. VNull)(''id'' := VUuid 7, ''url'' := VText ''https://a'', ''status'' := VText ''active'',
     ''failure_count'' := VInt 0, ''next_event_seq'' := VInt 3, ''created_at'' := VTime 0)"

definition legacy_pg :: pg where
  "legacy_pg = \<lparr>pg_catalogue = \<lparr>ct_tables = [(''destinations'',
       \<lparr>td_columns = [id_column, required_column ''url'' Ty_text, word_column ''status'' ''active'', counter_column ''failure_count'' Ty_integer 0,
          counter_column ''next_event_seq'' Ty_bigint 0, nullable_column ''recoverable_at'' Ty_timestamptz, stamp_column ''created_at''],
        td_constraints = [''destinations_pkey'' \<mapsto> Primary_key [''id''], ''destinations_url_key'' \<mapsto> Unique [''url'']]\<rparr>)],
      ct_indexes = []\<rparr>,
     pg_rows = (\<lambda>_. [])(''destinations'' := [legacy_row])\<rparr>"

lemma legacy_matches: "shape_matches legacy_shape [] legacy_pg"
proof -
  have "shape_of (pg_catalogue legacy_pg) = legacy_shape" by code_simp
  moreover have "mild_rows legacy_pg"
    by (auto simp: mild_rows_def legacy_pg_def legacy_row_def mild_def)
  ultimately show ?thesis by (simp add: shape_matches_def)
qed

lemma legacy_starts: "\<exists>pg. init_db 5 legacy_pg = Inr pg"
  using exec_allowed [OF legacy_allowed legacy_matches, of 5] by (auto simp: init_db_def)

lemma legacy_columns:
  "has_table (pg_catalogue legacy_pg) ''destinations''"
  "\<not> has_column (pg_catalogue legacy_pg) ''destinations'' ''confirmation_state''"
  "has_column (pg_catalogue legacy_pg) ''destinations'' ''url''"
  by code_simp+

end
