(* ===== verification/Rows.thy ===== *)
theory Rows
  imports Migrations Schema
begin

text \<open>
  The records of Schema as rows of the tables app/models.py creates: the word each enumeration is
  stored as, and per table the cells of a row, column by column in the order of the CREATE TABLE.
  The catalogue of Migrations speaks of these rows, and so do the responses of the service.
\<close>

section \<open>Words\<close>

fun destination_status_word :: "destination_status \<Rightarrow> string" where
  "destination_status_word Active = ''active''"
| "destination_status_word Isolated = ''isolated''"

fun confirmation_word :: "confirmation_state \<Rightarrow> string" where
  "confirmation_word Conf_pending = ''pending''"
| "confirmation_word Confirmed = ''confirmed''"

fun status_word :: "delivery_status \<Rightarrow> string" where
  "status_word Pending = ''pending''"
| "status_word In_flight = ''in_flight''"
| "status_word Delivered = ''delivered''"
| "status_word Cancelled = ''cancelled''"
| "status_word Superseded = ''superseded''"
| "status_word Dead_lettered = ''dead_lettered''"
| "status_word Failed = ''failed''"
| "status_word Release_denied = ''release_denied''"
| "status_word Release_expired = ''release_expired''"
| "status_word Release_voided = ''release_voided''"
| "status_word Relay_skipped = ''relay_skipped''"
| "status_word Deadline_expired = ''deadline_expired''"

fun phase_word :: "phase \<Rightarrow> string" where
  "phase_word Preview = ''preview''"
| "phase_word Body = ''body''"

fun release_word :: "release_state \<Rightarrow> string" where
  "release_word Held = ''held''"
| "release_word Released = ''released''"
| "release_word Denied = ''release_denied''"
| "release_word Expired = ''release_expired''"
| "release_word Voided = ''release_voided''"
| "release_word Cutoff_expired = ''deadline_expired''"

fun reconcile_word :: "reconcile_state \<Rightarrow> string" where
  "reconcile_word Rec_none = ''none''"
| "reconcile_word Awaiting = ''awaiting''"
| "reconcile_word Acknowledged = ''acknowledged''"
| "reconcile_word Receipt_failed = ''receipt_failed''"
| "reconcile_word Timed_out = ''timed_out''"

fun result_word :: "receipt_result \<Rightarrow> string" where
  "result_word Success = ''success''"
| "result_word Failure = ''failure''"

fun dead_letter_word :: "dead_letter_reason \<Rightarrow> string" where
  "dead_letter_word Delivery_attempts_exhausted = ''delivery_attempts_exhausted''"
| "dead_letter_word Receipt_timeout_exhausted = ''receipt_timeout_exhausted''"
| "dead_letter_word Receipt_failure_exhausted = ''receipt_failure_exhausted''"

fun skip_word :: "relay_skip_reason \<Rightarrow> string" where
  "skip_word (Skip_dead_letter r) = dead_letter_word r"
| "skip_word Skip_receipt_failed = ''receipt_failed''"
| "skip_word Skip_receipt_timeout = ''receipt_timeout''"
| "skip_word Skip_superseded = ''superseded''"
| "skip_word Skip_deliver_by_expired = ''deliver_by_expired''"

fun void_word :: "void_reason \<Rightarrow> string" where
  "void_word Void_manual = ''manual''"
| "void_word Void_preview_dead_lettered = ''preview_dead_lettered''"
| "void_word Void_preview_superseded = ''preview_superseded''"
| "void_word Void_preview_deadline_expired = ''preview_deadline_expired''"
| "void_word Void_deliver_by_expired = ''deliver_by_expired''"

fun receipt_disposition_word :: "receipt_disposition \<Rightarrow> string" where
  "receipt_disposition_word Receipt_applied = ''applied''"
| "receipt_disposition_word Receipt_duplicate = ''duplicate''"
| "receipt_disposition_word Receipt_late = ''late''"
| "receipt_disposition_word Receipt_orphan = ''orphan''"
| "receipt_disposition_word Receipt_premature = ''premature''"

fun ingest_word :: "ingest_disposition \<Rightarrow> string" where
  "ingest_word Accepted = ''accepted''"
| "ingest_word Unrouted = ''unrouted''"
| "ingest_word Pending_confirmation = ''pending_confirmation''"
| "ingest_word Filtered = ''filtered''"
| "ingest_word Duplicate_event = ''duplicate''"
| "ingest_word Source_unknown = ''source_unknown''"
| "ingest_word Source_disabled = ''source_disabled''"
| "ingest_word Bad_signature = ''bad_signature''"
| "ingest_word Stale_timestamp = ''stale_timestamp''"
| "ingest_word Future_timestamp = ''future_timestamp''"
| "ingest_word Invalid_timestamp = ''invalid_timestamp''"
| "ingest_word Invalid_body = ''invalid_body''"

section \<open>Rows\<close>

type_synonym cells = "(string \<times> val) list"

definition row_of :: "cells \<Rightarrow> row" where
  "row_of cs c = (case map_of cs c of None \<Rightarrow> VNull | Some v \<Rightarrow> v)"

definition nullable :: "('a \<Rightarrow> val) \<Rightarrow> 'a option \<Rightarrow> val" where
  "nullable f x = (case x of None \<Rightarrow> VNull | Some y \<Rightarrow> f y)"

lemma nullable_simps [simp]: "nullable f None = VNull" "nullable f (Some y) = f y"
  by (simp_all add: nullable_def)

definition destination_cells :: "destination \<Rightarrow> cells" where
  "destination_cells d =
     [(''id'', VUuid (dest_id d)), (''url'', VText (dest_url d)),
      (''status'', VText (destination_status_word (dest_status d))), (''failure_count'', VInt (dest_failure_count d)),
      (''next_event_seq'', VInt (dest_next_event_seq d)), (''recoverable_at'', nullable VTime (dest_recoverable_at d)),
      (''created_at'', VTime (dest_created_at d)),
      (''confirmation_state'', VText (confirmation_word (dest_confirmation_state d))),
      (''challenge_token'', nullable VText (dest_challenge_token d)),
      (''challenge_expires_at'', nullable VTime (dest_challenge_expires_at d)),
      (''confirmed_at'', nullable VTime (dest_confirmed_at d)),
      (''confirmation_generation'', VInt (dest_confirmation_generation d)),
      (''confirmation_round'', VInt (dest_confirmation_round d)),
      (''confirmation_attempt_count'', VInt (dest_confirmation_attempt_count d)),
      (''next_probe_at'', VTime (dest_next_probe_at d)), (''observe_only'', VBool (dest_observe_only d)),
      (''paused_from'', nullable VTime (dest_paused_from d)), (''paused_until'', nullable VTime (dest_paused_until d))]"

definition delivery_cells :: "delivery \<Rightarrow> cells" where
  "delivery_cells d =
     [(''id'', VUuid (d_id d)), (''event_id'', nullable VUuid (d_event_id d)),
      (''destination_id'', VUuid (d_destination_id d)), (''event_type'', nullable VText (d_event_type d)),
      (''dedupe_key'', VText (d_dedupe_key d)), (''payload'', VJson (d_payload d)),
      (''destination_seq'', VInt (d_destination_seq d)), (''status'', VText (status_word (d_status d))),
      (''attempts'', VInt (d_attempts d)), (''claim_token'', nullable VUuid (d_claim_token d)),
      (''claimed_at'', nullable VTime (d_claimed_at d)), (''lease_until'', nullable VTime (d_lease_until d)),
      (''next_attempt_at'', VTime (d_next_attempt_at d)), (''not_before'', nullable VTime (d_not_before d)),
      (''deliver_by'', nullable VTime (d_deliver_by d)), (''last_error'', nullable VText (d_last_error d)),
      (''created_at'', VTime (d_created_at d)), (''updated_at'', VTime (d_updated_at d)),
      (''delivered_at'', nullable VTime (d_delivered_at d)),
      (''deliver_by_expired_at'', nullable VTime (d_deliver_by_expired_at d)),
      (''reconcile_state'', VText (reconcile_word (d_reconcile_state d))),
      (''reconcile_deadline'', nullable VTime (d_reconcile_deadline d)),
      (''reconciled_at'', nullable VTime (d_reconciled_at d)),
      (''receipt_result'', nullable (\<lambda>r. VText (result_word r)) (d_receipt_result d)),
      (''receipt_id'', nullable VUuid (d_receipt_id d)), (''requeue_count'', VInt (d_requeue_count d)),
      (''consecutive_failures'', VInt (d_consecutive_failures d)),
      (''dead_letter_reason'', nullable (\<lambda>r. VText (dead_letter_word r)) (d_dead_letter_reason d)),
      (''dead_lettered_at'', nullable VTime (d_dead_lettered_at d)),
      (''confirmation_generation'', VInt (d_confirmation_generation d)), (''observe_only'', VBool (d_observe_only d)),
      (''filter_spec'', nullable VJson (d_filter_spec d)), (''phase'', VText (phase_word (d_phase d))),
      (''release_state'', nullable (\<lambda>r. VText (release_word r)) (d_release_state d)),
      (''preview_delivery_id'', nullable VUuid (d_preview_delivery_id d)),
      (''body_delivery_id'', nullable VUuid (d_body_delivery_id d)),
      (''consent_deadline'', nullable VTime (d_consent_deadline d)),
      (''consent_timeout_seconds'', nullable VInt (d_consent_timeout_seconds d)),
      (''released_at'', nullable VTime (d_released_at d)), (''voided_at'', nullable VTime (d_voided_at d)),
      (''void_reason'', nullable (\<lambda>r. VText (void_word r)) (d_void_reason d)),
      (''relay_chain_id'', nullable VUuid (d_relay_chain_id d)), (''relay_station_no'', nullable VInt (d_relay_station_no d)),
      (''relay_skipped_at'', nullable VTime (d_relay_skipped_at d)),
      (''relay_skip_reason'', nullable (\<lambda>r. VText (skip_word r)) (d_relay_skip_reason d)),
      (''relay_stopped_by_delivery_id'', nullable VUuid (d_relay_stopped_by_delivery_id d))]"

definition event_cells :: "event \<Rightarrow> cells" where
  "event_cells e =
     [(''id'', VUuid (e_id e)), (''event_type'', VText (e_event_type e)), (''dedupe_key'', VText (e_dedupe_key e)),
      (''payload'', VJson (e_payload e)), (''not_before'', nullable VTime (e_not_before e)),
      (''deliver_by'', nullable VTime (e_deliver_by e)), (''cancelled_at'', nullable VTime (e_cancelled_at e)),
      (''created_at'', VTime (e_created_at e)), (''preview_payload'', nullable VJson (e_preview_payload e)),
      (''required_ack_count'', nullable VInt (e_required_ack_count e)), (''source_id'', nullable VUuid (e_source_id e)),
      (''corrects_event_id'', nullable VUuid (e_corrects_event_id e))]"

definition source_cells :: "event_source \<Rightarrow> cells" where
  "source_cells s =
     [(''id'', VUuid (src_id s)), (''name'', VText (src_name s)), (''secret'', VText (src_secret s)),
      (''key_rotated_at'', VTime (src_key_rotated_at s)), (''disabled_at'', nullable VTime (src_disabled_at s)),
      (''created_at'', VTime (src_created_at s))]"

definition receipt_cells :: "receipt \<Rightarrow> cells" where
  "receipt_cells r =
     [(''id'', VUuid (r_id r)), (''destination_id'', VUuid (r_destination_id r)), (''dedupe_key'', VText (r_dedupe_key r)),
      (''result'', VText (result_word (r_result r))), (''delivery_id'', nullable VUuid (r_delivery_id r)),
      (''disposition'', VText (receipt_disposition_word (r_disposition r))), (''received_at'', VTime (r_received_at r))]"

definition chain_cells :: "relay_chain \<Rightarrow> cells" where
  "chain_cells c =
     [(''id'', VUuid (ch_id c)), (''event_type'', VText (ch_event_type c)), (''version'', VInt (ch_version c)),
      (''active'', VBool (ch_active c)), (''created_at'', VTime (ch_created_at c))]"

text \<open>The columns of an attempt that the model keeps.\<close>

definition ingestion_cells :: "ingestion_attempt \<Rightarrow> cells" where
  "ingestion_cells a =
     [(''source_id'', nullable VUuid (ia_source_id a)), (''source_name'', nullable VText (ia_source_name a)),
      (''event_id'', nullable VUuid (ia_event_id a)), (''dedupe_key'', nullable VText (ia_dedupe_key a)),
      (''event_type'', nullable VText (ia_event_type a)), (''signed_at'', nullable VTime (ia_signed_at a)),
      (''disposition'', VText (ingest_word (ia_disposition a))), (''received_at'', VTime (ia_received_at a))]"

section \<open>A row carries its table's columns\<close>

text \<open>One cell per column of the CREATE TABLE, by name, type and NOT NULL.\<close>

fun of_type :: "coltype \<Rightarrow> val \<Rightarrow> bool" where
  "of_type ty VNull = False"
| "of_type ty (VText _) = (ty = Ty_text)"
| "of_type ty (VInt _) = (ty = Ty_integer \<or> ty = Ty_bigint)"
| "of_type ty (VBool _) = (ty = Ty_boolean)"
| "of_type ty (VTime _) = (ty = Ty_timestamptz)"
| "of_type ty (VUuid _) = (ty = Ty_uuid)"
| "of_type ty (VJson _) = (ty = Ty_jsonb)"

definition fits_column :: "string \<times> val \<Rightarrow> column \<Rightarrow> bool" where
  "fits_column cell c \<longleftrightarrow> fst cell = col_name c \<and>
     (of_type (col_type c) (snd cell) \<or> snd cell = VNull \<and> \<not> col_not_null c)"

definition fits_columns :: "cells \<Rightarrow> column list \<Rightarrow> bool" where
  "fits_columns cs columns \<longleftrightarrow> list_all2 fits_column cs columns"

text \<open>The CHECKs among the constraints of a table, of a row.\<close>

definition satisfies :: "row \<Rightarrow> (string option \<times> constr) list \<Rightarrow> bool" where
  "satisfies r cons \<longleftrightarrow> list_all (\<lambda>(_, c). case c of Check e \<Rightarrow> \<not> violates e r | _ \<Rightarrow> True) cons"

lemma fits_column_simps [simp]:
  "fits_column (n, v) (required_column n ty) \<longleftrightarrow> of_type ty v"
  "fits_column (n, v) (filled_column n ty d) \<longleftrightarrow> of_type ty v"
  by (auto simp: fits_column_def required_column_def filled_column_def)

lemma fits_nullable [simp]:
  "(\<And>y. of_type ty (f y)) \<Longrightarrow> fits_column (n, nullable f x) (nullable_column n ty)"
  by (cases x) (simp_all add: fits_column_def nullable_column_def)

text \<open>Conditions on a column that holds an option.\<close>

lemma holds_nullable [simp]:
  "r c = nullable f x \<Longrightarrow> (\<And>y. f y \<noteq> VNull) \<Longrightarrow> holds r (Is_null c) = Some (x = None)"
  "r c = nullable (\<lambda>y. VText (w y)) x \<Longrightarrow> holds r (One_of c vs) = map_option (\<lambda>y. w y \<in> set vs) x"
  "r c = nullable VInt n \<Longrightarrow> holds r (At_least c k) = map_option (\<lambda>i. k \<le> i) n"
  by ((cases x; simp), (cases x; simp), (cases n; simp))

lemma or3_False [simp]: "or3 (Some False) b = b"
  by (cases b; cases "the b") auto

lemma dead_letter_words:
  "dead_letter_word r \<in> {''delivery_attempts_exhausted'', ''receipt_timeout_exhausted'', ''receipt_failure_exhausted''}"
  by (cases r) simp_all

lemma skip_words:
  "skip_word r \<in> {''delivery_attempts_exhausted'', ''receipt_timeout_exhausted'', ''receipt_failure_exhausted'',
     ''receipt_failed'', ''receipt_timeout'', ''superseded'', ''deliver_by_expired''}"
  using dead_letter_words by (cases r) auto

end
