(* ===== verification/Live_Restart.thy ===== *)
theory Live_Restart
  imports Consistency Rows First_Start
begin

text \<open>
  The schema of app/models.py and the records of the model are one: a row of the model fills the
  columns its table has after the first start, with values of their types (\<open>columns_after\<close>,
  \<open>fits_columns\<close>); the predicates \<open>destination_check\<close>, \<open>delivery_check\<close> and \<open>event_check\<close> are the CHECKs
  of the catalogue; and a process that starts while the service is in use, whatever it has reached,
  runs SCHEMA_STATEMENTS through and changes nothing (\<open>live_restart\<close>).
\<close>

section \<open>The columns a table ends up with\<close>

definition columns_in :: "catalogue \<Rightarrow> string \<Rightarrow> column list option" where
  "columns_in ct t = map_option td_columns (map_of (ct_tables ct) t)"

definition add_missing :: "column \<Rightarrow> column list \<Rightarrow> column list" where
  "add_missing c cols = branch (listed_name (map col_name cols) (col_name c)) cols (cols @ [c])"

fun extend :: "string \<Rightarrow> stmt \<Rightarrow> column list option \<Rightarrow> column list option" where
  "extend t (Create_table u cols cons) old = (if same_text u t then case old of None \<Rightarrow> Some cols | Some _ \<Rightarrow> old else old)"
| "extend t (Add_column u c) old = (if same_text u t then map_option (add_missing c) old else old)"
| "extend t _ old = old"

definition columns_after :: "stmt list \<Rightarrow> string \<Rightarrow> column list option" where
  "columns_after ss t = fold (extend t) ss None"

text \<open>The DO blocks do nothing when their condition fails.\<close>

fun plain :: "stmt \<Rightarrow> catalogue \<Rightarrow> bool" where
  "plain Rename_legacy_events ct = (\<not> has_table ct ''events'')"
| "plain Rename_attempt_event ct = has_column ct ''delivery_attempts'' ''delivery_id''"
| "plain Arm_handshake ct = has_column ct ''destinations'' ''confirmation_state''"
| "plain _ ct = True"

lemma columns_in_alter:
  "columns_in (alter t f ct) u = (if u = t then map_option (\<lambda>td. td_columns (f td)) (map_of (ct_tables ct) t) else columns_in ct u)"
  by (simp add: columns_in_def map_of_alter option.map_comp comp_def)

lemma columns_in_constraints [simp]:
  "columns_in (alter t (drop_constraint n) ct) u = columns_in ct u"
  "columns_in (alter t (add_constraint n c) ct) u = columns_in ct u"
  by (simp_all add: columns_in_alter drop_constraint_def add_constraint_def) (simp_all add: columns_in_def)

lemma columns_in_indexes [simp]: "columns_in (ct\<lparr>ct_indexes := ix\<rparr>) u = columns_in ct u"
  by (simp add: columns_in_def)

lemma has_column_in: "has_column ct t c \<longleftrightarrow> (case columns_in ct t of None \<Rightarrow> False | Some cols \<Rightarrow> c \<in> col_name ` set cols)"
  by (simp add: has_column_case columns_in_def split: option.split)

lemma exec1_columns:
  assumes "exec1 now s pg = Inr pg'" and "plain s (pg_catalogue pg)"
  shows "columns_in (pg_catalogue pg') t = extend t s (columns_in (pg_catalogue pg) t)"
proof (cases s)
  case (Create_table v cols cons)
  then show ?thesis using assms(1)
    by (auto simp: create_table_def Let_def columns_in_def has_table_def map_add_def split: if_splits option.splits)
next
  case (Add_column v c)
  then show ?thesis using assms(1)
    by (auto simp: has_column_in columns_in_alter add_column_Inr(3) add_missing_def split: if_splits option.splits)
      (auto simp: columns_in_def)
qed (use assms in \<open>auto simp: create_index_def add_check_def add_foreign_key_def rename_legacy_events_def
    rename_attempt_event_def arm_handshake_def Let_def split: if_splits\<close>)

lemma plain_allowed:
  assumes "allowed_on s sh gone" and "shape_matches sh gone pg" and "s = Arm_handshake \<Longrightarrow> known_column sh ''destinations'' ''confirmation_state''"
  shows "plain s (pg_catalogue pg)"
  using assms by (cases s) (auto simp: shape_matches_def)

fun disarmed :: "stmt list \<Rightarrow> shape \<Rightarrow> bool" where
  "disarmed [] sh = True"
| "disarmed (s # ss) sh = ((case s of Arm_handshake \<Rightarrow> known_column sh ''destinations'' ''confirmation_state'' | _ \<Rightarrow> True) \<and>
     disarmed ss (reshape s sh))"

lemma exec_columns:
  "shape_exec ss sh gone \<Longrightarrow> shape_matches sh gone pg \<Longrightarrow> disarmed ss sh \<Longrightarrow> exec now ss pg = Inr pg' \<Longrightarrow>
     columns_in (pg_catalogue pg') t = fold (extend t) ss (columns_in (pg_catalogue pg) t)"
proof (induction ss arbitrary: sh gone pg)
  case (Cons s ss)
  have s: "allowed_on s sh gone" and ss: "shape_exec ss (reshape s sh) (dropped_by s gone)"
    using Cons.prems(1) by simp_all
  obtain p where p: "exec1 now s pg = Inr p" and m: "shape_matches (reshape s sh) (dropped_by s gone) p"
    using exec1_allowed [OF s Cons.prems(2)] by blast
  have "plain s (pg_catalogue pg)"
    by (rule plain_allowed [OF s Cons.prems(2)]) (use Cons.prems(3) in auto)
  moreover have "columns_in (pg_catalogue pg') t = fold (extend t) ss (columns_in (pg_catalogue p) t)"
    using Cons.IH [OF ss m] Cons.prems(3,4) p by simp
  ultimately show ?case using exec1_columns [OF p] by simp
qed simp

lemma disarmed_append: "disarmed (xs @ ys) sh \<longleftrightarrow> disarmed xs sh \<and> disarmed ys (fold reshape xs sh)"
  by (induction xs arbitrary: sh) auto

lemma disarmed_parts:
  "disarmed first_part []" "disarmed second_part (fold reshape first_part [])"
  "disarmed third_part (fold reshape (first_part @ second_part) [])"
  by code_simp+

theorem init_db_columns:
  assumes "init_db now empty_pg = Inr pg"
  shows "columns_in (pg_catalogue pg) t = columns_after schema_statements t"
proof -
  have "shape_matches [] [] empty_pg"
    by (simp add: shape_matches_def empty_pg_def shape_of_def mild_rows_def)
  moreover have "disarmed schema_statements []"
    using disarmed_parts by (simp add: parts disarmed_append)
  moreover have "columns_in (pg_catalogue empty_pg) t = None" by (simp add: columns_in_def empty_pg_def)
  ultimately show ?thesis
    using exec_columns [OF no_table_allowed] assms by (simp add: init_db_def columns_after_def)
qed

section \<open>Rows of the model are rows of the tables\<close>

lemma delivery_table_columns: "columns_after schema_statements ''deliveries'' = Some deliveries_columns"
  by code_simp

lemma other_table_columns:
  "columns_after schema_statements ''destinations'' = Some
     [id_column, required_column ''url'' Ty_text, word_column ''status'' ''active'',
      counter_column ''failure_count'' Ty_integer 0, counter_column ''next_event_seq'' Ty_bigint 0,
      nullable_column ''recoverable_at'' Ty_timestamptz, stamp_column ''created_at'',
      word_column ''confirmation_state'' ''pending'', nullable_column ''challenge_token'' Ty_text,
      nullable_column ''challenge_expires_at'' Ty_timestamptz, nullable_column ''confirmed_at'' Ty_timestamptz,
      counter_column ''confirmation_generation'' Ty_bigint 1, counter_column ''confirmation_round'' Ty_bigint 1,
      counter_column ''confirmation_attempt_count'' Ty_integer 0, stamp_column ''next_probe_at'',
      flag_column ''observe_only'' False, nullable_column ''paused_from'' Ty_timestamptz,
      nullable_column ''paused_until'' Ty_timestamptz]"
  "columns_after schema_statements ''events'' = Some
     [id_column, required_column ''event_type'' Ty_text, required_column ''dedupe_key'' Ty_text,
      required_column ''payload'' Ty_jsonb, nullable_column ''not_before'' Ty_timestamptz,
      nullable_column ''deliver_by'' Ty_timestamptz, nullable_column ''cancelled_at'' Ty_timestamptz,
      stamp_column ''created_at'', nullable_column ''preview_payload'' Ty_jsonb,
      nullable_column ''required_ack_count'' Ty_integer, nullable_column ''source_id'' Ty_uuid,
      nullable_column ''corrects_event_id'' Ty_uuid]"
  "columns_after schema_statements ''event_sources'' = Some
     [id_column, required_column ''name'' Ty_text, required_column ''secret'' Ty_text, stamp_column ''key_rotated_at'',
      nullable_column ''disabled_at'' Ty_timestamptz, stamp_column ''created_at'']"
  "columns_after schema_statements ''receipts'' = Some
     [id_column, required_column ''destination_id'' Ty_uuid, required_column ''dedupe_key'' Ty_text,
      required_column ''result'' Ty_text, nullable_column ''delivery_id'' Ty_uuid,
      required_column ''disposition'' Ty_text, stamp_column ''received_at'']"
  "columns_after schema_statements ''relay_chains'' = Some
     [id_column, required_column ''event_type'' Ty_text, required_column ''version'' Ty_integer, flag_column ''active'' True,
      stamp_column ''created_at'']"
  by code_simp+

lemmas column_kinds = id_column_def stamp_column_def counter_column_def word_column_def flag_column_def

lemma delivery_cells_fit: "fits_columns (delivery_cells d) deliveries_columns"
  unfolding fits_columns_def delivery_cells_def deliveries_columns_def column_kinds
  by (simp only: list_all2_Cons list_all2_Nil2 fits_column_simps fits_nullable of_type.simps simp_thms)

lemma cells_fit:
  "fits_columns (destination_cells d) (the (columns_after schema_statements ''destinations''))"
  "fits_columns (event_cells e) (the (columns_after schema_statements ''events''))"
  "fits_columns (source_cells s) (the (columns_after schema_statements ''event_sources''))"
  "fits_columns (receipt_cells r) (the (columns_after schema_statements ''receipts''))"
  "fits_columns (chain_cells c) (the (columns_after schema_statements ''relay_chains''))"
  unfolding other_table_columns option.sel fits_columns_def destination_cells_def event_cells_def source_cells_def
    receipt_cells_def chain_cells_def column_kinds
  by (simp_all only: list_all2_Cons list_all2_Nil2 fits_column_simps fits_nullable of_type.simps simp_thms)

text \<open>A row of the model as a row of a table of the catalogue.\<close>

definition fits_table :: "catalogue \<Rightarrow> string \<Rightarrow> cells \<Rightarrow> bool" where
  "fits_table ct t cs \<longleftrightarrow> (case columns_in ct t of None \<Rightarrow> False | Some cols \<Rightarrow> fits_columns cs cols)"

theorem rows_fit_tables:
  assumes "init_db now empty_pg = Inr pg"
  shows "fits_table (pg_catalogue pg) ''destinations'' (destination_cells dest)"
    "fits_table (pg_catalogue pg) ''deliveries'' (delivery_cells d)"
    "fits_table (pg_catalogue pg) ''events'' (event_cells e)"
    "fits_table (pg_catalogue pg) ''event_sources'' (source_cells src)"
    "fits_table (pg_catalogue pg) ''receipts'' (receipt_cells r)"
    "fits_table (pg_catalogue pg) ''relay_chains'' (chain_cells c)"
  by (simp_all add: fits_table_def init_db_columns [OF assms] other_table_columns delivery_table_columns
      cells_fit [unfolded other_table_columns option.sel] delivery_cells_fit)

section \<open>The CHECKs of the model are those of the tables\<close>

lemma delivery_row_cells:
  "row_of (delivery_cells d) ''status'' = VText (status_word (d_status d))"
  "row_of (delivery_cells d) ''phase'' = VText (phase_word (d_phase d))"
  "row_of (delivery_cells d) ''relay_chain_id'' = nullable VUuid (d_relay_chain_id d)"
  "row_of (delivery_cells d) ''relay_station_no'' = nullable VInt (d_relay_station_no d)"
  "row_of (delivery_cells d) ''relay_skip_reason'' = nullable (\<lambda>r. VText (skip_word r)) (d_relay_skip_reason d)"
  "row_of (delivery_cells d) ''release_state'' = nullable (\<lambda>r. VText (release_word r)) (d_release_state d)"
  "row_of (delivery_cells d) ''body_delivery_id'' = nullable VUuid (d_body_delivery_id d)"
  "row_of (delivery_cells d) ''preview_delivery_id'' = nullable VUuid (d_preview_delivery_id d)"
  "row_of (delivery_cells d) ''void_reason'' = nullable (\<lambda>r. VText (void_word r)) (d_void_reason d)"
  "row_of (delivery_cells d) ''dead_letter_reason'' = nullable (\<lambda>r. VText (dead_letter_word r)) (d_dead_letter_reason d)"
  "row_of (delivery_cells d) ''attempts'' = VInt (d_attempts d)"
  "row_of (delivery_cells d) ''destination_seq'' = VInt (d_destination_seq d)"
  "row_of (delivery_cells d) ''reconcile_state'' = VText (reconcile_word (d_reconcile_state d))"
  "row_of (delivery_cells d) ''requeue_count'' = VInt (d_requeue_count d)"
  "row_of (delivery_cells d) ''consecutive_failures'' = VInt (d_consecutive_failures d)"
  by (simp_all add: row_of_def delivery_cells_def)

lemma delivery_row_checks:
  "\<not> violates status_check (row_of (delivery_cells d))"
  "\<not> violates phase_check (row_of (delivery_cells d))"
  "violates relay_snapshot_check (row_of (delivery_cells d)) \<longleftrightarrow> (d_relay_chain_id d = None) \<noteq> (d_relay_station_no d = None)"
  "violates relay_station_check (row_of (delivery_cells d)) \<longleftrightarrow> (case d_relay_station_no d of None \<Rightarrow> False | Some n \<Rightarrow> n < 1)"
  "violates relay_skip_check (row_of (delivery_cells d)) \<longleftrightarrow> (d_status d = Relay_skipped) \<noteq> (d_relay_skip_reason d \<noteq> None)"
  "\<not> violates relay_skip_reason_check (row_of (delivery_cells d))"
  "\<not> violates release_state_check (row_of (delivery_cells d))"
  "violates release_shape_check (row_of (delivery_cells d)) \<longleftrightarrow>
     \<not> ((d_phase d = Preview \<and> d_body_delivery_id d \<noteq> None \<and> d_preview_delivery_id d = None) \<or>
        (d_phase d = Body \<and> d_body_delivery_id d = None))"
  "\<not> violates void_reason_check (row_of (delivery_cells d))"
  "violates dead_letter_check (row_of (delivery_cells d)) \<longleftrightarrow> (d_status d = Dead_lettered) \<noteq> (d_dead_letter_reason d \<noteq> None)"
  "\<not> violates dead_letter_reason_check (row_of (delivery_cells d))"
  "violates failures_check (row_of (delivery_cells d)) \<longleftrightarrow> d_consecutive_failures d < 0"
  subgoal by (cases "d_status d") (simp_all add: violates_def status_check_def delivery_row_cells)
  subgoal by (cases "d_phase d") (simp_all add: violates_def phase_check_def delivery_row_cells)
  subgoal by (cases "d_relay_chain_id d"; cases "d_relay_station_no d") (simp_all add: violates_def relay_snapshot_check_def delivery_row_cells)
  subgoal by (cases "d_relay_station_no d") (auto simp: violates_def relay_station_check_def delivery_row_cells)
  subgoal by (cases "d_status d"; cases "d_relay_skip_reason d") (simp_all add: violates_def relay_skip_check_def Not_null_def delivery_row_cells)
  subgoal using skip_words by (cases "d_relay_skip_reason d")
      (auto simp: violates_def relay_skip_reason_check_def delivery_row_cells)
  subgoal by (cases "d_release_state d"; cases "the (d_release_state d)") (simp_all add: violates_def release_state_check_def delivery_row_cells)
  subgoal by (cases "d_phase d"; cases "d_body_delivery_id d"; cases "d_preview_delivery_id d")
      (simp_all add: violates_def release_shape_check_def Not_null_def delivery_row_cells)
  subgoal by (cases "d_void_reason d"; cases "the (d_void_reason d)") (simp_all add: violates_def void_reason_check_def delivery_row_cells)
  subgoal by (cases "d_status d"; cases "d_dead_letter_reason d") (simp_all add: violates_def dead_letter_check_def Not_null_def delivery_row_cells)
  subgoal by (cases "d_dead_letter_reason d"; cases "the (d_dead_letter_reason d)") (simp_all add: violates_def dead_letter_reason_check_def delivery_row_cells)
  subgoal by (auto simp: violates_def failures_check_def delivery_row_cells)
  done

lemma destination_row_cells:
  "row_of (destination_cells d) ''status'' = VText (destination_status_word (dest_status d))"
  "row_of (destination_cells d) ''failure_count'' = VInt (dest_failure_count d)"
  "row_of (destination_cells d) ''next_event_seq'' = VInt (dest_next_event_seq d)"
  "row_of (destination_cells d) ''confirmation_state'' = VText (confirmation_word (dest_confirmation_state d))"
  "row_of (destination_cells d) ''confirmation_generation'' = VInt (dest_confirmation_generation d)"
  "row_of (destination_cells d) ''confirmation_round'' = VInt (dest_confirmation_round d)"
  "row_of (destination_cells d) ''confirmation_attempt_count'' = VInt (dest_confirmation_attempt_count d)"
  "row_of (destination_cells d) ''paused_from'' = nullable VTime (dest_paused_from d)"
  "row_of (destination_cells d) ''paused_until'' = nullable VTime (dest_paused_until d)"
  by (simp_all add: row_of_def destination_cells_def)

lemma destination_row_checks:
  "\<not> violates confirmation_state_check (row_of (destination_cells d))"
  "violates pause_window_check (row_of (destination_cells d)) \<longleftrightarrow> \<not> pause_window_ok (dest_paused_from d) (dest_paused_until d)"
  "\<not> violates (One_of ''status'' [''active'', ''isolated'']) (row_of (destination_cells d))"
  subgoal by (cases "dest_confirmation_state d") (simp_all add: violates_def confirmation_state_check_def destination_row_cells)
  subgoal by (cases "dest_paused_from d"; cases "dest_paused_until d")
      (auto simp: violates_def pause_window_check_def pause_window_ok_def Not_null_def destination_row_cells)
  subgoal by (cases "dest_status d") (simp_all add: violates_def destination_row_cells)
  done

lemma event_row_check: "violates required_ack_check (row_of (event_cells e)) \<longleftrightarrow> \<not> event_check e"
proof -
  have "row_of (event_cells e) ''required_ack_count'' = nullable VInt (e_required_ack_count e)"
    by (simp add: row_of_def event_cells_def)
  then show ?thesis
    by (cases "e_required_ack_count e") (auto simp: violates_def required_ack_check_def event_check_def)
qed

lemma ingestion_row_check: "\<not> violates disposition_check (row_of (ingestion_cells a))"
proof -
  have "row_of (ingestion_cells a) ''disposition'' = VText (ingest_word (ia_disposition a))"
    by (simp add: row_of_def ingestion_cells_def)
  then show ?thesis by (cases "ia_disposition a") (simp_all add: violates_def disposition_check_def)
qed

text \<open>The constraints a CREATE TABLE declares.\<close>

fun constraints_of :: "stmt \<Rightarrow> (string option \<times> constr) list" where
  "constraints_of (Create_table t cols cons) = cons"
| "constraints_of _ = []"

lemma satisfies_Cons [simp]:
  "satisfies r [] = True"
  "satisfies r ((n, Check e) # cs) \<longleftrightarrow> \<not> violates e r \<and> satisfies r cs"
  "satisfies r ((n, Foreign_key c t) # cs) \<longleftrightarrow> satisfies r cs"
  "satisfies r ((n, Unique us) # cs) \<longleftrightarrow> satisfies r cs"
  "satisfies r ((n, Primary_key us) # cs) \<longleftrightarrow> satisfies r cs"
  by (simp_all add: satisfies_def)

lemma at_least_violated: "violates (At_least c k) r \<longleftrightarrow> (case r c of VInt n \<Rightarrow> n < k | _ \<Rightarrow> False)"
  by (auto simp: violates_def split: val.split)

theorem delivery_checks_agree:
  "delivery_check d \<longleftrightarrow> satisfies (row_of (delivery_cells d)) deliveries_constraints"
proof -
  have "\<not> violates (One_of ''reconcile_state'' [''none'', ''awaiting'', ''acknowledged'', ''receipt_failed'', ''timed_out''])
      (row_of (delivery_cells d))"
    by (cases "d_reconcile_state d") (simp_all add: violates_def delivery_row_cells)
  then show ?thesis
    unfolding deliveries_constraints_def
    by (auto simp: delivery_row_checks at_least_violated delivery_row_cells delivery_check_def split: option.splits)
qed

theorem destination_checks_agree:
  "destination_check d \<longleftrightarrow> satisfies (row_of (destination_cells d)) (constraints_of destinations_table)"
  unfolding destinations_table_def
  by (auto simp: destination_row_checks at_least_violated destination_row_cells destination_check_def)

section \<open>A start while the service runs\<close>

text \<open>Every CHECK that is validated again, with the table whose rows it reads.\<close>

definition live_checks :: "(string \<times> expr) list" where
  "live_checks = [(''deliveries'', phase_check), (''deliveries'', release_state_check), (''deliveries'', release_shape_check),
     (''deliveries'', void_reason_check), (''deliveries'', status_check), (''destinations'', confirmation_state_check),
     (''ingestion_attempts'', disposition_check), (''deliveries'', failures_check), (''deliveries'', dead_letter_check),
     (''deliveries'', dead_letter_reason_check), (''events'', required_ack_check), (''destinations'', pause_window_check),
     (''deliveries'', relay_snapshot_check), (''deliveries'', relay_station_check), (''deliveries'', relay_skip_check),
     (''deliveries'', relay_skip_reason_check)]"

lemma revalidated_live: "list_all (\<lambda>p. list_ex (\<lambda>q. p = q) live_checks) revalidated"
  by code_simp

text \<open>The rows of the four tables these CHECKs read.\<close>

definition holds_rows :: "database \<Rightarrow> pg \<Rightarrow> bool" where
  "holds_rows db pg \<longleftrightarrow>
     pg_rows pg ''destinations'' = map (\<lambda>d. row_of (destination_cells d)) (destinations db) \<and>
     pg_rows pg ''deliveries'' = map (\<lambda>d. row_of (delivery_cells d)) (deliveries db) \<and>
     pg_rows pg ''events'' = map (\<lambda>e. row_of (event_cells e)) (events db) \<and>
     pg_rows pg ''ingestion_attempts'' = map (\<lambda>a. row_of (ingestion_cells a)) (ingestion_attempts db)"

text \<open>The rows of a state put into a catalogue.\<close>

definition stored_rows :: "database \<Rightarrow> pg \<Rightarrow> pg" where
  "stored_rows db pg = pg\<lparr>pg_rows := (pg_rows pg)
     (''destinations'' := map (\<lambda>d. row_of (destination_cells d)) (destinations db),
      ''deliveries'' := map (\<lambda>d. row_of (delivery_cells d)) (deliveries db),
      ''events'' := map (\<lambda>e. row_of (event_cells e)) (events db),
      ''ingestion_attempts'' := map (\<lambda>a. row_of (ingestion_cells a)) (ingestion_attempts db))\<rparr>"

lemma stored_rows:
  "pg_catalogue (stored_rows db pg) = pg_catalogue pg" "holds_rows db (stored_rows db pg)"
  by (simp_all add: stored_rows_def holds_rows_def)

lemma satisfies_member: "satisfies r cons \<Longrightarrow> (n, Check e) \<in> set cons \<Longrightarrow> \<not> violates e r"
  by (fastforce simp: satisfies_def list_all_iff)

lemma live_rows_pass:
  assumes "holds_rows db pg" and "db_ok db" and "counts_ok db"
  shows "rows_pass pg live_checks"
proof -
  have del: "list_all (\<lambda>r. \<not> violates e r) (pg_rows pg ''deliveries'')" if "(None, Check e) \<in> set deliveries_constraints" for e
  proof -
    have "satisfies (row_of (delivery_cells d)) deliveries_constraints" if "d \<in> set (deliveries db)" for d
      using assms(2) that by (auto dest!: db_okD(1) simp: copies_ok_def row_ok_def delivery_checks_agree)
    then show ?thesis using assms(1) satisfies_member [OF _ that] by (auto simp: holds_rows_def list_all_iff)
  qed
  have dest: "list_all (\<lambda>r. \<not> violates e r) (pg_rows pg ''destinations'')"
    if "e = confirmation_state_check \<or> e = pause_window_check" for e
  proof -
    have "pause_window_ok (dest_paused_from d) (dest_paused_until d)" if "d \<in> set (destinations db)" for d
      using assms(2) that by (auto dest!: db_okD(2) simp: destinations_ok_def destination_check_def)
    then show ?thesis using assms(1) that by (auto simp: holds_rows_def list_all_iff destination_row_checks)
  qed
  have ev: "list_all (\<lambda>r. \<not> violates required_ack_check r) (pg_rows pg ''events'')"
    using assms(1,3) by (auto simp: holds_rows_def list_all_iff event_row_check counts_ok_def)
  have att: "list_all (\<lambda>r. \<not> violates disposition_check r) (pg_rows pg ''ingestion_attempts'')"
    using assms(1) by (auto simp: holds_rows_def list_all_iff ingestion_row_check)
  show ?thesis
    unfolding rows_pass_def live_checks_def
    by (simp add: dest ev att) (intro conjI del; simp add: deliveries_constraints_def)
qed

theorem live_restart:
  assumes "init_db now pg = Inr started" and "reachable sys"
    and "pg_catalogue live = pg_catalogue started" and "holds_rows (sys_db sys) live"
  shows "init_db later live = Inr live"
proof (rule init_db_revalidates [OF assms(1,3)])
  have "rows_pass live live_checks"
    using assms(2,4) reachable_ok reachable_consistent(4) by (auto intro!: live_rows_pass simp: system_ok_def)
  then show "rows_pass live revalidated"
    using revalidated_live by (auto simp: rows_pass_def list_all_iff list_ex_iff)
qed

end
