(* ===== verification/Responses.thy ===== *)
theory Responses
  imports Api Live_Restart Trace
begin

text \<open>
  The answers of app/main.py and the response models of app/schemas.py. A handler returns a dict
  (\<open>Dict\<close>) or a list; the declared response model (\<open>field_type\<close>) takes the fields it declares, fills in a
  default for one that is missing and refuses a value of another type, which the client would see as
  a 500 although the transaction has committed. \<open>serialize\<close> is that step: None is the refusal. The
  columns of a listing that the model keeps no row column for (serial ids, reasons, creation times)
  are arguments of its row.
\<close>

section \<open>Response models\<close>

datatype out = Leaf val | Dict "(string \<times> out) list" | Items "out list"

text \<open>A field: its name, its type and its default; a field without a default is required.\<close>

datatype field_type =
    F_value coltype
  | F_dict
  | F_null field_type
  | F_list field_type
  | F_map field_type
  | F_model "(string \<times> field_type \<times> out option) list"

type_synonym fields = "(string \<times> field_type \<times> out option) list"

definition accept :: "bool \<Rightarrow> out \<Rightarrow> out option" where
  "accept b v = (if b then Some v else None)"

fun serialize :: "field_type \<Rightarrow> out \<Rightarrow> out option"
  and serialize_fields :: "fields \<Rightarrow> (string \<times> out) list \<Rightarrow> (string \<times> out) list option"
  and serialize_items :: "field_type \<Rightarrow> out list \<Rightarrow> out list option"
  and serialize_values :: "field_type \<Rightarrow> (string \<times> out) list \<Rightarrow> (string \<times> out) list option" where
  "serialize (F_value ty) (Leaf v) = accept (of_type ty v) (Leaf v)"
| "serialize F_dict (Leaf (VJson j)) = accept (is_dict j) (Leaf (VJson j))"
| "serialize (F_null t) v = (if v = Leaf VNull then Some v else serialize t v)"
| "serialize (F_list t) (Items vs) = map_option Items (serialize_items t vs)"
| "serialize (F_map t) (Dict kvs) = map_option Dict (serialize_values t kvs)"
| "serialize (F_model fs) (Dict kvs) = map_option Dict (serialize_fields fs kvs)"
| "serialize _ _ = None"
| "serialize_fields [] kvs = Some []"
| "serialize_fields ((n, t, d) # fs) kvs =
     (case (case map_of kvs n of None \<Rightarrow> d | Some v \<Rightarrow> serialize t v) of
        None \<Rightarrow> None
      | Some v \<Rightarrow> map_option (Cons (n, v)) (serialize_fields fs kvs))"
| "serialize_items t [] = Some []"
| "serialize_items t (v # vs) =
     (case serialize t v of None \<Rightarrow> None | Some w \<Rightarrow> map_option (Cons w) (serialize_items t vs))"
| "serialize_values t [] = Some []"
| "serialize_values t ((k, v) # kvs) =
     (case serialize t v of None \<Rightarrow> None | Some w \<Rightarrow> map_option (Cons (k, w)) (serialize_values t kvs))"

definition answers :: "field_type \<Rightarrow> out \<Rightarrow> bool" where
  "answers t v \<longleftrightarrow> serialize t v \<noteq> None"

definition field_answers :: "(string \<times> out) list \<Rightarrow> string \<times> field_type \<times> out option \<Rightarrow> bool" where
  "field_answers kvs f = (case f of (n, t, d) \<Rightarrow>
     (case map_of kvs n of None \<Rightarrow> d \<noteq> None | Some v \<Rightarrow> answers t v))"

lemma serialize_fields_answers: "serialize_fields fs kvs \<noteq> None \<longleftrightarrow> list_all (field_answers kvs) fs"
proof (induction fs)
  case (Cons f fs)
  obtain n t d where f: "f = (n, t, d)" by (cases f)
  let ?v = "case map_of kvs n of None \<Rightarrow> d | Some v \<Rightarrow> serialize t v"
  have "field_answers kvs f \<longleftrightarrow> ?v \<noteq> None"
    by (simp add: f field_answers_def answers_def split: option.split)
  then show ?case using Cons by (cases ?v) (simp_all add: f)
qed simp

lemma serialize_items_answers: "serialize_items t vs \<noteq> None \<longleftrightarrow> list_all (answers t) vs"
  by (induction vs) (auto simp: answers_def split: option.splits)

lemma serialize_values_answers: "serialize_values t kvs \<noteq> None \<longleftrightarrow> list_all (answers t \<circ> snd) kvs"
  by (induction kvs) (auto simp: answers_def split: option.splits)

text \<open>What a response model lets through depends on its declared fields alone.\<close>

lemma serialize_fields_cong:
  "list_all (\<lambda>n. map_of kvs n = map_of kvs' n) (map fst fs) \<Longrightarrow> serialize_fields fs kvs = serialize_fields fs kvs'"
proof (induction fs)
  case (Cons f fs)
  then show ?case by (cases f) (simp split: option.split)
qed simp

lemma serialize_fields_names: "serialize_fields fs kvs = Some kvs' \<Longrightarrow> map fst kvs' = map fst fs"
  by (induction fs arbitrary: kvs') (auto split: option.splits)

lemma answers_simps [simp]:
  "answers (F_value ty) (Leaf v) = of_type ty v"
  "answers F_dict (Leaf (VJson j)) = is_dict j"
  "answers (F_null t) (Leaf VNull)"
  "answers (F_list t) (Items vs) = list_all (answers t) vs"
  "answers (F_map t) (Dict kvs) = list_all (answers t \<circ> snd) kvs"
  "answers (F_model fs) (Dict kvs) = list_all (field_answers kvs) fs"
  using serialize_fields_answers [of fs kvs] serialize_items_answers [of t vs] serialize_values_answers [of t kvs]
  by (simp_all add: answers_def [of "F_value ty"] answers_def [of F_dict] answers_def [of "F_null t"]
      answers_def [of "F_list t"] answers_def [of "F_map t"] answers_def [of "F_model fs"] accept_def)

lemma answers_null [simp]: "answers t v \<Longrightarrow> answers (F_null t) v"
  by (simp add: answers_def)

lemma answers_nullable [simp]:
  "(\<And>y. answers t (Leaf (f y))) \<Longrightarrow> answers (F_null t) (Leaf (nullable f x))"
  by (cases x) simp_all

text \<open>Dicts.\<close>

definition leaves :: "cells \<Rightarrow> (string \<times> out) list" where
  "leaves cs = map (\<lambda>(n, v). (n, Leaf v)) cs"

definition columns :: "string list \<Rightarrow> cells \<Rightarrow> cells" where
  "columns names cs = map (\<lambda>n. (n, row_of cs n)) names"

lemma map_of_dict_set [simp]: "map_of (dict_set k v kvs) n = (if n = k then Some v else map_of kvs n)"
  by (induction kvs) auto

section \<open>Rows against models\<close>

text \<open>
  Whether every row of a table passes a response model is decided on the two declarations: \<open>covers\<close>
  compares each field with the first column of its name. A dict needs a column that holds objects
  only, one of \<open>docs\<close>.
\<close>

fun column_named :: "column list \<Rightarrow> string \<Rightarrow> column option" where
  "column_named [] n = None"
| "column_named (c # cs) n = (if same_text (col_name c) n then Some c else column_named cs n)"

fun same_kind :: "coltype \<Rightarrow> coltype \<Rightarrow> bool" where
  "same_kind Ty_integer ty = (ty = Ty_integer \<or> ty = Ty_bigint)"
| "same_kind t ty = (t = ty)"

fun type_covers :: "bool \<Rightarrow> field_type \<Rightarrow> column \<Rightarrow> bool" where
  "type_covers doc (F_value ty) c = (col_not_null c \<and> same_kind ty (col_type c))"
| "type_covers doc F_dict c = (doc \<and> col_not_null c \<and> col_type c = Ty_jsonb)"
| "type_covers doc (F_null (F_value ty)) c = same_kind ty (col_type c)"
| "type_covers doc (F_null F_dict) c = (doc \<and> col_type c = Ty_jsonb)"
| "type_covers doc t c = False"

definition covers_field :: "column list \<Rightarrow> string list \<Rightarrow> string \<times> field_type \<times> out option \<Rightarrow> bool" where
  "covers_field cols docs f = (case f of (n, t, d) \<Rightarrow>
     (case column_named cols n of None \<Rightarrow> d \<noteq> None | Some c \<Rightarrow> type_covers (listed_name docs n) t c))"

text \<open>All fields but those named in \<open>apart\<close>.\<close>

definition covers :: "column list \<Rightarrow> string list \<Rightarrow> string list \<Rightarrow> fields \<Rightarrow> bool" where
  "covers cols docs apart fs \<longleftrightarrow> list_all (\<lambda>f. branch (listed_name apart (fst f)) True (covers_field cols docs f)) fs"

definition holds_documents :: "string list \<Rightarrow> cells \<Rightarrow> bool" where
  "holds_documents docs cs \<longleftrightarrow> (\<forall>n v. n \<in> set docs \<and> map_of cs n = Some v \<longrightarrow> v = VNull \<or> (\<exists>j. v = VJson j \<and> is_dict j))"

lemma fits_lookup:
  "fits_columns cs cols \<Longrightarrow> (case column_named cols n of None \<Rightarrow> map_of cs n = None
     | Some c \<Rightarrow> (\<exists>v. map_of cs n = Some v \<and> (of_type (col_type c) v \<or> v = VNull \<and> \<not> col_not_null c)))"
  unfolding fits_columns_def
proof (induction rule: list_all2_induct)
  case (Cons x xs c cols)
  then show ?case by (cases x; cases "column_named cols n") (auto simp: fits_column_def)
qed simp

lemma of_kind: "of_type ty v \<Longrightarrow> same_kind t ty \<Longrightarrow> of_type t v"
  by (cases t; cases v) auto

lemma map_of_leaves: "map_of (leaves cs) n = map_option Leaf (map_of cs n)"
  by (induction cs) (auto simp: leaves_def)

lemma covered_answers:
  assumes "fits_columns cs cols" and "holds_documents docs cs" and "covers_field cols docs f"
  shows "field_answers (leaves cs) f"
proof -
  obtain n t d where f: "f = (n, t, d)" by (cases f)
  show ?thesis
  proof (cases "column_named cols n")
    case None
    then show ?thesis using fits_lookup [OF assms(1), of n] assms(3)
      by (simp add: f covers_field_def field_answers_def map_of_leaves)
  next
    case (Some c)
    obtain v where v: "map_of cs n = Some v" "of_type (col_type c) v \<or> v = VNull \<and> \<not> col_not_null c"
      using fits_lookup [OF assms(1), of n] Some by auto
    have t: "type_covers (listed_name docs n) t c" using assms(3) Some by (simp add: f covers_field_def)
    have doc: "v = VNull \<or> (\<exists>j. v = VJson j \<and> is_dict j)" if "listed_name docs n"
      using assms(2) v(1) that by (auto simp: holds_documents_def)
    have "answers t (Leaf v)"
      using t v(2) doc by (cases "(listed_name docs n, t, c)" rule: type_covers.cases) (auto dest: of_kind)
    then show ?thesis by (simp add: f field_answers_def map_of_leaves v(1))
  qed
qed

lemma list_all_apart: "(\<And>f. f \<in> set fs \<Longrightarrow> P f \<Longrightarrow> Q f) \<Longrightarrow> list_all P fs \<Longrightarrow> list_all Q fs"
  by (simp add: list_all_iff)

lemma covered_model:
  assumes "fits_columns cs cols" and "covers cols docs [] fs" and "holds_documents docs cs"
  shows "answers (F_model fs) (Dict (leaves cs))"
  using assms(2) covered_answers [OF assms(1,3)] by (auto simp: covers_def list_all_iff)

lemma fits_columns_append: "fits_columns cs cols \<Longrightarrow> fits_columns cs' cols' \<Longrightarrow> fits_columns (cs @ cs') (cols @ cols')"
  by (simp add: fits_columns_def list_all2_appendI)

text \<open>The columns a SELECT picks.\<close>

definition pick_columns :: "string list \<Rightarrow> column list \<Rightarrow> column list" where
  "pick_columns names cols = List.map_filter (column_named cols) names"

definition picks_columns :: "string list \<Rightarrow> column list \<Rightarrow> bool" where
  "picks_columns names cols \<longleftrightarrow> list_all (\<lambda>n. column_named cols n \<noteq> None) names"

lemma column_named_name: "column_named cols n = Some c \<Longrightarrow> col_name c = n"
  by (induction cols) (auto split: if_splits)

lemma fits_pick: "fits_columns cs cols \<Longrightarrow> picks_columns names cols \<Longrightarrow> fits_columns (columns names cs) (pick_columns names cols)"
proof (induction names)
  case (Cons n names)
  then obtain c where c: "column_named cols n = Some c" by (auto simp: picks_columns_def)
  then obtain v where "map_of cs n = Some v" "of_type (col_type c) v \<or> v = VNull \<and> \<not> col_not_null c"
    using fits_lookup [OF Cons.prems(1), of n] by auto
  then have "fits_column (n, row_of cs n) c" by (simp add: fits_column_def column_named_name [OF c] row_of_def)
  with Cons c show ?case by (simp add: columns_def pick_columns_def picks_columns_def fits_columns_def)
qed (simp add: columns_def pick_columns_def fits_columns_def)

section \<open>The response models of schemas.py\<close>

definition required_field :: "string \<Rightarrow> field_type \<Rightarrow> string \<times> field_type \<times> out option" where
  "required_field n t = (n, t, None)"

definition optional_field :: "string \<Rightarrow> field_type \<Rightarrow> string \<times> field_type \<times> out option" where
  "optional_field n t = (n, F_null t, Some (Leaf VNull))"

definition default_field :: "string \<Rightarrow> field_type \<Rightarrow> out \<Rightarrow> string \<times> field_type \<times> out option" where
  "default_field n t v = (n, t, Some v)"

definition destination_out :: fields where
  "destination_out =
     [required_field ''id'' (F_value Ty_uuid), required_field ''url'' (F_value Ty_text),
      required_field ''status'' (F_value Ty_text), required_field ''failure_count'' (F_value Ty_integer),
      default_field ''event_types'' (F_list (F_value Ty_text)) (Items []),
      optional_field ''recoverable_at'' (F_value Ty_timestamptz),
      required_field ''created_at'' (F_value Ty_timestamptz),
      default_field ''confirmation_state'' (F_value Ty_text) (Leaf (VText ''pending'')),
      optional_field ''challenge_expires_at'' (F_value Ty_timestamptz),
      optional_field ''confirmed_at'' (F_value Ty_timestamptz),
      default_field ''confirmation_generation'' (F_value Ty_integer) (Leaf (VInt 1)),
      default_field ''confirmation_round'' (F_value Ty_integer) (Leaf (VInt 1)),
      optional_field ''next_probe_at'' (F_value Ty_timestamptz),
      default_field ''observe_only'' (F_value Ty_boolean) (Leaf (VBool False)),
      optional_field ''paused_from'' (F_value Ty_timestamptz),
      optional_field ''paused_until'' (F_value Ty_timestamptz),
      default_field ''paused'' (F_value Ty_boolean) (Leaf (VBool False)),
      default_field ''filters'' (F_map F_dict) (Dict [])]"

definition destination_resume_out :: fields where
  "destination_resume_out =
     [required_field ''destination'' (F_model destination_out), required_field ''resumed'' (F_value Ty_boolean)]"

definition event_deliver_by_out :: fields where
  "event_deliver_by_out =
     [required_field ''event_id'' (F_value Ty_uuid), optional_field ''deliver_by'' (F_value Ty_timestamptz),
      required_field ''updated_count'' (F_value Ty_integer),
      default_field ''updated_real_count'' (F_value Ty_integer) (Leaf (VInt 0)),
      default_field ''updated_shadow_count'' (F_value Ty_integer) (Leaf (VInt 0))]"

definition relay_run_station_out :: fields where
  "relay_run_station_out =
     [required_field ''station_no'' (F_value Ty_integer), required_field ''destination_id'' (F_value Ty_uuid),
      optional_field ''destination_url'' (F_value Ty_text), required_field ''delivery_id'' (F_value Ty_uuid),
      required_field ''status'' (F_value Ty_text),
      default_field ''reconcile_state'' (F_value Ty_text) (Leaf (VText ''none'')),
      default_field ''acknowledged'' (F_value Ty_boolean) (Leaf (VBool False)),
      default_field ''delivered'' (F_value Ty_boolean) (Leaf (VBool False)),
      default_field ''reached'' (F_value Ty_boolean) (Leaf (VBool False)),
      optional_field ''skip_reason'' (F_value Ty_text), optional_field ''skipped_at'' (F_value Ty_timestamptz),
      optional_field ''stopped_by_delivery_id'' (F_value Ty_uuid)]"

definition relay_run_out :: fields where
  "relay_run_out =
     [default_field ''chained'' (F_value Ty_boolean) (Leaf (VBool True)),
      required_field ''event_type'' (F_value Ty_text), required_field ''chain_id'' (F_value Ty_uuid),
      required_field ''chain_version'' (F_value Ty_integer), required_field ''chain_active'' (F_value Ty_boolean),
      required_field ''station_count'' (F_value Ty_integer),
      default_field ''acknowledged_count'' (F_value Ty_integer) (Leaf (VInt 0)),
      default_field ''delivered_count'' (F_value Ty_integer) (Leaf (VInt 0)),
      default_field ''skipped_count'' (F_value Ty_integer) (Leaf (VInt 0)),
      optional_field ''current_station_no'' (F_value Ty_integer),
      default_field ''stopped'' (F_value Ty_boolean) (Leaf (VBool False)),
      optional_field ''stopped_at_station_no'' (F_value Ty_integer),
      optional_field ''stop_reason'' (F_value Ty_text),
      default_field ''completed'' (F_value Ty_boolean) (Leaf (VBool False)),
      default_field ''stations'' (F_list (F_model relay_run_station_out)) (Items [])]"

definition event_out :: fields where
  "event_out =
     [required_field ''id'' (F_value Ty_uuid), optional_field ''source_id'' (F_value Ty_uuid),
      required_field ''event_type'' (F_value Ty_text), required_field ''dedupe_key'' (F_value Ty_text),
      required_field ''payload'' F_dict, required_field ''status'' (F_value Ty_text),
      optional_field ''corrects_event_id'' (F_value Ty_uuid),
      default_field ''reconcile_status'' (F_value Ty_text) (Leaf (VText ''pending'')),
      optional_field ''ack_threshold'' (F_value Ty_integer),
      default_field ''required_ack_count'' (F_value Ty_integer) (Leaf (VInt 0)),
      default_field ''acknowledged_quorum'' (F_value Ty_boolean) (Leaf (VBool False)),
      required_field ''delivery_count'' (F_value Ty_integer),
      required_field ''delivered_count'' (F_value Ty_integer),
      default_field ''acknowledged_count'' (F_value Ty_integer) (Leaf (VInt 0)),
      default_field ''unacknowledged_count'' (F_value Ty_integer) (Leaf (VInt 0)),
      default_field ''shadow_delivery_count'' (F_value Ty_integer) (Leaf (VInt 0)),
      default_field ''shadow_delivered_count'' (F_value Ty_integer) (Leaf (VInt 0)),
      default_field ''shadow_acknowledged_count'' (F_value Ty_integer) (Leaf (VInt 0)),
      default_field ''shadow_unacknowledged_count'' (F_value Ty_integer) (Leaf (VInt 0)),
      default_field ''shadow_pending_count'' (F_value Ty_integer) (Leaf (VInt 0)),
      default_field ''shadow_superseded_count'' (F_value Ty_integer) (Leaf (VInt 0)),
      default_field ''shadow_dead_lettered_count'' (F_value Ty_integer) (Leaf (VInt 0)),
      optional_field ''not_before'' (F_value Ty_timestamptz), optional_field ''deliver_by'' (F_value Ty_timestamptz),
      optional_field ''cancelled_at'' (F_value Ty_timestamptz),
      default_field ''preview_gated'' (F_value Ty_boolean) (Leaf (VBool False)),
      optional_field ''preview_payload'' F_dict,
      default_field ''bodies_waiting_count'' (F_value Ty_integer) (Leaf (VInt 0)),
      default_field ''bodies_released_count'' (F_value Ty_integer) (Leaf (VInt 0)),
      default_field ''bodies_denied_count'' (F_value Ty_integer) (Leaf (VInt 0)),
      default_field ''bodies_expired_count'' (F_value Ty_integer) (Leaf (VInt 0)),
      default_field ''bodies_voided_count'' (F_value Ty_integer) (Leaf (VInt 0)),
      default_field ''shadow_bodies_waiting_count'' (F_value Ty_integer) (Leaf (VInt 0)),
      default_field ''shadow_bodies_released_count'' (F_value Ty_integer) (Leaf (VInt 0)),
      default_field ''shadow_bodies_closed_count'' (F_value Ty_integer) (Leaf (VInt 0)),
      default_field ''filtered_out_count'' (F_value Ty_integer) (Leaf (VInt 0)),
      default_field ''shadow_filtered_out_count'' (F_value Ty_integer) (Leaf (VInt 0)),
      required_field ''created_at'' (F_value Ty_timestamptz),
      default_field ''duplicate'' (F_value Ty_boolean) (Leaf (VBool False)),
      default_field ''superseded_count'' (F_value Ty_integer) (Leaf (VInt 0)),
      default_field ''dead_lettered_count'' (F_value Ty_integer) (Leaf (VInt 0)),
      default_field ''deadline_expired_count'' (F_value Ty_integer) (Leaf (VInt 0)),
      default_field ''shadow_deadline_expired_count'' (F_value Ty_integer) (Leaf (VInt 0)),
      default_field ''failed_count'' (F_value Ty_integer) (Leaf (VInt 0)),
      default_field ''shadow_failed_count'' (F_value Ty_integer) (Leaf (VInt 0)),
      default_field ''relay_skipped_count'' (F_value Ty_integer) (Leaf (VInt 0)),
      optional_field ''relay'' (F_model relay_run_out)]"

definition delivery_out :: fields where
  "delivery_out =
     [required_field ''id'' (F_value Ty_uuid), optional_field ''event_id'' (F_value Ty_uuid),
      required_field ''destination_id'' (F_value Ty_uuid), optional_field ''destination_url'' (F_value Ty_text),
      required_field ''destination_seq'' (F_value Ty_integer), required_field ''dedupe_key'' (F_value Ty_text),
      optional_field ''event_type'' (F_value Ty_text), required_field ''status'' (F_value Ty_text),
      required_field ''attempts'' (F_value Ty_integer), required_field ''next_attempt_at'' (F_value Ty_timestamptz),
      optional_field ''not_before'' (F_value Ty_timestamptz), optional_field ''deliver_by'' (F_value Ty_timestamptz),
      optional_field ''deliver_by_expired_at'' (F_value Ty_timestamptz),
      optional_field ''last_error'' (F_value Ty_text), required_field ''created_at'' (F_value Ty_timestamptz),
      required_field ''updated_at'' (F_value Ty_timestamptz),
      optional_field ''delivered_at'' (F_value Ty_timestamptz),
      default_field ''reconcile_state'' (F_value Ty_text) (Leaf (VText ''none'')),
      optional_field ''reconcile_deadline'' (F_value Ty_timestamptz),
      optional_field ''reconciled_at'' (F_value Ty_timestamptz), optional_field ''receipt_result'' (F_value Ty_text),
      default_field ''requeue_count'' (F_value Ty_integer) (Leaf (VInt 0)),
      default_field ''consecutive_failures'' (F_value Ty_integer) (Leaf (VInt 0)),
      optional_field ''dead_letter_reason'' (F_value Ty_text),
      optional_field ''dead_lettered_at'' (F_value Ty_timestamptz),
      default_field ''confirmation_generation'' (F_value Ty_integer) (Leaf (VInt 1)),
      default_field ''observe_only'' (F_value Ty_boolean) (Leaf (VBool False)),
      optional_field ''filter_spec'' F_dict, default_field ''phase'' (F_value Ty_text) (Leaf (VText ''body'')),
      optional_field ''release_state'' (F_value Ty_text), optional_field ''preview_delivery_id'' (F_value Ty_uuid),
      optional_field ''body_delivery_id'' (F_value Ty_uuid),
      optional_field ''consent_deadline'' (F_value Ty_timestamptz),
      optional_field ''consent_timeout_seconds'' (F_value Ty_integer),
      optional_field ''released_at'' (F_value Ty_timestamptz), optional_field ''voided_at'' (F_value Ty_timestamptz),
      optional_field ''void_reason'' (F_value Ty_text), optional_field ''relay_chain_id'' (F_value Ty_uuid),
      optional_field ''relay_station_no'' (F_value Ty_integer),
      optional_field ''relay_skipped_at'' (F_value Ty_timestamptz),
      optional_field ''relay_skip_reason'' (F_value Ty_text),
      optional_field ''relay_stopped_by_delivery_id'' (F_value Ty_uuid)]"

definition delivery_attempt_out :: fields where
  "delivery_attempt_out =
     [required_field ''id'' (F_value Ty_integer), optional_field ''delivery_id'' (F_value Ty_uuid),
      optional_field ''event_id'' (F_value Ty_uuid), required_field ''destination_id'' (F_value Ty_uuid),
      required_field ''attempt_no'' (F_value Ty_integer), required_field ''started_at'' (F_value Ty_timestamptz),
      required_field ''finished_at'' (F_value Ty_timestamptz), required_field ''success'' (F_value Ty_boolean),
      optional_field ''status_code'' (F_value Ty_integer), optional_field ''response_excerpt'' (F_value Ty_text),
      optional_field ''error'' (F_value Ty_text),
      default_field ''lost_lease'' (F_value Ty_boolean) (Leaf (VBool False))]"

definition receipt_out :: fields where
  "receipt_out =
     [required_field ''id'' (F_value Ty_uuid), required_field ''destination_id'' (F_value Ty_uuid),
      required_field ''dedupe_key'' (F_value Ty_text), required_field ''result'' (F_value Ty_text),
      optional_field ''delivery_id'' (F_value Ty_uuid), required_field ''disposition'' (F_value Ty_text),
      required_field ''received_at'' (F_value Ty_timestamptz)]"

definition reconciliation_summary_out :: fields where
  "reconciliation_summary_out =
     [default_field ''awaiting'' (F_value Ty_integer) (Leaf (VInt 0)),
      default_field ''acknowledged'' (F_value Ty_integer) (Leaf (VInt 0)),
      default_field ''receipt_failed'' (F_value Ty_integer) (Leaf (VInt 0)),
      default_field ''timed_out'' (F_value Ty_integer) (Leaf (VInt 0))]"

definition dead_letter_summary_out :: fields where
  "dead_letter_summary_out =
     [default_field ''total'' (F_value Ty_integer) (Leaf (VInt 0)),
      default_field ''delivery_attempts_exhausted'' (F_value Ty_integer) (Leaf (VInt 0)),
      default_field ''receipt_timeout_exhausted'' (F_value Ty_integer) (Leaf (VInt 0)),
      default_field ''receipt_failure_exhausted'' (F_value Ty_integer) (Leaf (VInt 0))]"

definition dead_letter_revive_out :: fields where
  "dead_letter_revive_out =
     [required_field ''delivery_id'' (F_value Ty_uuid), required_field ''destination_id'' (F_value Ty_uuid),
      required_field ''destination_seq'' (F_value Ty_integer),
      required_field ''dead_letter_reason'' (F_value Ty_text), required_field ''revived'' (F_value Ty_boolean)]"

definition requeue_out :: fields where
  "requeue_out =
     [required_field ''delivery_id'' (F_value Ty_uuid), required_field ''destination_id'' (F_value Ty_uuid),
      required_field ''destination_seq'' (F_value Ty_integer), required_field ''requeued'' (F_value Ty_boolean)]"

definition bulk_requeue_out :: fields where
  "bulk_requeue_out =
     [required_field ''destination_id'' (F_value Ty_uuid), required_field ''requeued_count'' (F_value Ty_integer)]"

definition event_bulk_requeue_out :: fields where
  "event_bulk_requeue_out =
     [required_field ''event_id'' (F_value Ty_uuid), required_field ''requeued_count'' (F_value Ty_integer),
      required_field ''deliveries'' (F_list (F_model requeue_out)),
      default_field ''already_acknowledged'' (F_value Ty_boolean) (Leaf (VBool False))]"

definition filter_evaluation_out :: fields where
  "filter_evaluation_out =
     [required_field ''id'' (F_value Ty_integer), required_field ''event_id'' (F_value Ty_uuid),
      required_field ''destination_id'' (F_value Ty_uuid), required_field ''event_type'' (F_value Ty_text),
      required_field ''matched'' (F_value Ty_boolean), required_field ''filter_spec'' F_dict,
      default_field ''observe_only'' (F_value Ty_boolean) (Leaf (VBool False)),
      required_field ''created_at'' (F_value Ty_timestamptz)]"

definition event_routing_out :: fields where
  "event_routing_out =
     [required_field ''destination_id'' (F_value Ty_uuid), optional_field ''destination_url'' (F_value Ty_text),
      default_field ''observe_only'' (F_value Ty_boolean) (Leaf (VBool False)),
      required_field ''subscribed'' (F_value Ty_boolean), optional_field ''filter_spec'' F_dict,
      required_field ''outcome'' (F_value Ty_text), optional_field ''matched'' (F_value Ty_boolean),
      optional_field ''evaluated_filter_spec'' F_dict, optional_field ''body_delivery_id'' (F_value Ty_uuid),
      optional_field ''body_status'' (F_value Ty_text)]"

definition event_trace_out :: fields where
  "event_trace_out =
     [required_field ''event'' (F_model event_out), required_field ''deliveries'' (F_list (F_model delivery_out)),
      required_field ''attempts'' (F_list (F_model delivery_attempt_out)),
      default_field ''receipts'' (F_list (F_model receipt_out)) (Items []),
      default_field ''corrections'' (F_list (F_model event_out)) (Items []),
      default_field ''filter_evaluations'' (F_list (F_model filter_evaluation_out)) (Items []),
      default_field ''routing'' (F_list (F_model event_routing_out)) (Items [])]"

definition recovery_out :: fields where
  "recovery_out =
     [required_field ''destination'' (F_model destination_out), required_field ''recovered'' (F_value Ty_boolean),
      optional_field ''pending_deliveries_reset'' (F_value Ty_integer)]"

definition source_out :: fields where
  "source_out =
     [required_field ''id'' (F_value Ty_uuid), required_field ''name'' (F_value Ty_text),
      required_field ''status'' (F_value Ty_text), optional_field ''disabled_at'' (F_value Ty_timestamptz),
      required_field ''key_rotated_at'' (F_value Ty_timestamptz),
      required_field ''created_at'' (F_value Ty_timestamptz)]"

definition source_created_out :: fields where
  "source_created_out =
     source_out @
     [required_field ''secret'' (F_value Ty_text)]"

definition source_rotated_out :: fields where
  "source_rotated_out =
     [required_field ''source'' (F_model source_created_out),
      required_field ''previous_key_rotated_at'' (F_value Ty_timestamptz)]"

definition ingestion_attempt_out :: fields where
  "ingestion_attempt_out =
     [required_field ''id'' (F_value Ty_integer), optional_field ''source_id'' (F_value Ty_uuid),
      optional_field ''source_name'' (F_value Ty_text), optional_field ''event_id'' (F_value Ty_uuid),
      optional_field ''dedupe_key'' (F_value Ty_text), optional_field ''event_type'' (F_value Ty_text),
      optional_field ''signed_at'' (F_value Ty_timestamptz), required_field ''disposition'' (F_value Ty_text),
      optional_field ''reason'' (F_value Ty_text), optional_field ''remote_addr'' (F_value Ty_text),
      required_field ''received_at'' (F_value Ty_timestamptz)]"

definition confirmation_out :: fields where
  "confirmation_out =
     [required_field ''destination_id'' (F_value Ty_uuid), required_field ''confirmation_state'' (F_value Ty_text),
      optional_field ''confirmed_at'' (F_value Ty_timestamptz),
      required_field ''confirmation_round'' (F_value Ty_integer), required_field ''disposition'' (F_value Ty_text),
      optional_field ''challenge_expires_at'' (F_value Ty_timestamptz)]"

definition reissue_challenge_out :: fields where
  "reissue_challenge_out =
     [required_field ''destination_id'' (F_value Ty_uuid), required_field ''confirmation_state'' (F_value Ty_text),
      required_field ''confirmation_round'' (F_value Ty_integer),
      required_field ''challenge_expires_at'' (F_value Ty_timestamptz),
      required_field ''reissued'' (F_value Ty_boolean)]"

definition confirmation_attempt_out :: fields where
  "confirmation_attempt_out =
     [required_field ''id'' (F_value Ty_integer), required_field ''destination_id'' (F_value Ty_uuid),
      required_field ''confirmation_round'' (F_value Ty_integer), required_field ''kind'' (F_value Ty_text),
      required_field ''result'' (F_value Ty_text), optional_field ''status_code'' (F_value Ty_integer),
      optional_field ''response_excerpt'' (F_value Ty_text), optional_field ''error'' (F_value Ty_text),
      required_field ''created_at'' (F_value Ty_timestamptz)]"

definition ack_threshold_out :: fields where
  "ack_threshold_out =
     [required_field ''event_type'' (F_value Ty_text), optional_field ''ack_threshold'' (F_value Ty_integer),
      optional_field ''created_at'' (F_value Ty_timestamptz), optional_field ''updated_at'' (F_value Ty_timestamptz),
      default_field ''configured'' (F_value Ty_boolean) (Leaf (VBool True))]"

definition preview_policy_out :: fields where
  "preview_policy_out =
     [required_field ''event_type'' (F_value Ty_text),
      optional_field ''consent_timeout_seconds'' (F_value Ty_integer),
      optional_field ''created_at'' (F_value Ty_timestamptz), optional_field ''updated_at'' (F_value Ty_timestamptz),
      default_field ''gated'' (F_value Ty_boolean) (Leaf (VBool True))]"

definition consent_out :: fields where
  "consent_out =
     [required_field ''event_id'' (F_value Ty_uuid), required_field ''destination_id'' (F_value Ty_uuid),
      optional_field ''delivery_id'' (F_value Ty_uuid), required_field ''disposition'' (F_value Ty_text),
      optional_field ''release_state'' (F_value Ty_text)]"

definition release_gate_out :: fields where
  "release_gate_out =
     delivery_out @
     [optional_field ''preview_status'' (F_value Ty_text),
      optional_field ''preview_delivered_at'' (F_value Ty_timestamptz),
      optional_field ''preview_delivery'' (F_value Ty_uuid)]"

definition release_gate_decision_out :: fields where
  "release_gate_decision_out =
     [required_field ''id'' (F_value Ty_integer), required_field ''destination_id'' (F_value Ty_uuid),
      optional_field ''event_id'' (F_value Ty_uuid), optional_field ''delivery_id'' (F_value Ty_uuid),
      required_field ''decision'' (F_value Ty_text), required_field ''disposition'' (F_value Ty_text),
      optional_field ''reason'' (F_value Ty_text), required_field ''created_at'' (F_value Ty_timestamptz)]"

definition body_void_out :: fields where
  "body_void_out =
     [required_field ''delivery_id'' (F_value Ty_uuid), required_field ''voided'' (F_value Ty_boolean),
      required_field ''status'' (F_value Ty_text), required_field ''release_state'' (F_value Ty_text)]"

definition relay_station_out :: fields where
  "relay_station_out =
     [required_field ''station_no'' (F_value Ty_integer), required_field ''destination_id'' (F_value Ty_uuid)]"

definition relay_chain_out :: fields where
  "relay_chain_out =
     [required_field ''id'' (F_value Ty_uuid), required_field ''event_type'' (F_value Ty_text),
      required_field ''version'' (F_value Ty_integer),
      default_field ''active'' (F_value Ty_boolean) (Leaf (VBool True)),
      required_field ''created_at'' (F_value Ty_timestamptz),
      default_field ''stations'' (F_list (F_model relay_station_out)) (Items [])]"

end
