(* ===== verification/Replies.thy ===== *)
theory Replies
  imports Responses
begin

text \<open>
  The dicts the handlers of app/main.py answer with, built from the rows they read: the columns of
  each SELECT, what \<open>destination_response\<close>, \<open>source_response\<close> and \<open>event_response\<close> add, the relay run view of
  relay.py, and the small replies of the single requests.
\<close>

section \<open>Destinations and sources\<close>

definition destination_confirm_columns :: "string list" where
  "destination_confirm_columns =
     [''id'', ''url'', ''status'', ''failure_count'', ''recoverable_at'', ''created_at'', ''confirmation_state'', ''challenge_token'',
      ''challenge_expires_at'', ''confirmed_at'', ''confirmation_generation'', ''confirmation_round'',
      ''confirmation_attempt_count'', ''next_probe_at'', ''observe_only'', ''paused_from'', ''paused_until'']"

definition destination_row :: "time \<Rightarrow> destination \<Rightarrow> (string \<times> out) list" where
  "destination_row now d = leaves (columns destination_confirm_columns (destination_cells d) @
     [(''paused'', VBool (paused now d))])"

text \<open>ORDER BY event_type follows the collation \<open>rank\<close>.\<close>

definition event_types_in_order :: "(string \<Rightarrow> int) \<Rightarrow> database \<Rightarrow> uuid \<Rightarrow> string list" where
  "event_types_in_order rank db i = map s_event_type (order_by (\<lambda>s. rank (s_event_type s)) (subscriptions_of db i))"

definition filters_in_order :: "(string \<Rightarrow> int) \<Rightarrow> database \<Rightarrow> uuid \<Rightarrow> (string \<times> json) list" where
  "filters_in_order rank db i = List.map_filter (\<lambda>s. map_option (Pair (s_event_type s)) (s_filter_spec s))
     (order_by (\<lambda>s. rank (s_event_type s)) (subscriptions_of db i))"

definition destination_response :: "(string \<Rightarrow> int) \<Rightarrow> time \<Rightarrow> database \<Rightarrow> destination \<Rightarrow> out" where
  "destination_response rank now db d = Dict
     (dict_set ''filters'' (Dict (map (\<lambda>(t, j). (t, Leaf (VJson j))) (filters_in_order rank db (dest_id d))))
       (dict_set ''event_types'' (Items (map (\<lambda>t. Leaf (VText t)) (event_types_in_order rank db (dest_id d))))
         (destination_row now d)))"

text \<open>GET /v1/destinations/{destination_id}.\<close>

definition get_destination :: "(string \<Rightarrow> int) \<Rightarrow> time \<Rightarrow> uuid \<Rightarrow> database \<Rightarrow> api_error + out" where
  "get_destination rank now i db = (case find_destination db i of None \<Rightarrow> Inl (Http 404)
     | Some d \<Rightarrow> Inr (destination_response rank now db d))"

definition recovery_reply :: "out \<Rightarrow> bool \<times> int option \<Rightarrow> out" where
  "recovery_reply destination r = Dict [(''destination'', destination), (''recovered'', Leaf (VBool (fst r))),
     (''pending_deliveries_reset'', Leaf (nullable VInt (snd r)))]"

definition resume_reply :: "out \<Rightarrow> bool \<Rightarrow> out" where
  "resume_reply destination resumed = Dict [(''destination'', destination), (''resumed'', Leaf (VBool resumed))]"

fun echo_word :: "echo_disposition \<Rightarrow> string" where
  "echo_word Echo_not_found = ''not_found''"
| "echo_word Echo_already_confirmed = ''already_confirmed''"
| "echo_word Echo_expired = ''expired''"
| "echo_word Echo_confirmed = ''confirmed''"
| "echo_word Echo_invalid = ''invalid''"

definition confirmation_reply :: "echo_disposition \<Rightarrow> destination \<Rightarrow> out" where
  "confirmation_reply disposition d = Dict (leaves
     [(''destination_id'', VUuid (dest_id d)), (''confirmation_state'', VText (confirmation_word (dest_confirmation_state d))),
      (''confirmed_at'', nullable VTime (dest_confirmed_at d)), (''confirmation_round'', VInt (dest_confirmation_round d)),
      (''disposition'', VText (echo_word disposition)),
      (''challenge_expires_at'', nullable VTime (dest_challenge_expires_at d))])"

definition reissue_reply :: "destination \<Rightarrow> out" where
  "reissue_reply d = Dict (leaves
     [(''destination_id'', VUuid (dest_id d)), (''confirmation_state'', VText (confirmation_word (dest_confirmation_state d))),
      (''confirmation_round'', VInt (dest_confirmation_round d)),
      (''challenge_expires_at'', nullable VTime (dest_challenge_expires_at d)), (''reissued'', VBool True)])"

definition source_columns :: "string list" where
  "source_columns = [''id'', ''name'', ''secret'', ''disabled_at'', ''key_rotated_at'', ''created_at'']"

definition source_response :: "bool \<Rightarrow> event_source \<Rightarrow> out" where
  "source_response include_secret s = Dict
     (filter (\<lambda>(n, _). include_secret \<or> n \<noteq> ''secret'')
       (dict_set ''status'' (Leaf (VText (if src_disabled_at s \<noteq> None then ''disabled'' else ''active'')))
         (leaves (columns source_columns (source_cells s)))))"

definition rotation_reply :: "time \<Rightarrow> event_source \<Rightarrow> out" where
  "rotation_reply previous s = Dict
     [(''source'', source_response True s), (''previous_key_rotated_at'', Leaf (VTime previous))]"

section \<open>Copies, attempts, receipts and judgements\<close>

definition delivery_columns :: "string list" where
  "delivery_columns =
     [''id'', ''event_id'', ''destination_id'', ''destination_seq'', ''dedupe_key'', ''event_type'', ''status'', ''attempts'',
      ''next_attempt_at'', ''not_before'', ''deliver_by'', ''deliver_by_expired_at'', ''last_error'', ''created_at'', ''updated_at'',
      ''delivered_at'', ''reconcile_state'', ''reconcile_deadline'', ''reconciled_at'', ''receipt_result'', ''requeue_count'',
      ''consecutive_failures'', ''dead_letter_reason'', ''dead_lettered_at'', ''confirmation_generation'', ''observe_only'',
      ''filter_spec'', ''phase'', ''release_state'', ''preview_delivery_id'', ''body_delivery_id'', ''consent_deadline'',
      ''consent_timeout_seconds'', ''released_at'', ''voided_at'', ''void_reason'', ''relay_chain_id'', ''relay_station_no'',
      ''relay_skipped_at'', ''relay_skip_reason'', ''relay_stopped_by_delivery_id'']"

text \<open>The row joined with its destination, for the address.\<close>

definition delivery_row :: "string \<Rightarrow> delivery \<Rightarrow> (string \<times> out) list" where
  "delivery_row url d = leaves ((''destination_url'', VText url) # columns delivery_columns (delivery_cells d))"

definition gate_row :: "string \<Rightarrow> delivery \<Rightarrow> delivery \<Rightarrow> (string \<times> out) list" where
  "gate_row url d p = delivery_row url d @ leaves
     [(''preview_status'', VText (status_word (d_status p))), (''preview_delivered_at'', nullable VTime (d_delivered_at p)),
      (''preview_delivery'', VUuid (d_id p))]"

definition attempt_row :: "int \<Rightarrow> string option \<Rightarrow> delivery_attempt \<Rightarrow> (string \<times> out) list" where
  "attempt_row serial excerpt a = leaves
     [(''id'', VInt serial), (''delivery_id'', VUuid (a_delivery_id a)), (''event_id'', nullable VUuid (a_event_id a)),
      (''destination_id'', VUuid (a_destination_id a)), (''attempt_no'', VInt (a_attempt_no a)),
      (''started_at'', VTime (a_started_at a)), (''finished_at'', VTime (a_finished_at a)), (''success'', VBool (a_success a)),
      (''status_code'', nullable VInt (a_status_code a)), (''response_excerpt'', nullable VText excerpt),
      (''error'', nullable VText (a_error a)), (''lost_lease'', VBool (a_lost_lease a))]"

definition receipt_row :: "receipt \<Rightarrow> (string \<times> out) list" where
  "receipt_row r = leaves (receipt_cells r)"

definition evaluation_answer :: "int \<Rightarrow> time \<Rightarrow> filter_evaluation \<Rightarrow> (string \<times> out) list" where
  "evaluation_answer serial created f = leaves
     [(''id'', VInt serial), (''event_id'', VUuid (fe_event_id f)), (''destination_id'', VUuid (fe_destination_id f)),
      (''event_type'', VText (fe_event_type f)), (''matched'', VBool (fe_matched f)), (''filter_spec'', VJson (fe_filter_spec f)),
      (''observe_only'', VBool (fe_observe_only f)), (''created_at'', VTime created)]"

fun routing_word :: "routing_outcome \<Rightarrow> string" where
  "routing_word Routing_matched = ''matched''"
| "routing_word Routing_no_condition = ''no_condition''"
| "routing_word Routing_filtered = ''filtered''"
| "routing_word Routing_unsubscribed = ''unsubscribed''"
| "routing_word Routing_unconfirmed = ''unconfirmed''"

definition routing_answer :: "string \<Rightarrow> routing_row \<times> routing_outcome \<Rightarrow> (string \<times> out) list" where
  "routing_answer url r = (case r of (row, outcome) \<Rightarrow> leaves
     [(''destination_id'', VUuid (rr_destination_id row)), (''destination_url'', VText url),
      (''observe_only'', VBool (rr_observe_only row)), (''subscribed'', VBool (rr_subscribed row)),
      (''filter_spec'', nullable VJson (rr_current_spec row)), (''outcome'', VText (routing_word outcome)),
      (''matched'', nullable VBool (rr_matched row)), (''evaluated_filter_spec'', nullable VJson (rr_evaluated_spec row)),
      (''body_delivery_id'', nullable (\<lambda>b. VUuid (fst b)) (rr_body row)),
      (''body_status'', nullable (\<lambda>b. VText (status_word (snd b))) (rr_body row))])"

definition ingestion_row :: "int \<Rightarrow> string option \<Rightarrow> string option \<Rightarrow> ingestion_attempt \<Rightarrow> (string \<times> out) list" where
  "ingestion_row serial reason addr a = leaves ((''id'', VInt serial) # ingestion_cells a @
     [(''reason'', nullable VText reason), (''remote_addr'', nullable VText addr)])"

fun confirmation_kind_word :: "confirmation_kind \<Rightarrow> string" where
  "confirmation_kind_word Kind_challenge = ''challenge''"
| "confirmation_kind_word Kind_echo = ''echo''"
| "confirmation_kind_word Kind_expired = ''expired''"

fun confirmation_result_word :: "confirmation_result \<Rightarrow> string" where
  "confirmation_result_word Result_sent = ''sent''"
| "confirmation_result_word Result_confirmed = ''confirmed''"
| "confirmation_result_word Result_failed = ''failed''"
| "confirmation_result_word Result_invalid = ''invalid''"
| "confirmation_result_word Result_expired = ''expired''"

definition confirmation_attempt_row ::
  "int \<Rightarrow> int option \<Rightarrow> string option \<Rightarrow> string option \<Rightarrow> time \<Rightarrow> confirmation_attempt \<Rightarrow> (string \<times> out) list" where
  "confirmation_attempt_row serial code excerpt failure created a = leaves
     [(''id'', VInt serial), (''destination_id'', VUuid (ca_destination_id a)),
      (''confirmation_round'', VInt (ca_confirmation_round a)), (''kind'', VText (confirmation_kind_word (ca_kind a))),
      (''result'', VText (confirmation_result_word (ca_result a))), (''status_code'', nullable VInt code),
      (''response_excerpt'', nullable VText excerpt), (''error'', nullable VText failure), (''created_at'', VTime created)]"

fun decision_word :: "consent_decision \<Rightarrow> string" where
  "decision_word Approve = ''approve''"
| "decision_word Deny = ''deny''"

fun consent_word :: "consent_disposition \<Rightarrow> string" where
  "consent_word Consent_released = ''released''"
| "consent_word Consent_denied = ''denied''"
| "consent_word Consent_duplicate = ''duplicate''"
| "consent_word Consent_late_ignored = ''late_ignored''"
| "consent_word Consent_conflict = ''conflict''"
| "consent_word Consent_preview_not_delivered = ''preview_not_delivered''"
| "consent_word Consent_not_gated = ''not_gated''"
| "consent_word Consent_orphan = ''orphan''"

definition gate_decision_row :: "int \<Rightarrow> string option \<Rightarrow> time \<Rightarrow> gate_decision \<Rightarrow> (string \<times> out) list" where
  "gate_decision_row serial reason created g = leaves
     [(''id'', VInt serial), (''destination_id'', VUuid (g_destination_id g)), (''event_id'', VUuid (g_event_id g)),
      (''delivery_id'', nullable VUuid (g_delivery_id g)), (''decision'', VText (decision_word (g_decision g))),
      (''disposition'', VText (consent_word (g_disposition g))), (''reason'', nullable VText reason),
      (''created_at'', VTime created)]"

section \<open>Event-type settings\<close>

text \<open>A station as relay.py returns it; \<open>get_active_chain\<close> leaves \<open>active\<close> to the default of the model.\<close>

definition station_row :: "relay_station \<Rightarrow> out" where
  "station_row s = Dict (leaves [(''chain_id'', VUuid (st_chain_id s)), (''station_no'', VInt (st_station_no s)),
     (''destination_id'', VUuid (st_destination_id s))])"

definition chain_reply :: "relay_chain \<Rightarrow> relay_station list \<Rightarrow> out" where
  "chain_reply c ss = Dict (dict_set ''stations'' (Items (map station_row ss)) (leaves (chain_cells c)))"

definition active_chain_reply :: "relay_chain \<times> relay_station list \<Rightarrow> out" where
  "active_chain_reply chain = Dict (dict_set ''stations'' (Items (map station_row (snd chain)))
     (leaves (columns [''id'', ''event_type'', ''version'', ''created_at''] (chain_cells (fst chain)))))"

definition threshold_reply :: "time \<Rightarrow> time \<Rightarrow> ack_threshold_row \<Rightarrow> out" where
  "threshold_reply created updated t = Dict (leaves
     [(''event_type'', VText (t_event_type t)), (''ack_threshold'', VInt (t_ack_threshold t)), (''created_at'', VTime created),
      (''updated_at'', VTime updated), (''configured'', VBool True)])"

definition no_threshold_reply :: "string \<Rightarrow> out" where
  "no_threshold_reply type = Dict (leaves
     [(''event_type'', VText type), (''ack_threshold'', VNull), (''created_at'', VNull), (''updated_at'', VNull),
      (''configured'', VBool False)])"

definition policy_reply :: "time \<Rightarrow> time \<Rightarrow> preview_policy \<Rightarrow> out" where
  "policy_reply created updated p = Dict (leaves
     [(''event_type'', VText (p_event_type p)), (''consent_timeout_seconds'', VInt (p_consent_timeout_seconds p)),
      (''created_at'', VTime created), (''updated_at'', VTime updated), (''gated'', VBool True)])"

definition no_policy_reply :: "string \<Rightarrow> out" where
  "no_policy_reply type = Dict (leaves
     [(''event_type'', VText type), (''consent_timeout_seconds'', VNull), (''created_at'', VNull), (''updated_at'', VNull),
      (''gated'', VBool False)])"

section \<open>The small replies\<close>

definition deliver_by_reply :: "uuid \<Rightarrow> time option \<Rightarrow> int \<times> int \<times> int \<Rightarrow> out" where
  "deliver_by_reply event deliver_by n = (case n of (updated, reals, shadows) \<Rightarrow> Dict (leaves
     [(''event_id'', VUuid event), (''deliver_by'', nullable VTime deliver_by), (''updated_count'', VInt updated),
      (''updated_real_count'', VInt reals), (''updated_shadow_count'', VInt shadows)]))"

definition requeue_reply :: "delivery \<Rightarrow> out" where
  "requeue_reply d = Dict (leaves
     [(''delivery_id'', VUuid (d_id d)), (''destination_id'', VUuid (d_destination_id d)),
      (''destination_seq'', VInt (d_destination_seq d)), (''requeued'', VBool True)])"

definition bulk_requeue_reply :: "uuid \<Rightarrow> int \<Rightarrow> out" where
  "bulk_requeue_reply dest n = Dict (leaves [(''destination_id'', VUuid dest), (''requeued_count'', VInt n)])"

definition event_requeue_reply :: "uuid \<Rightarrow> bool \<Rightarrow> delivery list \<Rightarrow> out" where
  "event_requeue_reply event acknowledged rows = Dict
     [(''event_id'', Leaf (VUuid event)), (''requeued_count'', Leaf (VInt (int (length rows)))),
      (''deliveries'', Items (map requeue_reply rows)), (''already_acknowledged'', Leaf (VBool acknowledged))]"

definition revive_reply :: "delivery \<Rightarrow> dead_letter_reason option \<Rightarrow> out" where
  "revive_reply d reason = Dict (leaves
     [(''delivery_id'', VUuid (d_id d)), (''destination_id'', VUuid (d_destination_id d)),
      (''destination_seq'', VInt (d_destination_seq d)), (''dead_letter_reason'', nullable (\<lambda>r. VText (dead_letter_word r)) reason),
      (''revived'', VBool True)])"

definition consent_reply :: "uuid \<Rightarrow> uuid \<Rightarrow> consent_answer \<Rightarrow> out" where
  "consent_reply event dest a = Dict (leaves
     [(''event_id'', VUuid event), (''destination_id'', VUuid dest), (''delivery_id'', nullable VUuid (ca_answer_delivery_id a)),
      (''disposition'', VText (consent_word (ca_answer_disposition a))),
      (''release_state'', nullable (\<lambda>r. VText (release_word r)) (ca_answer_release_state a))])"

definition void_reply :: "uuid \<Rightarrow> bool \<times> delivery_status \<times> release_state option \<Rightarrow> out" where
  "void_reply i r = (case r of (voided, st, rel) \<Rightarrow> Dict (leaves
     [(''delivery_id'', VUuid i), (''voided'', VBool voided), (''status'', VText (status_word st)),
      (''release_state'', nullable (\<lambda>r. VText (release_word r)) rel)]))"

definition reconciliation_reply :: "reconciliation_counts \<Rightarrow> out" where
  "reconciliation_reply n = Dict (leaves
     [(''awaiting'', VInt (rs_awaiting n)), (''acknowledged'', VInt (rs_acknowledged n)),
      (''receipt_failed'', VInt (rs_receipt_failed n)), (''timed_out'', VInt (rs_timed_out n))])"

definition dead_letters_reply :: "dead_letter_counts \<Rightarrow> out" where
  "dead_letters_reply n = Dict (leaves
     [(''total'', VInt (dl_total n)), (''delivery_attempts_exhausted'', VInt (dl_attempts_exhausted n)),
      (''receipt_timeout_exhausted'', VInt (dl_timeout_exhausted n)),
      (''receipt_failure_exhausted'', VInt (dl_failure_exhausted n))])"

section \<open>Events\<close>

fun event_state_word :: "event_state \<Rightarrow> string" where
  "event_state_word Ev_cancelled = ''cancelled''"
| "event_state_word Ev_relay_halted = ''relay_halted''"
| "event_state_word Ev_superseded = ''superseded''"
| "event_state_word Ev_release_closed = ''release_closed''"
| "event_state_word Ev_deadline_expired = ''deadline_expired''"
| "event_state_word Ev_filtered = ''filtered''"
| "event_state_word Ev_unrouted = ''unrouted''"
| "event_state_word Ev_pending = ''pending''"
| "event_state_word Ev_dead_lettered = ''dead_lettered''"
| "event_state_word Ev_failed = ''failed''"
| "event_state_word Ev_delivered = ''delivered''"

fun reconcile_status_word :: "reconcile_status \<Rightarrow> string" where
  "reconcile_status_word Rs_pending = ''pending''"
| "reconcile_status_word Rs_partially_acknowledged = ''partially_acknowledged''"
| "reconcile_status_word Rs_acknowledged = ''acknowledged''"

text \<open>The row of EVENT_WITH_COUNTS_SQL with the withheld counts attached.\<close>

definition counts_cells :: "counts \<Rightarrow> cells" where
  "counts_cells n = map (\<lambda>(k, v). (k, VInt v))
     [(''delivery_count'', n_delivery n), (''delivered_count'', n_delivered n), (''pending_count'', n_pending n),
      (''acknowledged_count'', n_acknowledged n), (''superseded_count'', n_superseded n),
      (''dead_lettered_count'', n_dead_lettered n), (''deadline_expired_count'', n_deadline_expired n),
      (''failed_count'', n_failed n), (''relay_skipped_count'', n_relay_skipped n), (''relay_stopped_count'', n_relay_stopped n),
      (''shadow_delivery_count'', n_shadow_delivery n), (''shadow_delivered_count'', n_shadow_delivered n),
      (''shadow_pending_count'', n_shadow_pending n), (''shadow_acknowledged_count'', n_shadow_acknowledged n),
      (''shadow_superseded_count'', n_shadow_superseded n), (''shadow_dead_lettered_count'', n_shadow_dead_lettered n),
      (''shadow_deadline_expired_count'', n_shadow_deadline_expired n), (''shadow_failed_count'', n_shadow_failed n),
      (''bodies_waiting_count'', n_bodies_waiting n), (''bodies_released_count'', n_bodies_released n),
      (''bodies_denied_count'', n_bodies_denied n), (''bodies_expired_count'', n_bodies_expired n),
      (''bodies_voided_count'', n_bodies_voided n), (''shadow_bodies_waiting_count'', n_shadow_bodies_waiting n),
      (''shadow_bodies_released_count'', n_shadow_bodies_released n), (''shadow_bodies_closed_count'', n_shadow_bodies_closed n),
      (''previews_delivered_count'', n_previews_delivered n),
      (''shadow_previews_delivered_count'', n_shadow_previews_delivered n),
      (''filtered_out_count'', n_filtered_out n), (''shadow_filtered_out_count'', n_shadow_filtered_out n)]"

definition event_columns :: "string list" where
  "event_columns =
     [''id'', ''source_id'', ''event_type'', ''dedupe_key'', ''payload'', ''created_at'', ''not_before'', ''deliver_by'', ''cancelled_at'',
      ''required_ack_count'', ''preview_payload'', ''corrects_event_id'']"

definition event_counts_row :: "event \<Rightarrow> int option \<Rightarrow> bool \<Rightarrow> counts \<Rightarrow> (string \<times> out) list" where
  "event_counts_row e threshold gated n = leaves (columns event_columns (event_cells e) @
     [(''configured_ack_threshold'', nullable VInt threshold), (''preview_gated'', VBool gated)] @ counts_cells n)"

definition event_fields :: "event_view \<Rightarrow> counts \<Rightarrow> int option \<Rightarrow> cells" where
  "event_fields v n threshold =
     [(''filtered_out_count'', VInt (n_filtered_out n)), (''shadow_filtered_out_count'', VInt (n_shadow_filtered_out n)),
      (''delivery_count'', VInt (v_delivery_count v)), (''superseded_count'', VInt (n_superseded n)),
      (''dead_lettered_count'', VInt (n_dead_lettered n)), (''deadline_expired_count'', VInt (n_deadline_expired n)),
      (''pending_count'', VInt (n_pending n)), (''failed_count'', VInt (n_failed n)),
      (''relay_skipped_count'', VInt (n_relay_skipped n)), (''bodies_denied_count'', VInt (n_bodies_denied n)),
      (''bodies_expired_count'', VInt (n_bodies_expired n)), (''bodies_voided_count'', VInt (n_bodies_voided n)),
      (''shadow_delivery_count'', VInt (shadow_live_count n)), (''shadow_superseded_count'', VInt (n_shadow_superseded n)),
      (''shadow_dead_lettered_count'', VInt (n_shadow_dead_lettered n)),
      (''shadow_deadline_expired_count'', VInt (n_shadow_deadline_expired n)),
      (''shadow_pending_count'', VInt (n_shadow_pending n)), (''shadow_failed_count'', VInt (n_shadow_failed n)),
      (''status'', VText (event_state_word (v_status v))), (''required_ack_count'', VInt (v_required_ack_count v)),
      (''reconcile_status'', VText (reconcile_status_word (v_reconcile_status v))),
      (''acknowledged_quorum'', VBool (v_acknowledged_quorum v)), (''unacknowledged_count'', VInt (v_unacknowledged_count v)),
      (''ack_threshold'', nullable VInt threshold), (''shadow_acknowledged_count'', VInt (n_shadow_acknowledged n)),
      (''shadow_unacknowledged_count'', VInt (v_shadow_unacknowledged_count v))]"

text \<open>\<open>event_response\<close> as an update of the row's dict.\<close>

definition event_dict :: "event_view \<Rightarrow> counts \<Rightarrow> int option \<Rightarrow> (string \<times> out) list \<Rightarrow> (string \<times> out) list" where
  "event_dict v n threshold row = fold (\<lambda>(k, x). dict_set k (Leaf x)) (event_fields v n threshold)
     (filter (\<lambda>(k, _). k \<noteq> ''relay_stopped_count'' \<and> k \<noteq> ''configured_ack_threshold'') row)"

text \<open>The relay run view: one entry per station, in order, and the version the event set out under.\<close>

definition relay_station_reply :: "database \<Rightarrow> delivery \<Rightarrow> out" where
  "relay_station_reply db d = Dict (leaves
     [(''station_no'', nullable VInt (d_relay_station_no d)), (''destination_id'', VUuid (d_destination_id d)),
      (''destination_url'', nullable (\<lambda>x. VText (dest_url x)) (find_destination db (d_destination_id d))),
      (''delivery_id'', VUuid (d_id d)), (''status'', VText (status_word (d_status d))),
      (''reconcile_state'', VText (reconcile_word (d_reconcile_state d))),
      (''acknowledged'', VBool (d_reconcile_state d = Acknowledged)), (''delivered'', VBool (d_delivered_at d \<noteq> None)),
      (''reached'', VBool (reached d)), (''skip_reason'', nullable (\<lambda>r. VText (skip_word r)) (d_relay_skip_reason d)),
      (''skipped_at'', nullable VTime (d_relay_skipped_at d)),
      (''stopped_by_delivery_id'', nullable VUuid (d_relay_stopped_by_delivery_id d))])"

definition run_chain :: "database \<Rightarrow> uuid \<Rightarrow> uuid option" where
  "run_chain db event = (case first_row (\<lambda>d. d_event_id d = Some event \<and> d_relay_chain_id d \<noteq> None) (deliveries db) of
     None \<Rightarrow> None | Some d \<Rightarrow> d_relay_chain_id d)"

definition relay_reply :: "database \<Rightarrow> event \<Rightarrow> out" where
  "relay_reply db e = (case build_event_relay db (e_id e) of
     None \<Rightarrow> Leaf VNull
   | Some r \<Rightarrow>
       let chain = run_chain db (e_id e);
           version = first_row (\<lambda>c. chain = Some (ch_id c)) (relay_chains db)
       in Dict
        [(''chained'', Leaf (VBool True)),
         (''event_type'', Leaf (VText (case version of Some c \<Rightarrow> ch_event_type c | None \<Rightarrow> e_event_type e))),
         (''chain_id'', Leaf (nullable VUuid chain)), (''chain_version'', Leaf (nullable (\<lambda>c. VInt (ch_version c)) version)),
         (''chain_active'', Leaf (VBool (case version of Some c \<Rightarrow> ch_active c | None \<Rightarrow> False))),
         (''station_count'', Leaf (VInt (run_station_count r))), (''acknowledged_count'', Leaf (VInt (run_acknowledged_count r))),
         (''delivered_count'', Leaf (VInt (run_delivered_count r))), (''skipped_count'', Leaf (VInt (run_skipped_count r))),
         (''current_station_no'', Leaf (nullable VInt (run_current_station_no r))), (''stopped'', Leaf (VBool (run_stopped r))),
         (''stopped_at_station_no'', Leaf (nullable VInt (run_stopped_at_station_no r))),
         (''stop_reason'', Leaf (nullable (\<lambda>x. VText (skip_word x)) (run_stop_reason r))),
         (''completed'', Leaf (VBool (run_completed r))),
         (''stations'', Items (map (relay_station_reply db) (run_rows db (e_id e))))])"

text \<open>The answer for a stored event, from \<open>event_response_with_relay\<close>; a listing of corrections has no run view.\<close>

definition event_answer :: "event \<Rightarrow> counts \<Rightarrow> int option \<Rightarrow> bool \<Rightarrow> out \<Rightarrow> out" where
  "event_answer e n threshold gated run = Dict (dict_set ''relay'' run
     (event_dict (event_response e n) n threshold (event_counts_row e threshold gated n)))"

definition event_reply :: "database \<Rightarrow> event \<Rightarrow> out" where
  "event_reply db e = event_answer e (event_counts db (e_id e)) (ack_threshold_of db (e_event_type e))
     (get_policy db (e_event_type e) \<noteq> None) (relay_reply db e)"

definition corrections_entry :: "database \<Rightarrow> event \<Rightarrow> out" where
  "corrections_entry db e =
     (let n = (event_counts db (e_id e))\<lparr>n_relay_stopped := 0\<rparr>; threshold = ack_threshold_of db (e_event_type e) in
      Dict (event_dict (event_response e n) n threshold
        (event_counts_row e threshold (get_policy db (e_event_type e) \<noteq> None) n)))"

definition duplicate_reply :: "database \<Rightarrow> event \<Rightarrow> out" where
  "duplicate_reply db e = (case event_reply db e of Dict kvs \<Rightarrow> Dict (dict_set ''duplicate'' (Leaf (VBool True)) kvs) | v \<Rightarrow> v)"

text \<open>The answer to a new correction: its dict has no \<open>preview_gated\<close> and none of the gate's counts.\<close>

definition correction_columns :: "string list" where
  "correction_columns =
     [''id'', ''source_id'', ''event_type'', ''dedupe_key'', ''payload'', ''not_before'', ''cancelled_at'', ''created_at'',
      ''required_ack_count'', ''corrects_event_id'']"

definition correction_counts :: "string list" where
  "correction_counts =
     [''delivery_count'', ''delivered_count'', ''pending_count'', ''acknowledged_count'', ''superseded_count'',
      ''dead_lettered_count'', ''deadline_expired_count'', ''failed_count'', ''shadow_delivery_count'', ''shadow_delivered_count'',
      ''shadow_pending_count'', ''shadow_acknowledged_count'', ''shadow_superseded_count'', ''shadow_dead_lettered_count'',
      ''shadow_deadline_expired_count'', ''shadow_failed_count'', ''filtered_out_count'', ''shadow_filtered_out_count'']"

definition correction_answer :: "event \<Rightarrow> counts \<Rightarrow> int option \<Rightarrow> out" where
  "correction_answer e n threshold = Dict (event_dict (event_response e n) n threshold
     (leaves (columns correction_columns (event_cells e) @ [(''configured_ack_threshold'', nullable VInt threshold)] @
        columns correction_counts (counts_cells n))))"

section \<open>Reading an event and its trace\<close>

definition url_of :: "database \<Rightarrow> uuid \<Rightarrow> string" where
  "url_of db i = (case find_destination db i of None \<Rightarrow> [] | Some t \<Rightarrow> dest_url t)"

definition get_event_reply :: "uuid \<Rightarrow> database \<Rightarrow> api_error + out" where
  "get_event_reply i db = (case find_event db i of None \<Rightarrow> Inl (Http 404) | Some e \<Rightarrow> Inr (event_reply db e))"

text \<open>\<open>serial\<close> and \<open>stamp\<close> give the serial id and the unmodelled columns of an attempt and of a judgement.\<close>

definition event_trace_reply ::
  "(string \<Rightarrow> int) \<Rightarrow> (delivery_attempt \<Rightarrow> int \<times> string option) \<Rightarrow> (filter_evaluation \<Rightarrow> int \<times> time) \<Rightarrow>
   uuid \<Rightarrow> database \<Rightarrow> api_error + out" where
  "event_trace_reply rank serial stamp i db =
     (case find_event db i of
        None \<Rightarrow> Inl (Http 404)
      | Some e \<Rightarrow> Inr (Dict
         [(''event'', event_reply db e),
          (''deliveries'', Items (map (\<lambda>d. Dict (delivery_row (url_of db (d_destination_id d)) d)) (trace_deliveries rank db i))),
          (''attempts'', Items (map (\<lambda>a. Dict (attempt_row (fst (serial a)) (snd (serial a)) a)) (trace_attempts db i))),
          (''receipts'', Items (map (\<lambda>r. Dict (receipt_row r)) (trace_receipts db i))),
          (''corrections'', Items (map (\<lambda>c. corrections_entry db (fst c)) (list_corrections_of db i))),
          (''filter_evaluations'', Items (map (\<lambda>f. Dict (evaluation_answer (fst (stamp f)) (snd (stamp f)) f))
             (list_filter_evaluations_of db i))),
          (''routing'', Items (map (\<lambda>r. Dict (routing_answer (url_of db (rr_destination_id (fst r))) r))
             (event_routing rank db i)))]))"

text \<open>The answers built from what the change has just returned.\<close>

definition answer_with :: "('a \<Rightarrow> out) \<Rightarrow> api_error + 'a \<times> database \<Rightarrow> api_error + out" where
  "answer_with f outcome = (case outcome of Inl err \<Rightarrow> Inl err | Inr (x, _) \<Rightarrow> Inr (f x))"

definition revive_answer :: "time \<Rightarrow> uuid \<Rightarrow> database \<Rightarrow> api_error + out" where
  "revive_answer now i db = (case find_delivery db i of None \<Rightarrow> Inl (Http 404)
     | Some d \<Rightarrow> answer_with (revive_reply d) (revive_dead_letter now i db))"

definition void_answer :: "time \<Rightarrow> uuid \<Rightarrow> database \<Rightarrow> api_error + out" where
  "void_answer now i db = answer_with (void_reply i) (void_gated_body now i db)"

definition reissue_answer :: "time \<Rightarrow> settings \<Rightarrow> string \<Rightarrow> uuid \<Rightarrow> database \<Rightarrow> api_error + out" where
  "reissue_answer now s token i db =
     answer_with (\<lambda>d. case d of None \<Rightarrow> Leaf VNull | Some t \<Rightarrow> reissue_reply t) (reissue_challenge now s token i db)"

end
