(* ===== verification/Conformance.thy ===== *)
theory Conformance
  imports Replies
begin

text \<open>
  Every row the service keeps can be answered: the dicts of Replies pass the response models of
  Responses in every state the service reaches, so that no request that has committed is turned into
  a 500 by its own answer, and what a response model leaves out never reaches a client.
\<close>

section \<open>Dicts\<close>

lemmas field_kinds = required_field_def optional_field_def default_field_def

lemma field_answers_kinds [simp]:
  "field_answers kvs (required_field n t) \<longleftrightarrow> (case map_of kvs n of None \<Rightarrow> False | Some v \<Rightarrow> answers t v)"
  "field_answers kvs (optional_field n t) \<longleftrightarrow> (case map_of kvs n of None \<Rightarrow> True | Some v \<Rightarrow> answers (F_null t) v)"
  "field_answers kvs (default_field n t d) \<longleftrightarrow> (case map_of kvs n of None \<Rightarrow> True | Some v \<Rightarrow> answers t v)"
  by (simp_all add: field_answers_def field_kinds split: option.split)

lemma leaves_simps [simp]:
  "leaves [] = []" "leaves ((n, v) # cs) = (n, Leaf v) # leaves cs" "leaves (xs @ ys) = leaves xs @ leaves ys"
  by (simp_all add: leaves_def)

lemma columns_simps [simp]: "columns [] cs = []" "columns (n # ns) cs = (n, row_of cs n) # columns ns cs"
  by (simp_all add: columns_def)

text \<open>A dict with one member set apart.\<close>

lemma field_answers_set:
  "field_answers (dict_set k v kvs) f \<longleftrightarrow> (if fst f = k then answers (fst (snd f)) v else field_answers kvs f)"
  by (auto simp: field_answers_def split: prod.splits)

lemma field_answers_cong: "map_of kvs (fst f) = map_of kvs' (fst f) \<Longrightarrow> field_answers kvs f = field_answers kvs' f"
  by (auto simp: field_answers_def split: prod.split)

lemma field_answers_append: "map_of extra (fst f) = None \<Longrightarrow> field_answers (row @ extra) f = field_answers row f"
  by (cases f) (simp add: field_answers_def map_add_def split: option.split)

definition typed_as :: "string \<Rightarrow> field_type \<Rightarrow> fields \<Rightarrow> bool" where
  "typed_as k t fs \<longleftrightarrow> list_all (\<lambda>f. branch (same_text (fst f) k) (fst (snd f) = t) True) fs"

lemma typed_as_member: "typed_as k t fs \<Longrightarrow> f \<in> set fs \<Longrightarrow> fst f = k \<Longrightarrow> fst (snd f) = t"
  by (auto simp: typed_as_def list_all_iff)

lemma no_documents [simp]: "holds_documents [] cs"
  by (simp add: holds_documents_def)

section \<open>Rows of one table\<close>

lemma receipt_answers: "answers (F_model receipt_out) (Dict (receipt_row r))"
  unfolding receipt_row_def
proof (rule covered_model [where docs = "[]", OF cells_fit(4)])
  show "covers (the (columns_after schema_statements ''receipts'')) [] [] receipt_out"
    unfolding other_table_columns option.sel by code_simp
qed simp

lemma delivery_fits:
  "fits_columns ((''destination_url'', VText url) # columns delivery_columns (delivery_cells d))
     (required_column ''destination_url'' Ty_text # pick_columns delivery_columns deliveries_columns)"
proof -
  have "picks_columns delivery_columns deliveries_columns" by code_simp
  then have "fits_columns (columns delivery_columns (delivery_cells d)) (pick_columns delivery_columns deliveries_columns)"
    by (rule fits_pick [OF delivery_cells_fit])
  then show ?thesis by (simp add: fits_columns_def)
qed

lemma delivery_answers:
  assumes "document (d_filter_spec d)"
  shows "answers (F_model delivery_out) (Dict (delivery_row url d))"
  unfolding delivery_row_def
proof (rule covered_model [where docs = "[''filter_spec'']", OF delivery_fits])
  show "covers (required_column ''destination_url'' Ty_text # pick_columns delivery_columns deliveries_columns) [''filter_spec''] []
      delivery_out"
    by code_simp
  have "map_of ((''destination_url'', VText url) # columns delivery_columns (delivery_cells d)) ''filter_spec''
      = Some (nullable VJson (d_filter_spec d))"
    by (simp add: delivery_columns_def delivery_cells_def row_of_def)
  then show "holds_documents [''filter_spec''] ((''destination_url'', VText url) # columns delivery_columns (delivery_cells d))"
    using assms by (cases "d_filter_spec d") (auto simp: holds_documents_def)
qed

lemma gate_names_apart:
  "list_all (\<lambda>f. \<not> listed_name [''preview_status'', ''preview_delivered_at'', ''preview_delivery''] (fst f)) delivery_out"
  by code_simp

lemma gate_answers:
  assumes "document (d_filter_spec d)"
  shows "answers (F_model release_gate_out) (Dict (gate_row url d p))"
proof -
  have names: "map_of (delivery_row url d) ''preview_status'' = None" "map_of (delivery_row url d) ''preview_delivered_at'' = None"
    "map_of (delivery_row url d) ''preview_delivery'' = None"
    by (simp_all add: delivery_row_def delivery_columns_def)
  have extra: "map_of (leaves [(''preview_status'', VText (status_word (d_status p))),
      (''preview_delivered_at'', nullable VTime (d_delivered_at p)), (''preview_delivery'', VUuid (d_id p))]) (fst f) = None"
    if "f \<in> set delivery_out" for f
    using gate_names_apart that by (simp add: list_all_iff)
  have "field_answers (delivery_row url d) f" if "f \<in> set delivery_out" for f
    using delivery_answers [OF assms, of url] that by (simp add: list_all_iff)
  then have "list_all (field_answers (gate_row url d p)) delivery_out"
    unfolding list_all_iff gate_row_def using field_answers_append [OF extra] by blast
  then show ?thesis
    using names by (simp add: release_gate_out_def gate_row_def map_add_def)
qed

section \<open>The small answers\<close>

lemma attempt_answers: "answers (F_model delivery_attempt_out) (Dict (attempt_row serial excerpt a))"
  by (simp add: attempt_row_def delivery_attempt_out_def)

lemma evaluation_answers:
  "is_dict (fe_filter_spec f) \<Longrightarrow> answers (F_model filter_evaluation_out) (Dict (evaluation_answer serial created f))"
  by (simp add: evaluation_answer_def filter_evaluation_out_def)

lemma answers_document [simp]: "document j \<Longrightarrow> answers (F_null F_dict) (Leaf (nullable VJson j))"
  by (cases j) simp_all

lemma routing_answers:
  assumes "document (rr_current_spec (fst r))" and "document (rr_evaluated_spec (fst r))"
  shows "answers (F_model event_routing_out) (Dict (routing_answer url r))"
  using assms by (cases r) (simp add: routing_answer_def event_routing_out_def)

lemma ingestion_answers: "answers (F_model ingestion_attempt_out) (Dict (ingestion_row serial reason addr a))"
  by (simp add: ingestion_row_def ingestion_cells_def ingestion_attempt_out_def)

lemma confirmation_attempt_answers:
  "answers (F_model confirmation_attempt_out) (Dict (confirmation_attempt_row serial code excerpt failure created a))"
  by (simp add: confirmation_attempt_row_def confirmation_attempt_out_def)

lemma gate_decision_answers:
  "answers (F_model release_gate_decision_out) (Dict (gate_decision_row serial reason created g))"
  by (simp add: gate_decision_row_def release_gate_decision_out_def)

lemma source_answers:
  "answers (F_model source_out) (source_response False s)"
  "answers (F_model source_created_out) (source_response True s)"
  by (simp_all add: source_response_def source_columns_def source_cells_def row_of_def source_out_def source_created_out_def)

lemma rotation_answers: "answers (F_model source_rotated_out) (rotation_reply previous s)"
  using source_answers(2) [of s] by (simp add: rotation_reply_def source_rotated_out_def)

lemma setting_answers:
  "answers (F_model relay_chain_out) (chain_reply c ss)"
  "answers (F_model relay_chain_out) (active_chain_reply (c, ss))"
  "answers (F_model ack_threshold_out) (threshold_reply created updated t)"
  "answers (F_model ack_threshold_out) (no_threshold_reply type)"
  "answers (F_model preview_policy_out) (policy_reply created updated p)"
  "answers (F_model preview_policy_out) (no_policy_reply type)"
  by (simp_all add: chain_reply_def active_chain_reply_def chain_cells_def row_of_def relay_chain_out_def station_row_def
      relay_station_out_def threshold_reply_def no_threshold_reply_def ack_threshold_out_def policy_reply_def
      no_policy_reply_def preview_policy_out_def list_all_iff)

lemma reply_answers:
  "answers (F_model event_deliver_by_out) (deliver_by_reply event deliver_by n)"
  "answers (F_model requeue_out) (requeue_reply d)"
  "answers (F_model bulk_requeue_out) (bulk_requeue_reply dest count)"
  "answers (F_model event_bulk_requeue_out) (event_requeue_reply event acknowledged rows)"
  "answers (F_model consent_out) (consent_reply event dest a)"
  "answers (F_model reconciliation_summary_out) (reconciliation_reply rc)"
  "answers (F_model dead_letter_summary_out) (dead_letters_reply dl)"
  "answers (F_model confirmation_out) (confirmation_reply disposition t)"
  by (cases n; simp_all add: deliver_by_reply_def event_deliver_by_out_def requeue_reply_def requeue_out_def bulk_requeue_reply_def
      bulk_requeue_out_def event_requeue_reply_def event_bulk_requeue_out_def consent_reply_def consent_out_def
      reconciliation_reply_def reconciliation_summary_out_def dead_letters_reply_def dead_letter_summary_out_def
      confirmation_reply_def confirmation_out_def list_all_iff)+

text \<open>The three that rest on what the handler has just found or written.\<close>

lemma conditional_answers:
  "answers (F_model dead_letter_revive_out) (revive_reply d (Some reason))"
  "answers (F_model body_void_out) (void_reply i (voided, st, Some rel))"
  "answers (F_model reissue_challenge_out) (reissue_reply (armed now s token bump t))"
  by (simp_all add: revive_reply_def dead_letter_revive_out_def void_reply_def body_void_out_def reissue_reply_def
      reissue_challenge_out_def armed_def)

section \<open>Destinations\<close>

definition destination_row_columns :: "column list" where
  "destination_row_columns = pick_columns destination_confirm_columns (the (columns_after schema_statements ''destinations'')) @
     [required_column ''paused'' Ty_boolean]"

lemma destination_row_fits:
  "fits_columns (columns destination_confirm_columns (destination_cells d) @ [(''paused'', VBool b)]) destination_row_columns"
proof -
  have "picks_columns destination_confirm_columns (the (columns_after schema_statements ''destinations''))"
    unfolding other_table_columns option.sel by code_simp
  then have "fits_columns (columns destination_confirm_columns (destination_cells d))
      (pick_columns destination_confirm_columns (the (columns_after schema_statements ''destinations'')))"
    by (rule fits_pick [OF cells_fit(1)])
  then show ?thesis
    unfolding destination_row_columns_def by (rule fits_columns_append) (simp add: fits_columns_def)
qed

lemma destination_covers:
  "covers destination_row_columns [] [''event_types'', ''filters''] destination_out"
  "typed_as ''event_types'' (F_list (F_value Ty_text)) destination_out"
  "typed_as ''filters'' (F_map F_dict) destination_out"
  unfolding destination_row_columns_def other_table_columns option.sel by code_simp+

lemma filters_documents:
  assumes "\<forall>s \<in> set (destination_subscriptions db). document (s_filter_spec s)"
  shows "list_all (is_dict \<circ> snd) (filters_in_order rank db i)"
  using assms
  by (auto simp: list_all_iff filters_in_order_def List.map_filter_def subscriptions_of_def document_def split: option.splits)

lemma destination_answers:
  assumes "\<forall>s \<in> set (destination_subscriptions db). document (s_filter_spec s)"
  shows "answers (F_model destination_out) (destination_response rank now db d)"
proof -
  have "list_all (field_answers (dict_set ''filters'' (Dict (map (\<lambda>(t, j). (t, Leaf (VJson j))) (filters_in_order rank db (dest_id d))))
      (dict_set ''event_types'' (Items (map (\<lambda>t. Leaf (VText t)) (event_types_in_order rank db (dest_id d))))
        (destination_row now d)))) destination_out"
    unfolding list_all_iff
  proof
    fix f
    assume f: "f \<in> set destination_out"
    have "fst (snd f) = F_list (F_value Ty_text)" if "fst f = ''event_types''"
      using typed_as_member [OF destination_covers(2) f that] .
    moreover have "fst (snd f) = F_map F_dict" if "fst f = ''filters''"
      using typed_as_member [OF destination_covers(3) f that] .
    moreover have "field_answers (destination_row now d) f" if "fst f \<noteq> ''event_types''" "fst f \<noteq> ''filters''"
      unfolding destination_row_def
      by (rule covered_answers [OF destination_row_fits no_documents])
        (use destination_covers(1) f that in \<open>auto simp: covers_def list_all_iff\<close>)
    ultimately show "field_answers (dict_set ''filters'' (Dict (map (\<lambda>(t, j). (t, Leaf (VJson j))) (filters_in_order rank db (dest_id d))))
      (dict_set ''event_types'' (Items (map (\<lambda>t. Leaf (VText t)) (event_types_in_order rank db (dest_id d))))
        (destination_row now d))) f"
      using filters_documents [OF assms, of rank "dest_id d"]
      by (auto simp: field_answers_set list_all_iff)
  qed
  then show ?thesis by (simp add: destination_response_def)
qed

section \<open>Events\<close>

text \<open>The columns of the dict of \<open>event_response\<close>, what it sets coming before what the row had.\<close>

definition view_columns :: "column list" where
  "view_columns =
     map (\<lambda>n. required_column n Ty_integer) [''shadow_unacknowledged_count'', ''shadow_acknowledged_count''] @
     [nullable_column ''ack_threshold'' Ty_integer, required_column ''unacknowledged_count'' Ty_integer,
      required_column ''acknowledged_quorum'' Ty_boolean, required_column ''reconcile_status'' Ty_text,
      required_column ''required_ack_count'' Ty_integer, required_column ''status'' Ty_text] @
     map (\<lambda>n. required_column n Ty_integer)
       [''shadow_failed_count'', ''shadow_pending_count'', ''shadow_deadline_expired_count'', ''shadow_dead_lettered_count'',
        ''shadow_superseded_count'', ''shadow_delivery_count'', ''bodies_voided_count'', ''bodies_expired_count'',
        ''bodies_denied_count'', ''relay_skipped_count'', ''failed_count'', ''pending_count'', ''deadline_expired_count'',
        ''dead_lettered_count'', ''superseded_count'', ''delivery_count'', ''shadow_filtered_out_count'', ''filtered_out_count'']"

definition count_columns :: "string list \<Rightarrow> column list" where
  "count_columns = map (\<lambda>n. required_column n Ty_integer)"

definition count_names :: "string list" where
  "count_names =
     [''delivery_count'', ''delivered_count'', ''pending_count'', ''acknowledged_count'', ''superseded_count'',
      ''dead_lettered_count'', ''deadline_expired_count'', ''failed_count'', ''relay_skipped_count'', ''relay_stopped_count'',
      ''shadow_delivery_count'', ''shadow_delivered_count'', ''shadow_pending_count'', ''shadow_acknowledged_count'',
      ''shadow_superseded_count'', ''shadow_dead_lettered_count'', ''shadow_deadline_expired_count'', ''shadow_failed_count'',
      ''bodies_waiting_count'', ''bodies_released_count'', ''bodies_denied_count'', ''bodies_expired_count'',
      ''bodies_voided_count'', ''shadow_bodies_waiting_count'', ''shadow_bodies_released_count'', ''shadow_bodies_closed_count'',
      ''previews_delivered_count'', ''shadow_previews_delivered_count'', ''filtered_out_count'', ''shadow_filtered_out_count'']"

lemma view_fits: "fits_columns (rev (event_fields v n threshold)) view_columns"
  by (simp add: event_fields_def view_columns_def fits_columns_def)

lemma counts_fit: "fits_columns (counts_cells n) (count_columns count_names)"
  by (simp add: counts_cells_def count_columns_def count_names_def fits_columns_def)

text \<open>The dict as one list of cells: what was set last is found first.\<close>

lemma map_of_sets:
  "map_of (fold (\<lambda>(k, x). dict_set k (Leaf x)) kvs row) n =
     (case map_of (rev kvs) n of None \<Rightarrow> map_of row n | Some x \<Rightarrow> Some (Leaf x))"
  by (induction kvs arbitrary: row) (auto simp: map_add_def split: option.splits prod.splits)

lemma map_of_kept: "P n \<Longrightarrow> map_of (filter (\<lambda>(k, _). P k) kvs) n = map_of kvs n"
  by (induction kvs) auto

lemma event_dict_lookup:
  assumes "n \<noteq> ''relay_stopped_count''" and "n \<noteq> ''configured_ack_threshold''"
  shows "map_of (event_dict v c threshold (leaves cs)) n = map_of (leaves (rev (event_fields v c threshold) @ cs)) n"
  using assms map_of_kept [of "\<lambda>k. k \<noteq> ''relay_stopped_count'' \<and> k \<noteq> ''configured_ack_threshold''" n "leaves cs"]
  by (simp add: event_dict_def map_of_sets map_add_def map_of_leaves split: option.split)

lemma event_names:
  "list_all (\<lambda>f. \<not> listed_name [''relay_stopped_count'', ''configured_ack_threshold''] (fst f)) event_out"
  by code_simp

lemma event_dict_answers:
  assumes "fits_columns cs cols" and "holds_documents docs (rev (event_fields v c threshold) @ cs)"
    and "covers (view_columns @ cols) docs [] event_out"
  shows "list_all (field_answers (event_dict v c threshold (leaves cs))) event_out"
  unfolding list_all_iff
proof
  fix f
  assume f: "f \<in> set event_out"
  have "field_answers (leaves (rev (event_fields v c threshold) @ cs)) f"
    by (rule covered_answers [OF fits_columns_append [OF view_fits assms(1)] assms(2)])
      (use assms(3) f in \<open>auto simp: covers_def list_all_iff\<close>)
  moreover have "fst f \<noteq> ''relay_stopped_count''" "fst f \<noteq> ''configured_ack_threshold''"
    using event_names f by (auto simp: list_all_iff)
  ultimately show "field_answers (event_dict v c threshold (leaves cs)) f"
    using field_answers_cong [OF event_dict_lookup] by auto
qed

definition counts_row_columns :: "column list" where
  "counts_row_columns = pick_columns event_columns (the (columns_after schema_statements ''events'')) @
     [nullable_column ''configured_ack_threshold'' Ty_integer, required_column ''preview_gated'' Ty_boolean] @
     count_columns count_names"

definition correction_row_columns :: "column list" where
  "correction_row_columns = pick_columns correction_columns (the (columns_after schema_statements ''events'')) @
     [nullable_column ''configured_ack_threshold'' Ty_integer] @ pick_columns correction_counts (count_columns count_names)"

lemma event_picks:
  "picks_columns event_columns (the (columns_after schema_statements ''events''))"
  "picks_columns correction_columns (the (columns_after schema_statements ''events''))"
  "picks_columns correction_counts (count_columns count_names)"
  unfolding other_table_columns option.sel by code_simp+

lemma event_covers:
  "covers (view_columns @ counts_row_columns) [''payload'', ''preview_payload''] [] event_out"
  "covers (view_columns @ correction_row_columns) [''payload''] [] event_out"
  "typed_as ''relay'' (F_null (F_model relay_run_out)) event_out"
  "typed_as ''duplicate'' (F_value Ty_boolean) event_out"
  unfolding counts_row_columns_def correction_row_columns_def other_table_columns option.sel by code_simp+

lemma event_rows_fit:
  "fits_columns (columns event_columns (event_cells e) @
     [(''configured_ack_threshold'', nullable VInt threshold), (''preview_gated'', VBool gated)] @ counts_cells n) counts_row_columns"
  "fits_columns (columns correction_columns (event_cells e) @ [(''configured_ack_threshold'', nullable VInt threshold)] @
     columns correction_counts (counts_cells n)) correction_row_columns"
  unfolding counts_row_columns_def correction_row_columns_def
  by (intro fits_columns_append fits_pick cells_fit(2) counts_fit event_picks; simp add: fits_columns_def)+

lemma payload_cells:
  "row_of (event_cells e) ''payload'' = VJson (e_payload e)"
  "row_of (event_cells e) ''preview_payload'' = nullable VJson (e_preview_payload e)"
  by (simp_all add: row_of_def event_cells_def)

lemma fields_without_payload:
  "map_of (rev (event_fields v c threshold)) ''payload'' = None"
  "map_of (rev (event_fields v c threshold)) ''preview_payload'' = None"
  by (simp_all add: event_fields_def)

lemma map_of_append_None: "map_of xs n = None \<Longrightarrow> map_of (xs @ ys) n = map_of ys n"
  by (simp add: map_add_def split: option.split)

lemma payload_lookups:
  "map_of (columns event_columns (event_cells e) @ rest) ''payload'' = Some (VJson (e_payload e))"
  "map_of (columns event_columns (event_cells e) @ rest) ''preview_payload'' = Some (nullable VJson (e_preview_payload e))"
  "map_of (columns correction_columns (event_cells e) @ rest) ''payload'' = Some (VJson (e_payload e))"
  by (simp_all add: event_columns_def correction_columns_def payload_cells)

lemma holds_documents_Cons:
  "map_of cs n = Some (nullable VJson j) \<Longrightarrow> document j \<Longrightarrow> holds_documents docs cs \<Longrightarrow> holds_documents (n # docs) cs"
  by (cases j) (auto simp: holds_documents_def)

lemma event_documents_found:
  assumes "event_documents e"
  shows "holds_documents [''payload'', ''preview_payload''] (rev (event_fields v c threshold) @
     columns event_columns (event_cells e) @ rest)"
    and "holds_documents [''payload''] (rev (event_fields v c threshold) @ columns correction_columns (event_cells e) @ rest)"
proof -
  have p: "document (Some (e_payload e))" and q: "document (e_preview_payload e)"
    using assms by (simp_all add: event_documents_def)
  let ?cs = "rev (event_fields v c threshold) @ columns event_columns (event_cells e) @ rest"
  have "map_of ?cs ''payload'' = Some (nullable VJson (Some (e_payload e)))"
    by (simp only: map_of_append_None [OF fields_without_payload(1)] payload_lookups(1) nullable_simps)
  moreover have "map_of ?cs ''preview_payload'' = Some (nullable VJson (e_preview_payload e))"
    by (simp only: map_of_append_None [OF fields_without_payload(2)] payload_lookups(2))
  ultimately show "holds_documents [''payload'', ''preview_payload''] ?cs"
    using p q holds_documents_Cons no_documents by blast
  let ?ks = "rev (event_fields v c threshold) @ columns correction_columns (event_cells e) @ rest"
  have "map_of ?ks ''payload'' = Some (nullable VJson (Some (e_payload e)))"
    by (simp only: map_of_append_None [OF fields_without_payload(1)] payload_lookups(3) nullable_simps)
  then show "holds_documents [''payload''] ?ks"
    using p holds_documents_Cons no_documents by blast
qed

section \<open>The relay run view\<close>

lemma station_answers:
  "d_relay_station_no d \<noteq> None \<Longrightarrow> answers (F_model relay_run_station_out) (relay_station_reply db d)"
  by (cases "d_relay_station_no d") (simp_all add: relay_station_reply_def relay_run_station_out_def)

lemma run_chain_known:
  assumes "documents_ok db" and "run_rows db event \<noteq> []"
  shows "\<exists>i c. run_chain db event = Some i \<and> first_row (\<lambda>c. run_chain db event = Some (ch_id c)) (relay_chains db) = Some c"
proof -
  let ?P = "\<lambda>d. d_event_id d = Some event \<and> d_relay_chain_id d \<noteq> None"
  have "set (run_rows db event) \<noteq> {}" using assms(2) by simp
  then obtain d where "d \<in> set (deliveries db)" "?P d" unfolding run_rows_def by auto
  then obtain d' where d': "first_row ?P (deliveries db) = Some d'"
    using first_row_None [of ?P "deliveries db"] by (cases "first_row ?P (deliveries db)") auto
  have "d' \<in> set (deliveries db)" "?P d'" using first_row_Some [OF d'] by simp_all
  then obtain i where i: "d_relay_chain_id d' = Some i" "chain_known db (Some i)"
    using assms(1) by (auto simp: documents_ok_def row_known_def)
  have run: "run_chain db event = Some i" by (simp only: run_chain_def d' i(1) option.case)
  have "first_row (\<lambda>c. run_chain db event = Some (ch_id c)) (relay_chains db) \<noteq> None"
    unfolding first_row_None using i(2) run by auto
  then show ?thesis using run by auto
qed

lemma relay_answers:
  assumes "documents_ok db" and "list_all delivery_check (deliveries db)"
  shows "answers (F_null (F_model relay_run_out)) (relay_reply db e)"
proof (cases "build_event_relay db (e_id e)")
  case None
  then show ?thesis by (simp add: relay_reply_def)
next
  case (Some r)
  then have "run_rows db (e_id e) \<noteq> []" by (auto simp: build_event_relay_def Let_def split: if_splits)
  then obtain i c where chain: "run_chain db (e_id e) = Some i"
      "first_row (\<lambda>c. run_chain db (e_id e) = Some (ch_id c)) (relay_chains db) = Some c"
    using run_chain_known [OF assms(1)] by blast
  have "d_relay_station_no d \<noteq> None" if "d \<in> set (run_rows db (e_id e))" for d
    using assms(2) that by (auto simp: run_rows_def list_all_iff delivery_check_def)
  then have "list_all (answers (F_model relay_run_station_out)) (map (relay_station_reply db) (run_rows db (e_id e)))"
    using station_answers by (auto simp: list_all_iff)
  then have "answers (F_model relay_run_out) (relay_reply db e)"
    using chain(2) by (simp add: relay_reply_def Some Let_def relay_run_out_def chain(1))
  then show ?thesis by simp
qed

section \<open>Answers for an event\<close>

lemma event_plain_answers:
  assumes "event_documents e"
  shows "list_all (field_answers (event_dict v n threshold (event_counts_row e threshold' gated n))) event_out"
    and "answers (F_model event_out) (correction_answer e n threshold)"
  unfolding event_counts_row_def correction_answer_def answers_simps
  by (rule event_dict_answers [OF event_rows_fit(1) event_documents_found(1) [OF assms] event_covers(1)],
      rule event_dict_answers [OF event_rows_fit(2) event_documents_found(2) [OF assms] event_covers(2)])

lemma field_answers_sets:
  assumes "list_all (field_answers kvs) fs" and "typed_as k t fs" and "answers t v"
  shows "list_all (field_answers (dict_set k v kvs)) fs"
  using assms typed_as_member [OF assms(2)] by (auto simp: list_all_iff field_answers_set)

lemma event_answers:
  assumes "event_documents e" and "answers (F_null (F_model relay_run_out)) run"
  shows "list_all (field_answers (dict_set ''relay'' run
      (event_dict v n threshold (event_counts_row e threshold' gated n)))) event_out"
  by (rule field_answers_sets [OF event_plain_answers(1) [OF assms(1)] event_covers(3) assms(2)])

lemma event_reply_answers:
  assumes "documents_ok db" and "list_all delivery_check (deliveries db)" and "event_documents e"
  shows "answers (F_model event_out) (event_reply db e)" "answers (F_model event_out) (duplicate_reply db e)"
    "answers (F_model event_out) (corrections_entry db e)"
proof -
  let ?n = "event_counts db (e_id e)" let ?t = "ack_threshold_of db (e_event_type e)"
  let ?kvs = "dict_set ''relay'' (relay_reply db e) (event_dict (event_response e ?n) ?n ?t
      (event_counts_row e ?t (get_policy db (e_event_type e) \<noteq> None) ?n))"
  have kvs: "list_all (field_answers ?kvs) event_out"
    by (rule event_answers [OF assms(3) relay_answers [OF assms(1,2)]])
  then show "answers (F_model event_out) (event_reply db e)"
    by (simp only: event_reply_def event_answer_def answers_simps)
  have "list_all (field_answers (dict_set ''duplicate'' (Leaf (VBool True)) ?kvs)) event_out"
    by (rule field_answers_sets [OF kvs event_covers(4)]) simp
  then show "answers (F_model event_out) (duplicate_reply db e)"
    by (simp only: duplicate_reply_def event_reply_def event_answer_def out.case answers_simps)
  show "answers (F_model event_out) (corrections_entry db e)"
    unfolding corrections_entry_def Let_def answers_simps by (rule event_plain_answers(1) [OF assms(3)])
qed

section \<open>Answers in a reachable state\<close>

text \<open>An answer, if there is one, passes its response model.\<close>

definition conforms :: "field_type \<Rightarrow> api_error + out \<Rightarrow> bool" where
  "conforms t r \<longleftrightarrow> (case r of Inl _ \<Rightarrow> True | Inr v \<Rightarrow> answers t v)"

lemma conforms_simps [simp]: "conforms t (Inl err)" "conforms t (Inr v) \<longleftrightarrow> answers t v"
  by (simp_all add: conforms_def)

lemma list_all_members: "(\<And>x. x \<in> set xs \<Longrightarrow> P x) \<Longrightarrow> list_all P xs"
  by (simp add: list_all_iff)

lemma answers_Items: "(\<And>x. x \<in> set xs \<Longrightarrow> answers t (f x)) \<Longrightarrow> answers (F_list t) (Items (map f xs))"
  by (simp add: list_all_iff)

lemma routing_documents:
  assumes "documents_ok db" and "r \<in> set (event_routing rank db i)"
  shows "document (rr_current_spec (fst r))" "document (rr_evaluated_spec (fst r))"
proof -
  obtain e d where r: "fst r = routing_row_of db e d"
    using assms(2) by (auto simp: event_routing_def split: option.splits)
  show "document (rr_current_spec (fst r))"
    using assms(1) first_row_Some
    by (fastforce simp: r routing_row_of_def Let_def subscription_of_def documents_ok_def split: option.split)
  show "document (rr_evaluated_spec (fst r))"
    using assms(1) first_row_Some
    by (fastforce simp: r routing_row_of_def Let_def evaluation_of_def documents_ok_def document_def split: option.split)
qed

lemma stored_event_answers:
  assumes "documents_ok db" and "list_all delivery_check (deliveries db)" and "e \<in> set (events db)"
  shows "answers (F_model event_out) (event_reply db e)" "answers (F_model event_out) (duplicate_reply db e)"
    "answers (F_model event_out) (corrections_entry db e)"
  using event_reply_answers [OF assms(1,2), of e] assms(1,3) by (simp_all add: documents_ok_def)

lemma trace_answers:
  assumes docs: "documents_ok db" and checks: "list_all delivery_check (deliveries db)"
  shows "conforms (F_model event_trace_out) (event_trace_reply rank serial stamp i db)"
proof (cases "find_event db i")
  case (Some e)
  then have e: "e \<in> set (events db)" by (auto simp: find_event_def dest: first_row_Some)
  have rows: "document (d_filter_spec d)" if "d \<in> set (trace_deliveries rank db i)" for d
    using docs that by (auto simp: trace_deliveries_def documents_ok_def row_known_def)
  have corrections: "fst c \<in> set (events db)" if "c \<in> set (list_corrections_of db i)" for c
    using that by (auto simp: list_corrections_of_def)
  have judged: "is_dict (fe_filter_spec f)" if "f \<in> set (list_filter_evaluations_of db i)" for f
    using docs that by (auto simp: list_filter_evaluations_of_def documents_ok_def)
  have "answers (F_model event_out) (event_reply db e)" by (rule stored_event_answers [OF docs checks e])
  then show ?thesis
    by (simp add: event_trace_reply_def Some event_trace_out_def del: answers_simps(4))
      (intro conjI answers_Items delivery_answers attempt_answers receipt_answers evaluation_answers routing_answers
        stored_event_answers(3) [OF docs checks];
        (erule rows | erule corrections | erule judged | erule routing_documents [OF docs]))
qed (simp add: event_trace_reply_def)

lemma change_answers:
  assumes "list_all delivery_check (deliveries db)"
  shows "conforms (F_model dead_letter_revive_out) (revive_answer now i db)"
    "conforms (F_model body_void_out) (void_answer now i db)"
    "conforms (F_model reissue_challenge_out) (reissue_answer now s token i db)"
proof -
  have "d_dead_letter_reason d \<noteq> None" if "find_delivery db i = Some d" "d_status d = Dead_lettered" for d
    using assms that first_row_Some by (fastforce simp: find_delivery_def list_all_iff delivery_check_def)
  then show "conforms (F_model dead_letter_revive_out) (revive_answer now i db)"
    by (auto simp: revive_answer_def revive_dead_letter_def answer_with_def conditional_answers split: option.split)
  show "conforms (F_model body_void_out) (void_answer now i db)"
    by (auto simp: void_answer_def void_gated_body_def answer_with_def conditional_answers split: option.split)
  show "conforms (F_model reissue_challenge_out) (reissue_answer now s token i db)"
    by (auto simp: reissue_answer_def reissue_challenge_def arm_round_def Let_def answer_with_def conditional_answers
        split: option.split)
qed

lemma reachable_documents:
  assumes "reachable sys"
  shows "documents_ok (sys_db sys)" "list_all delivery_check (deliveries (sys_db sys))"
  using reachable_consistent(5) [OF assms] reachable_ok [OF assms]
  by (auto simp: system_ok_def db_ok_def copies_ok_def row_ok_def list_all_iff)

lemma find_event_stored: "find_event db i = Some e \<Longrightarrow> e \<in> set (events db)"
  by (auto simp: find_event_def dest: first_row_Some)

lemma read_answers:
  assumes "documents_ok db" and "list_all delivery_check (deliveries db)"
  shows "conforms (F_model destination_out) (get_destination rank now i db)"
    "conforms (F_model event_out) (get_event_reply i db)"
    "list_all (\<lambda>d. answers (F_model delivery_out) (Dict (delivery_row (url_of db (d_destination_id d)) d))) (deliveries db)"
  using destination_answers stored_event_answers(1) [OF assms find_event_stored] delivery_answers assms(1)
  by (auto simp: get_destination_def get_event_reply_def documents_ok_def row_known_def list_all_iff
      simp del: answers_simps split: option.split)

section \<open>What is not answered\<close>

lemma map_of_columns: "map_of (columns ns cs) n = (if n \<in> set ns then Some (row_of cs n) else None)"
  by (induction ns) auto

lemma token_cell: "n \<noteq> ''challenge_token'' \<Longrightarrow>
  row_of (destination_cells (d\<lparr>dest_challenge_token := token\<rparr>)) n = row_of (destination_cells d) n"
  by (simp add: row_of_def destination_cells_def)

lemma destination_names: "list_all (\<lambda>n. n \<noteq> ''challenge_token'') (map fst destination_out)"
  by (simp add: destination_out_def field_kinds)

lemma token_withheld:
  "serialize (F_model destination_out) (destination_response rank now db (d\<lparr>dest_challenge_token := token\<rparr>)) =
   serialize (F_model destination_out) (destination_response rank now db d)"
proof -
  have row: "map_of (destination_row now (d\<lparr>dest_challenge_token := token\<rparr>)) n = map_of (destination_row now d) n"
    if "n \<noteq> ''challenge_token''" for n
    using that by (simp add: destination_row_def map_add_def map_of_leaves map_of_columns token_cell paused_def)
  show ?thesis
    unfolding destination_response_def serialize.simps
    by (rule arg_cong [where f = "map_option Dict"], rule serialize_fields_cong)
      (use destination_names row in \<open>auto simp: list_all_iff\<close>)
qed

lemma carried_withheld:
  assumes "serialize (F_model destination_out) v = serialize (F_model destination_out) w"
  shows "serialize (F_model destination_resume_out) (resume_reply v b) = serialize (F_model destination_resume_out) (resume_reply w b)"
    "serialize (F_model recovery_out) (recovery_reply v r) = serialize (F_model recovery_out) (recovery_reply w r)"
  using assms by (simp_all add: resume_reply_def recovery_reply_def destination_resume_out_def recovery_out_def field_kinds
      split: option.split)

lemma secret_withheld:
  "serialize (F_model source_out) (source_response include (s\<lparr>src_secret := secret\<rparr>)) =
   serialize (F_model source_out) (source_response include s)"
  unfolding source_response_def serialize.simps
  by (rule arg_cong [where f = "map_option Dict"], rule serialize_fields_cong, cases "include")
    (simp_all add: source_columns_def source_cells_def row_of_def source_out_def field_kinds)

end
