(* ===== verification/Spec2Isabelle.thy ===== *)
theory Spec2Isabelle
  imports Exchange_Samples Conformance
begin

text \<open>
  Verification of the event relay in src/env/app: a FastAPI service over PostgreSQL that takes signed
  events from sources, fans each one out as copies (rows of \<open>deliveries\<close>) to the confirmed
  destinations that subscribe to its type, sends the copies in order with a pool of workers, and
  reconciles each hand-off with a later receipt.

  The parts and how they interact. A request handler of main.py, a pass of reconciler.py, a claim
  or a result of worker.py is one database transaction; the parts meet only in the tables. So the
  state of the model is the record \<open>database\<close> (Schema), one list of rows per table in the column
  layout of models.py, and every transaction is a function from the database to an outcome. An
  HTTP error or an uncaught exception is an error value and leaves the database as it was
  (\<open>committed\<close>); a refusal that commits an audit row returns the database with that row. The
  clock of the transaction, generated ids and tokens, the random jitter and the choice among
  equally good rows are arguments, so the theorems hold for all of them. \<open>SKIP LOCKED\<close> is an
  argument too: which rows another transaction holds.

  The theories.

  \<^item> Prelude, Json: SQL statements as list functions, comparisons with NULL, the Python string
    operations the code calls, JSON values with Python's equality.
  \<^item> Schema, Config: the tables, their defaults, CHECK and UNIQUE constraints (models.py), the
    settings (config.py).
  \<^item> Lifecycle: the abstract specification. \<open>copy\<close> is the abstract state of one copy and
    \<open>lifecycle\<close> its state machine; \<open>evolves\<close> says that a transaction rewrites each row along the
    machine and inserts only fresh rows; the locale \<open>delivery_operation\<close> is the contract every
    transaction is proved to satisfy, each by an \<open>interpretation\<close> in its own theory.
  \<^item> Relay (relay.py), Deadlines (deadlines.py), Release (release.py), Confirmation
    (confirmation.py), Receipts (receipts.py), Reconciler (reconciler.py), Worker (worker.py): one
    theory per module with its operations, their refinement of the machine and what they do.
  \<^item> Subfilters (subfilters.py): subscription conditions, their validation and evaluation.
  \<^item> Ingest_Auth (ingest_auth.py), Subscriptions, Ingest, Ingest_Routing, Event_Status,
    Corrections, Operations (main.py and the validators of schemas.py): admission, subscriptions,
    the push of an event and its routing, the standing of an event from the counts of its copies,
    corrections, and every other request that changes state.
  \<^item> Trace (main.py): the requests that only read: the trace of an event with its routing verdicts,
    the summaries and the filtered listings. The collation of the database is an argument.
  \<^item> System: all transactions as one labelled operation (\<open>perform\<close>), and the service as a step
    relation in which workers hold claims between their two transactions; reachability and the
    invariant \<open>system_ok\<close> by rule induction.
  \<^item> Consistency: the foreign keys between the tables and the exclusion of gate and relay as further
    invariants of every reachable state, by what each transaction leaves alone (\<open>frame\<close>) or adds
    (\<open>adds_for\<close>).
  \<^item> Samples, Request_Samples: concrete histories and requests on which the witnesses evaluate.

  What the groups of lemmas show. The \<open>..._keeps\<close> lemmas are the refinement: every transaction but
  the claim stays within the machine, the claim takes one queued row whose guards hold. The
  invariants (schema constraints, one copy in flight per destination, relay order, permanence of
  acknowledged and closed copies) follow once for the whole service. The \<open>..._result\<close> and
  \<open>..._effect\<close> lemmas say exactly which rows an operation changes and how, errors included.

  Bounds and fuel. No definition uses fuel: every loop of the code runs over a finite result set or a
  finite tree and is structural recursion. The batch limits (200 stale rows, 500 due cutoffs, 50
  rounds, the limit of the gate sweep) are those of the code. Machine integers: the program's
  integers are Python's and PostgreSQL's INTEGER; the two requests that store a caller's integer
  carry the range check of their validator. Times are microseconds in \<open>int\<close>.

  Code that is not in src/ is an argument: the record \<open>runtime\<close> holds what the standard library and
  the driver compute on a raw request (\<open>float\<close>, \<open>hmac\<close>, \<open>json.loads\<close>, the UUID parsers, datetime
  parsing). Hypotheses about one database are its own constraints (\<open>db_ok\<close>, \<open>keys_ok\<close>), which every
  reachable state satisfies.

  Not modelled. The HTTP framework and client, the thread pools and polling loops around the
  transactions, connections and retries (db.py, the main functions of worker.py and reconciler.py):
  input and output only. The migration statements of models.py: they bring an old database to the
  schema that is modelled. The response models of schemas.py, and the three listings
  of main.py ordered by a creation time the model does not keep (confirmation attempts, gate
  decisions, filter evaluations of all events). Locking: a statement that waits for a row
  lock is a later transaction of the model, so deadlocks and lock timeouts do not appear. The
  fallbacks of the trace for a half-upgraded database. Text beyond code point 255 (\<open>string\<close> holds
  one byte per character) and NUL characters, which PostgreSQL refuses. src/env/scripts: a mock
  receiver, a push client and end-to-end tests, which are clients of the service.
\<close>

section \<open>The queue and the claim\<close>

text \<open>
  C1. Per destination the copies go out in order: with no row locked by another transaction,
  the copy the worker claims has the smallest sequence number among the deliverable copies of
  its destination.
\<close>

theorem claim_takes_oldest:
  assumes "claim_next_event now s token pick locked_dest (\<lambda>_. False) db = (Some c, db')"
    and "x \<in> set (deliveries (clean_queues now pick db))"
    and "d_destination_id x = d_destination_id (cl_row c)" and "deliverable now x"
  shows "d_destination_seq (cl_row c) \<le> d_destination_seq x"
  using claim_head_fifo assms unfolding claim_next_event_def by blast

theorem claim_takes_oldest_witness:
  "\<exists>c db'. claim_next_event 10 default_settings 99 (\<lambda>_. True) (\<lambda>_. False) (\<lambda>_. False) queued_db = (Some c, db') \<and>
     d_destination_seq (cl_row c) \<le> 2"
proof -
  define out where "out = claim_next_event 10 default_settings 99 (\<lambda>_. True) (\<lambda>_. False) (\<lambda>_. False) queued_db"
  have "map_option (\<lambda>c. d_destination_id (cl_row c)) (fst out) = Some 7"
    unfolding out_def by code_simp
  then obtain c db' where out: "out = (Some c, db')" and dest: "d_destination_id (cl_row c) = 7"
    by (cases out) auto
  have "sample_copy 2 7 2 \<in> set (deliveries (clean_queues 10 (\<lambda>_. True) queued_db))"
    by code_simp
  moreover have "deliverable 10 (sample_copy 2 7 2)" "d_destination_id (sample_copy 2 7 2) = 7"
    "d_destination_seq (sample_copy 2 7 2) = 2"
    by code_simp+
  ultimately have "d_destination_seq (cl_row c) \<le> 2"
    using claim_takes_oldest [OF out [unfolded out_def], of "sample_copy 2 7 2"] dest by simp
  with out show ?thesis unfolding out_def by blast
qed

section \<open>Receipts\<close>

text \<open>
  C2. A receipt counts exactly once: when one was applied to a copy, the next one for the same
  copy is logged as a duplicate and changes no copy, whatever it says.
\<close>

theorem receipt_counts_once:
  assumes "decide_receipt now s receipt_id dest key result db = Inr (r, db')" and "keys_ok db"
    and "r_disposition r = Receipt_applied"
    and "decide_receipt now' s' receipt_id' dest key result' db' = Inr (r', db'')"
  shows "r_disposition r' = Receipt_duplicate \<and> deliveries db'' = deliveries db'"
  using assms by (rule decide_receipt_once)

theorem receipt_counts_once_witness:
  "r_disposition (run_value second_receipt) = Receipt_duplicate \<and>
   deliveries (run_state second_receipt) = deliveries (run_state first_receipt)"
proof (rule receipt_counts_once)
  have "run_ok first_receipt" by code_simp
  then show "decide_receipt 50 default_settings 70 7 ''1'' Success awaiting_db
      = Inr (run_value first_receipt, run_state first_receipt)"
    using run_Inr by (simp add: first_receipt_def)
  have "run_ok second_receipt" by code_simp
  then show "decide_receipt 51 default_settings 71 7 ''1'' Failure (run_state first_receipt)
      = Inr (run_value second_receipt, run_state second_receipt)"
    using run_Inr by (simp add: second_receipt_def)
  show "keys_ok awaiting_db" "r_disposition (run_value first_receipt) = Receipt_applied"
    by code_simp+
qed

section \<open>The service as a whole\<close>



text \<open>
  C4. A relay run goes out in order: in every reachable state a station behind the first one is
  in flight or has gone out only when the copy of the station in front of it, of the same event
  and chain, has been delivered and acknowledged.
\<close>

theorem relay_in_order:
  assumes "reachable sys" and "d \<in> set (deliveries (sys_db sys))"
    and "d_status d = In_flight \<or> d_delivered_at d \<noteq> None"
    and "d_relay_chain_id d \<noteq> None" and "d_relay_station_no d \<noteq> Some 1"
  shows "\<exists>prev \<in> set (deliveries (sys_db sys)). station_before prev d \<and>
    d_reconcile_state prev = Acknowledged \<and> d_status prev = Delivered"
  using reachable_relay [OF assms(1,2)] assms(3-5) by (simp add: left_queue_def)

theorem relay_in_order_witness:
  "\<exists>prev \<in> set (deliveries (sys_db relay_sys)). station_before prev (row_at 1 relay_sys) \<and>
    d_reconcile_state prev = Acknowledged \<and> d_status prev = Delivered"
proof (rule relay_in_order [OF sample_histories(6)])
  show "row_at 1 relay_sys \<in> set (deliveries (sys_db relay_sys))"
    by (rule row_at_in) (simp add: sample_rows)
qed code_simp+

text \<open>
  C5. An acknowledgement is final: once a copy is acknowledged, whatever the service does
  afterwards (late receipts, sweeps, requeues, revivals, cancellation, relocation), the copy is
  still there with the same address, payload and position, and still acknowledged.
\<close>

theorem acknowledgement_final:
  assumes "reachable sys" and "step\<^sup>*\<^sup>* sys sys'" and "d \<in> set (deliveries (sys_db sys))"
    and "d_reconcile_state d = Acknowledged"
  shows "\<exists>d' \<in> set (deliveries (sys_db sys')). same_snapshot d d' \<and> d_reconcile_state d' = Acknowledged"
  using assms by (rule acknowledged_forever)

theorem acknowledgement_final_witness:
  "\<exists>d' \<in> set (deliveries (sys_db (do_op (receipt_op 15 71 7 Failure) acknowledged_sys))).
     same_snapshot (row_at 0 acknowledged_sys) d' \<and> d_reconcile_state d' = Acknowledged"
proof (rule acknowledgement_final [OF sample_histories(4) steps_op])
  show "row_at 0 acknowledged_sys \<in> set (deliveries (sys_db acknowledged_sys))"
    by (rule row_at_in) (simp add: sample_rows)
qed code_simp

text \<open>
  C6. A copy that was closed without having gone out (cancelled, superseded, failed, refused by
  its gate, skipped behind a stopped station, past its cutoff) never goes out afterwards, and
  stays closed.
\<close>

theorem closed_never_sent:
  assumes "reachable sys" and "step\<^sup>*\<^sup>* sys sys'" and "d \<in> set (deliveries (sys_db sys))"
    and "closed_status (d_status d)" and "d_delivered_at d = None"
  shows "\<exists>d' \<in> set (deliveries (sys_db sys')). same_snapshot d d' \<and> closed_status (d_status d') \<and>
    d_delivered_at d' = None"
  using assms by (rule closed_forever)

theorem closed_never_sent_witness:
  "\<exists>d' \<in> set (deliveries (sys_db (do_claim 30 cancelled_sys))).
     same_snapshot (row_at 0 cancelled_sys) d' \<and> closed_status (d_status d') \<and> d_delivered_at d' = None"
proof (rule closed_never_sent [OF sample_histories(5) steps_claim])
  show "row_at 0 cancelled_sys \<in> set (deliveries (sys_db cancelled_sys))"
    by (rule row_at_in) (simp add: sample_rows)
qed code_simp+

text \<open>
  C7. No body passes its gate unreleased: in every reachable state the body of a preview/body
  pair that is in flight or handed off is one whose address said yes.
\<close>

theorem gated_body_released:
  assumes "reachable sys" and "d \<in> set (deliveries (sys_db sys))"
    and "d_preview_delivery_id d \<noteq> None" and "d_status d = In_flight \<or> d_status d = Delivered"
  shows "d_release_state d = Some Released"
proof -
  have "row_ok d" using reachable_ok [OF assms(1)] assms(2) by (auto simp: system_ok_def intro: row_ok_in)
  then have "d_release_state d \<noteq> None" using assms(3) by (simp add: row_ok_def copy_shape_def)
  moreover have "gate_open (d_release_state d)" using reachable_gate [OF assms(1,2)] assms(4) by auto
  ultimately show ?thesis by (auto simp: gate_open_def)
qed

theorem gated_body_released_witness:
  "d_release_state (row_at 1 gate_sys) = Some Released"
proof (rule gated_body_released [OF sample_histories(7)])
  show "row_at 1 gate_sys \<in> set (deliveries (sys_db gate_sys))"
    by (rule row_at_in) (simp add: sample_rows)
qed code_simp+

text \<open>
  C8. What a claim guarantees about the copy a worker sends: it was queued with its gate open,
  before its cutoff and due; the relay station in front has acknowledged; its destination is
  confirmed for the location the copy was made for, is not paused, is active (or isolated and due
  for a trial), and has nothing in flight.
\<close>

theorem claim_guarded:
  assumes "claim_next_event now s token pick ld lr db = (Some c, db')" and "q = clean_queues now pick db"
  shows "\<exists>t \<in> set (destinations q). \<exists>e \<in> set (deliveries q). cl_row c = claim_row now s token e \<and>
    d_destination_id e = dest_id t \<and> d_status e = Pending \<and> gate_open (d_release_state e) \<and>
    (d_deliver_by e = None \<or> null_gt (d_deliver_by e) now) \<and> due_at e \<le> now \<and>
    relay_open (deliveries q) e \<and> dest_confirmation_state t = Confirmed \<and>
    d_confirmation_generation e = dest_confirmation_generation t \<and> \<not> paused now t \<and>
    (dest_status t = Active \<or> recovers now t) \<and> \<not> in_flight_to (dest_id t) (deliveries q)"
proof -
  have "claim_head now s token ld lr q = (Some c, db')"
    using assms by (simp add: claim_next_event_def)
  then show ?thesis by (rule claim_head_sound) blast
qed

theorem claim_guarded_witness:
  "\<exists>c db' t e. claim_next_event 10 default_settings 99 (\<lambda>_. True) (\<lambda>_. False) (\<lambda>_. False) queued_db = (Some c, db') \<and>
     cl_row c = claim_row 10 default_settings 99 e \<and> d_destination_id e = dest_id t \<and>
     dest_confirmation_state t = Confirmed \<and> \<not> paused 10 t"
proof -
  define out where "out = claim_next_event 10 default_settings 99 (\<lambda>_. True) (\<lambda>_. False) (\<lambda>_. False) queued_db"
  have "fst out \<noteq> None" unfolding out_def by code_simp
  then obtain c db' where out: "out = (Some c, db')" by (cases out) auto
  from claim_guarded [OF out [unfolded out_def] refl] out show ?thesis
    unfolding out_def by blast
qed

section \<open>The preview-consent gate\<close>



section \<open>Ingest\<close>

text \<open>
  C10. An accepted push, in any state the service reaches, refines its specification: the new copies are exactly one per station of
  the active relay chain in station order, or one body per confirmed subscriber whose own condition
  holds of the payload; each is queued and, for a gated type, held; nothing else is rewritten; and
  the standing the response reports without asking the database is the one the database's own
  counts give.
\<close>

theorem push_refines:
  assumes "reachable sys" and "db = sys_db sys"
    and "store_event now eid gen b source t db = (Inr (rep, 201), db')"
  shows "deliveries db' = deliveries db @ copies_of db' eid \<and>
    routed_as_required db b (copies_of db' eid) \<and>
    list_all (fresh_copy eid (get_policy db (in_event_type b) \<noteq> None)) (copies_of db' eid) \<and>
    view_event db' eid = Some (rep_view rep)"
  using store_event_stored [OF assms(3)] reachable_consistent [OF assms(1)] assms(2) by simp

theorem push_refines_witness:
  "map target_of_copy (bodies (copies_of (snd stored_push) 50)) = [(7, False, None)] \<and>
   view_event (snd stored_push) 50 = Some (rep_view (fst (admitted_value stored_push)))"
proof -
  have run: "store_event 3 50 (\<lambda>n. (100 + n, 200 + n)) sample_body sample_source 3 subscribed_db
      = (Inr (fst (admitted_value stored_push), 201), snd stored_push)"
    using stored_push_run by (simp add: stored_push_def)
  have "get_active_chain subscribed_db (in_event_type sample_body) = None"
    "filter (passes (in_payload sample_body)) (subscribers subscribed_db (in_event_type sample_body)) = [(7, False, None)]"
    by code_simp+
  with push_refines [OF subscribed_reachable subscribed_db_def run] show ?thesis
    by (simp add: routed_as_required_def)
qed





text \<open>
  C13. Only a registered, enabled source gets an event in: when a push is answered with an event,
  the source id names a row of the registry that is not disabled, the signature is the HMAC of the
  exact send time and body under that source's current secret, and the send time is neither too
  old nor too far in the future.
\<close>

theorem push_admitted:
  assumes "create_event rt cfg clock now eid gen rq db = (Inr rep, db')"
  shows "\<exists>s \<in> set (event_sources db). \<exists>t. rt_cast_uuid rt (header_value (rq_source_id rq)) = Some (src_id s) \<and>
    parse_signed_at rt (header_value (rq_signed_at rq)) = Inr t \<and> src_disabled_at s = None \<and>
    py_strip (remove_prefix ''sha256='' (header_value (rq_signature rq)))
      = rt_hmac rt (src_secret s) (header_value (rq_signed_at rq) @ ''.'' @ rq_body rq) \<and>
    clock - t \<le> ingest_max_age_seconds cfg \<and> t - clock \<le> ingest_max_future_skew_seconds cfg"
  using assms by (rule create_event_admitted) (auto simp: admissible_def)

theorem push_admitted_witness:
  "\<exists>s \<in> set (event_sources subscribed_db). src_id s = 90 \<and> src_disabled_at s = None"
proof -
  have "admitted signed_push" by code_simp
  then have "create_event sample_runtime default_settings (seconds 4) 3 50 (\<lambda>n. (100 + n, 200 + n)) sample_request subscribed_db
      = (Inr (admitted_value signed_push), snd signed_push)"
    using admitted_Inr [of signed_push] by (simp add: signed_push_def)
  from push_admitted [OF this] have "\<exists>s \<in> set (event_sources subscribed_db).
      rt_cast_uuid sample_runtime (header_value (rq_source_id sample_request)) = Some (src_id s) \<and> src_disabled_at s = None"
    by blast
  moreover have "rt_cast_uuid sample_runtime (header_value (rq_source_id sample_request)) = Some 90" by code_simp
  ultimately show ?thesis by auto
qed



section \<open>Subscription conditions\<close>

text \<open>
  C15. A condition is stored in a canonical form, and the form means what the address wrote: on
  every payload the evaluator gives the canonical form the verdict (or the exception) it gives the
  condition as submitted.
\<close>

theorem canonical_filter_equivalent:
  assumes "validate_filter_spec spec = Some canonical"
  shows "evaluate canonical payload = evaluate spec payload"
  using assms evaluate_walk [of spec 1 0] by (auto simp: validate_filter_spec_def)

theorem canonical_filter_equivalent_witness:
  "evaluate (JObj [(''not'', JObj [(''path'', JStr ''a''), (''op'', JStr ''exists'')])]) (JObj [(''b'', JNull)])
    = evaluate sloppy_filter (JObj [(''b'', JNull)])"
  by (rule canonical_filter_equivalent) code_simp

text \<open>
  C16. Evaluation of an accepted condition always ends with a verdict, provided no path segment is
  a digit string that \<open>int()\<close> refuses (superscript digits).
\<close>

theorem accepted_filter_decides:
  assumes "validate_filter_spec spec = Some canonical" and "list_all plain_path (leaf_paths spec)"
  shows "\<exists>verdict. evaluate spec payload = Some verdict"
  using assms evaluate_returns [of spec 1 0] by (auto simp: validate_filter_spec_def)

theorem accepted_filter_decides_witness:
  "\<exists>verdict. evaluate big_order (JObj [(''total'', JStr ''12'')]) = Some verdict"
proof (rule accepted_filter_decides)
  show "validate_filter_spec big_order = Some big_order" "list_all plain_path (leaf_paths big_order)"
    by code_simp+
qed

section \<open>Results of an attempt\<close>



text \<open>
  C18. A worker that lost its lease cannot disturb the copy's new owner: its report, success or
  failure, changes no copy and no destination and leaves only an audit row.
\<close>

theorem lost_lease_harmless:
  assumes "lost \<or> \<not> still_owns_lease c db"
  shows "record_result now clock s jitter c r lost db = Inr (False, audit_attempt c r True db) \<and>
    deliveries (audit_attempt c r True db) = deliveries db \<and>
    destinations (audit_attempt c r True db) = destinations db"
  using record_result_lost [OF assms] by simp

theorem lost_lease_harmless_witness:
  "record_result 12 12 default_settings 0 sample_claim (sample_result 11 True) False queued_db
    = Inr (False, audit_attempt sample_claim (sample_result 11 True) True queued_db)"
proof -
  have "\<not> still_owns_lease sample_claim queued_db" by code_simp
  then show ?thesis using lost_lease_harmless [of False sample_claim queued_db] by simp
qed

text \<open>
  C19. Isolation without a way back: when a failed attempt brings the destination's tally to the
  threshold while the copy's own attempt number is still below it, the destination is isolated
  with no recovery time: until an operator resets that row no claim considers it again, at any
  later time and whatever its queue holds.
\<close>

theorem isolated_without_recovery:
  assumes "keys_ok db" and "still_owns_lease c db" and "find_delivery db (d_id (cl_row c)) = Some d"
    and "d_relay_chain_id (cl_row c) = None" and "d_phase (cl_row c) = Body"
    and "find_destination db (d_destination_id (cl_row c)) = Some t"
    and "d_consecutive_failures (cl_row c) + 1 < max_delivery_attempts s"
    and "d_attempts (cl_row c) < failure_threshold s" and "failure_threshold s \<le> dest_failure_count t + 1"
  shows "\<exists>db' t'. transport_failure now clock s jitter c r db = Inr (False, db') \<and>
    find_destination db' (d_destination_id (cl_row c)) = Some t' \<and> dest_status t' = Isolated \<and>
    (\<forall>later rows. \<not> ready later rows t')"
proof -
  have "False = (max_delivery_attempts s \<le> d_consecutive_failures (cl_row c) + 1)"
    "None = (if failure_threshold s \<le> d_attempts (cl_row c) then Some (clock + quarantine_seconds s) else None)"
    using assms(7,8) by simp_all
  from transport_failure_result [OF assms(1-6) this, of now jitter r] obtain db' where
    "transport_failure now clock s jitter c r db = Inr (False, db')"
    "find_destination db' (d_destination_id (cl_row c)) = Some (failed_dest s False None t)" by blast
  moreover have "dest_status (failed_dest s False None t) = Isolated"
    "dest_recoverable_at (failed_dest s False None t) = None"
    using failed_dest_isolated [of False s t None] assms(9) by simp_all
  ultimately show ?thesis using isolated_forever by blast
qed

theorem isolated_without_recovery_witness:
  "\<exists>db' t'. transport_failure 12 12 default_settings 0 sample_claim (sample_result 11 False) tired_db = Inr (False, db') \<and>
    find_destination db' 7 = Some t' \<and> dest_status t' = Isolated \<and> (\<forall>later rows. \<not> ready later rows t')"
proof -
  have "d_relay_chain_id (cl_row sample_claim) = None" "d_phase (cl_row sample_claim) = Body"
    "d_consecutive_failures (cl_row sample_claim) + 1 < max_delivery_attempts default_settings"
    "d_attempts (cl_row sample_claim) < failure_threshold default_settings"
    "failure_threshold default_settings \<le> dest_failure_count tired_destination + 1"
    "d_destination_id (cl_row sample_claim) = 7"
    by code_simp+
  from isolated_without_recovery [OF in_flight_keys(2) in_flight_owned(2) in_flight_found(2) this(1,2) in_flight_found(4) this(3-5)] this(6)
  show ?thesis by simp
qed

section \<open>Relay chains\<close>

section \<open>Sweeps\<close>

text \<open>
  C20. The reconciler leaves nothing overdue: after one pass no copy waits for a receipt whose
  deadline has passed, and the pass reports exactly as many copies as were overdue when its
  reconciliation statement ran.
\<close>

theorem sweep_leaves_none_overdue:
  "(\<forall>d \<in> set (deliveries (snd (sweep_once now s pick db))). d_reconcile_state d = Awaiting \<longrightarrow>
      \<not> null_lt (d_reconcile_deadline d) now) \<and>
   fst (fst (sweep_once now s pick db)) + snd (fst (sweep_once now s pick db)) =
     count_rows (overdue now)
       (deliveries (snd (void_expired_gates now (snd (expire_delivery_deadlines now pick db)))))"
proof
  let ?db = "snd (void_expired_gates now (snd (expire_delivery_deadlines now pick db)))"
  obtain a b ids db3 where "sweep_overdue now s ?db = ((a, b, ids), db3)" by (metis prod.collapse)
  then show "fst (fst (sweep_once now s pick db)) + snd (fst (sweep_once now s pick db))
      = count_rows (overdue now) (deliveries ?db)"
    using sweep_overdue_counts [of now s ?db a b ids] by (simp add: sweep_once_def)
qed (use sweep_once_settles in \<open>auto simp: overdue_def\<close>)

theorem sweep_leaves_none_overdue_witness:
  "\<not> null_lt (d_reconcile_deadline awaiting_copy) 99 \<and>
   fst (fst (sweep_once 101 default_settings (\<lambda>_. True) awaiting_db)) +
     snd (fst (sweep_once 101 default_settings (\<lambda>_. True) awaiting_db)) = 1"
proof -
  have "awaiting_copy \<in> set (deliveries (snd (sweep_once 99 default_settings (\<lambda>_. True) awaiting_db)))"
    "d_reconcile_state awaiting_copy = Awaiting"
    "count_rows (overdue 101) (deliveries (snd (void_expired_gates 101
       (snd (expire_delivery_deadlines 101 (\<lambda>_. True) awaiting_db))))) = 1"
    by code_simp+
  with sweep_leaves_none_overdue [of 99 default_settings "\<lambda>_. True" awaiting_db]
    sweep_leaves_none_overdue [of 101 default_settings "\<lambda>_. True" awaiting_db]
  show ?thesis by simp
qed



section \<open>The handshake\<close>

text \<open>
  C22. A change of URL closes the old location: afterwards no copy made for the old location (or
  an earlier one) is queued for that destination, and every copy that had already left the queue
  is as it was.
\<close>

theorem relocation_closes_old_queue:
  assumes "update_destination now s token i (Some url) types observe fs db = Inr (r, db')"
    and "find_destination db i = Some t" and "url \<noteq> dest_url t"
  shows "(\<forall>d \<in> set (deliveries db'). d_destination_id d = i \<longrightarrow>
      d_confirmation_generation d \<le> dest_confirmation_generation t \<longrightarrow> d_status d \<noteq> Pending) \<and>
    (\<forall>d \<in> set (deliveries db). d_status d \<noteq> Pending \<longrightarrow> d \<in> set (deliveries db'))"
  using relocation_effect [OF assms] by blast

theorem relocation_closes_old_queue_witness:
  "list_all (\<lambda>d. d_status d \<noteq> Pending)
     (filter (\<lambda>d. d_destination_id d = 7 \<and>
         d_confirmation_generation d \<le> dest_confirmation_generation (sample_destination 7))
       (deliveries (run_state move_run))) \<and>
   awaiting_copy\<lparr>d_id := 2, d_destination_seq := 2\<rparr> \<in> set (deliveries (run_state move_run))"
proof -
  have "awaiting_copy\<lparr>d_id := 2, d_destination_seq := 2\<rparr> \<in> set (deliveries moving_db)"
    "d_status (awaiting_copy\<lparr>d_id := 2, d_destination_seq := 2\<rparr>) \<noteq> Pending"
    by code_simp+
  moreover have "find_destination moving_db 7 = Some (sample_destination 7)" "''https://new'' \<noteq> dest_url (sample_destination 7)"
    by code_simp+
  note relocation_closes_old_queue [OF move_run_Inr this]
  ultimately show ?thesis by (simp add: list_all_iff)
qed

section \<open>Standing of an event\<close>



section \<open>Corrections\<close>

text \<open>
  C24. An event is never rewritten: whatever the service does, the events stored so far stay in the
  table, in their order, with their type, key, bodies, source, original, creation time and
  acknowledgement count; only the times set by reschedule, deliver-by and cancellation may change.
\<close>

theorem event_immutable:
  assumes "reachable sys" and "step\<^sup>*\<^sup>* sys sys'"
  shows "take (length (events (sys_db sys))) (map event_core (events (sys_db sys')))
    = map event_core (events (sys_db sys))"
  using assms by (rule events_kept)

theorem event_immutable_witness:
  "map event_core (events (sys_db (do_op (receipt_op 15 71 7 Failure) acknowledged_sys)))
    = map event_core (events (sys_db acknowledged_sys)) \<and> length (events (sys_db acknowledged_sys)) = 1"
proof -
  have n: "length (events (sys_db acknowledged_sys)) = 1"
    "length (events (sys_db (do_op (receipt_op 15 71 7 Failure) acknowledged_sys))) = 1" by code_simp+
  have "take 1 (map event_core (events (sys_db (do_op (receipt_op 15 71 7 Failure) acknowledged_sys))))
    = map event_core (events (sys_db acknowledged_sys))"
    using event_immutable [OF sample_histories(4) steps_op] n(1) by metis
  then show ?thesis using n by simp
qed

text \<open>
  C25. A correction goes exactly where the original went: its new copies are one fresh queued body
  for each destination a body of the original has reached, with the shadow flag of that copy, less
  the destinations whose current condition withholds the corrected payload; no other copy is
  touched.
\<close>

theorem correction_targets:
  assumes "create_correction now cid gen event key payload db = Inr (r, db')" and "\<not> cr_duplicate r"
  shows "\<exists>e new. find_event db event = Some e \<and> deliveries db' = deliveries db @ new \<and> new \<noteq> [] \<and>
    map target_of_copy new = filter (passes payload) (reached_targets db e) \<and>
    list_all (\<lambda>d. fresh_copy cid False d \<and> d_phase d = Body \<and> d_payload d = payload \<and>
      d_dedupe_key d = key \<and> d_event_type d = Some (e_event_type e)) new"
  by (rule create_correction_created [OF assms]) blast

theorem correction_targets_witness:
  "\<exists>new. deliveries (run_state correction_run) = deliveries sent_event_db @ new \<and> new \<noteq> [] \<and>
    list_all (\<lambda>d. d_payload d = JObj [(''total'', JInt 6)]) new"
proof -
  have "\<not> cr_duplicate (run_value correction_run)" by code_simp
  from correction_targets [OF correction_run_Inr this] show ?thesis
    by (auto simp: list_all_iff)
qed

section \<open>Requests on events and copies\<close>

text \<open>
  C26. Cancelling an event takes every copy of it out: afterwards each of its copies is cancelled,
  copies of other events are untouched, the answer is the event's new standing, and cancelling
  again changes nothing.
\<close>

theorem cancellation_complete:
  assumes "cancel_event now i db = Inr (v, db')" and "find_event db i = Some e" and "e_cancelled_at e = None"
  shows "(\<forall>d \<in> set (deliveries db'). d_event_id d = Some i \<longrightarrow> d_status d = Cancelled) \<and>
    (\<forall>d \<in> set (deliveries db). d_event_id d \<noteq> Some i \<longrightarrow> d \<in> set (deliveries db')) \<and>
    v = view_event db' i \<and> cancel_event later i db' = Inr (view_event db' i, db')"
proof -
  have "d \<in> set (deliveries db')" if "d \<in> set (deliveries db)" "d_event_id d \<noteq> Some i" for d
    unfolding cancel_event_effect(1) [OF assms] using that by (force simp: queued_of_def)
  then show ?thesis
    using cancel_event_effect(2,3) [OF assms] cancel_event_again [OF assms(1)] by blast
qed

theorem cancellation_complete_witness:
  "list_all (\<lambda>d. d_status d = Cancelled)
     (filter (\<lambda>d. d_event_id d = Some 50) (deliveries (run_state cancel_run)))"
proof -
  have "find_event queued_db 50 = Some (sample_event 50)" "e_cancelled_at (sample_event 50) = None"
    by code_simp+
  from cancellation_complete [OF cancel_run_Inr this] show ?thesis by (simp add: list_all_iff)
qed

text \<open>
  C27. A requeued copy counts as unsent for cancellation: after the requeue of a copy that has
  already gone out once, an event whose other copies are only queued or cancelled can still be
  cancelled, and ends with a cancelled copy that its address has received.
\<close>

theorem sent_copy_cancellable:
  assumes "requeue_delivery now i db = Inr (r, db1)" and "db_ok db"
    and "find_delivery db i = Some d" and "d_event_id d = Some event"
    and "find_event db event = Some e" and "e_cancelled_at e = None"
    and "\<And>x. x \<in> set (deliveries db) \<Longrightarrow> d_event_id x = Some event \<Longrightarrow> x = d \<or> d_status x \<in> {Pending, Cancelled}"
  shows "\<exists>v db2. cancel_event later event db1 = Inr (v, db2) \<and>
    (\<exists>d' \<in> set (deliveries db2). d_id d' = i \<and> d_status d' = Cancelled \<and> d_delivered_at d' \<noteq> None)"
  using assms by (rule requeued_copy_cancellable)

theorem sent_copy_cancellable_witness:
  "\<exists>v db2. cancel_event 61 50 (run_state requeue_run) = Inr (v, db2) \<and>
    (\<exists>d' \<in> set (deliveries db2). d_id d' = 1 \<and> d_status d' = Cancelled \<and> d_delivered_at d' \<noteq> None)"
proof -
  obtain d where d: "find_delivery failed_receipt_db 1 = Some d" "deliveries failed_receipt_db = [d]" "d_event_id d = Some 50"
  proof -
    have "map d_id (deliveries failed_receipt_db) = [1]" "map d_event_id (deliveries failed_receipt_db) = [Some 50]" by code_simp+
    then show thesis using that by (auto simp: find_delivery_def)
  qed
  have "db_ok failed_receipt_db" "find_event failed_receipt_db 50 = Some (sample_event 50)" "e_cancelled_at (sample_event 50) = None"
    by code_simp+
  from sent_copy_cancellable [OF requeue_run_Inr this(1) d(1,3) this(2,3)] d(2) show ?thesis by simp
qed

section \<open>The service and its clients\<close>

text \<open>
  C28. A copy from the worker to its acknowledgement: the worker sends the body of a claimed copy, the
  receiver answers 200, the worker records the result, and the one call the receiver makes back is
  served 200 by the receipt endpoint, request validation included, and acknowledges exactly that copy.
\<close>

theorem delivery_roundtrip:
  assumes "db_ok db" and "claim_matches c db" and "still_owns_lease c db" and "d_phase (cl_row c) = Body"
    and "find_delivery db (d_id (cl_row c)) = Some d"
    and "d_deliver_by d = None \<or> null_gt (d_deliver_by d) finished"
    and "find_destination db (d_destination_id (cl_row c)) \<noteq> None"
    and "1 \<le> length (d_dedupe_key (cl_row c))" and "length (d_dedupe_key (cl_row c)) \<le> 256"
    and "uid (d_destination_id (cl_row c)) \<noteq> []"
    and "co_uuid co (JStr (uid (d_destination_id (cl_row c)))) = Some (d_destination_id (cl_row c))"
    and "rc_receipt_url rc = Some url" and "url \<noteq> []" and "rc_receipt_result rc = Success"
    and "do_POST rc (delivery_post uid (message_of c)) rv = (Some (200, told), callbacks, rv')"
    and "record_result now clock s jitter c (send_result_of s started finished (Response 200 (dumps told))) False db
      = Inr (cutoff, db1)"
    and "dr_now dr \<le> now + receipt_timeout_seconds s"
  shows "length callbacks = 1 \<and>
    fst (serve co rt s dr (call_of fmt (hd callbacks)) db1) = 200 \<and>
    map_option d_reconcile_state
      (find_delivery (snd (serve co rt s dr (call_of fmt (hd callbacks)) db1)) (d_id (cl_row c))) = Some Acknowledged"
  using assms by (rule delivery_exchange)

theorem delivery_roundtrip_witness:
  "fst (sample_call (fst (snd delivery_told)) 40 (run_state delivery_result)) = 200 \<and>
   map_option d_reconcile_state (find_delivery (snd (sample_call (fst (snd delivery_told)) 40 (run_state delivery_result)))
     (d_id (cl_row sample_claim))) = Some Acknowledged"
  unfolding sample_call_def
proof (rule delivery_roundtrip [THEN conjunct2])
  show "find_delivery in_flight_db (d_id (cl_row sample_claim)) = Some in_flight_copy"
    by (rule in_flight_found(1))
  show "db_ok in_flight_db" "claim_matches sample_claim in_flight_db" "still_owns_lease sample_claim in_flight_db"
    by (rule in_flight_consistent in_flight_owned)+
  show "d_phase (cl_row sample_claim) = Body" "find_destination in_flight_db (d_destination_id (cl_row sample_claim)) \<noteq> None"
    "1 \<le> length (d_dedupe_key (cl_row sample_claim))" "length (d_dedupe_key (cl_row sample_claim)) \<le> 256"
    "show_nat (d_destination_id (cl_row sample_claim)) \<noteq> []"
    "co_uuid sample_coercions (JStr (show_nat (d_destination_id (cl_row sample_claim)))) = Some (d_destination_id (cl_row sample_claim))"
    by code_simp+
  show "d_deliver_by in_flight_copy = None \<or> null_gt (d_deliver_by in_flight_copy) 11"
    by code_simp
  show "rc_receipt_url sample_receiver = Some ''http://relay/v1/receipts''" "''http://relay/v1/receipts'' \<noteq> []"
    "rc_receipt_result sample_receiver = Success"
    by (simp_all add: sample_receiver_def)
  show "do_POST sample_receiver (delivery_post show_nat (message_of sample_claim)) fresh_receiver
      = (Some (200, snd (the (fst delivery_told))), fst (snd delivery_told), snd (snd delivery_told))"
    using delivery_told_eq unfolding delivery_told_def .
  show "record_result 12 12 default_settings 0 sample_claim
      (send_result_of default_settings 10 11 (Response 200 (sample_dumps (snd (the (fst delivery_told)))))) False in_flight_db
      = Inr (run_value delivery_result, run_state delivery_result)"
    using delivery_result_Inr unfolding delivery_result_def .
  show "dr_now (sample_draws 40) \<le> 12 + receipt_timeout_seconds default_settings"
    by code_simp
qed





text \<open>
  C32. The heartbeat keeps a live claim: after a beat the copy is not returned to the queue for three more
  heartbeat intervals, so a worker may miss two beats.
\<close>

theorem live_lease_kept:
  assumes "heartbeat now s i token db = (beat, db')" and "d \<in> set (deliveries db')" and "owns i token d"
    and "seconds 3 \<le> claim_lease_seconds s" and "of_int later \<le> of_int now + 3 * heartbeat_interval s"
  shows "d \<in> set (deliveries (reap later db'))"
proof (rule heartbeat_protects [OF assms(1-3)])
  have "(of_int later :: rat) \<le> of_int (now + claim_lease_seconds s)"
    using assms(5) heartbeat_interval_le [OF assms(4)] by simp
  then show "later \<le> now + claim_lease_seconds s" by (simp only: of_int_le_iff)
qed

theorem live_lease_kept_witness:
  "in_flight_copy\<lparr>d_lease_until := Some (12 + claim_lease_seconds default_settings)\<rparr>
    \<in> set (deliveries (reap 30000000 (snd (heartbeat 12 default_settings 1 (Some 99) in_flight_db))))"
proof (rule live_lease_kept)
  show "heartbeat 12 default_settings 1 (Some 99) in_flight_db
      = (fst (heartbeat 12 default_settings 1 (Some 99) in_flight_db), snd (heartbeat 12 default_settings 1 (Some 99) in_flight_db))"
    by simp
qed code_simp+



text \<open>
  C33. What the push client signs with the current secret of an enabled source is admitted, when the digest
  is hexadecimal and the clocks agree within the service's bounds.
\<close>

theorem client_push_authenticates:
  assumes "push_request rt dumps env now a = Inr rq" and "pa_signed_at a = None" and "0 \<le> now"
    and "find_source db i = Some s" and "src_disabled_at s = None"
    and "or_else (pa_secret a) (or_else env []) = src_secret s"
    and "rt_is_uuid rt (py_strip (pa_source_id a))" and "rt_cast_uuid rt (py_strip (pa_source_id a)) = Some i"
    and "rt_float rt (show_int (now div 1000000)) = Some f"
    and "rt_datetime rt f = Some (seconds (now div 1000000))"
    and "hex_digest (rt_hmac rt (src_secret s) (show_int (now div 1000000) @ ''.'' @ rq_body rq))"
    and "clock - seconds (now div 1000000) \<le> ingest_max_age_seconds cfg"
    and "seconds (now div 1000000) - clock \<le> ingest_max_future_skew_seconds cfg"
  shows "authenticate rt cfg clock stamp rq db = (Inr (s, seconds (now div 1000000)), db)"
  using assms by (rule signed_push_authenticates)

theorem client_push_authenticates_witness:
  "authenticate hex_runtime default_settings 3000000 3 (request_of client_request) subscribed_db
    = (Inr (sample_source, seconds (3000000 div 1000000)), subscribed_db)"
proof (rule client_push_authenticates [OF client_request_Inr _ _ registered_source(1,2)])
  show "rt_float hex_runtime (show_int (3000000 div 1000000)) = Some (Finite 3)"
    "rt_datetime hex_runtime (Finite 3) = Some (seconds (3000000 div 1000000))"
    by code_simp+
qed code_simp+




section \<open>Answers\<close>

text \<open>
  C36. Whatever state the service reaches, what it reads can be answered: a destination, an event with its
  relay run, and the whole trace of an event (its copies, attempts, receipts, corrections, judgements and
  routing) pass the response models of schemas.py, as do every stored copy and the answers to a revival, a
  voided body and a new challenge. No committed request turns into a 500 by its own answer.
\<close>

theorem replies_conform:
  assumes "reachable sys"
  shows "conforms (F_model destination_out) (get_destination rank now i (sys_db sys)) \<and>
    conforms (F_model event_out) (get_event_reply i (sys_db sys)) \<and>
    conforms (F_model event_trace_out) (event_trace_reply rank serial stamp i (sys_db sys)) \<and>
    list_all (\<lambda>d. answers (F_model delivery_out) (Dict (delivery_row (url_of (sys_db sys) (d_destination_id d)) d)))
      (deliveries (sys_db sys)) \<and>
    conforms (F_model dead_letter_revive_out) (revive_answer now i (sys_db sys)) \<and>
    conforms (F_model body_void_out) (void_answer now i (sys_db sys)) \<and>
    conforms (F_model reissue_challenge_out) (reissue_answer now s token i (sys_db sys))"
  using reachable_documents [OF assms] read_answers trace_answers change_answers by simp

theorem replies_conform_witness:
  "\<exists>v. event_trace_reply (\<lambda>_. 0) (\<lambda>_. (1, None)) (\<lambda>_. (1, 0)) 50 (sys_db relay_sys) = Inr v \<and>
     answers (F_model event_trace_out) v"
proof -
  have "find_event (sys_db relay_sys) 50 \<noteq> None" by code_simp
  then obtain v where v: "event_trace_reply (\<lambda>_. 0) (\<lambda>_. (1, None)) (\<lambda>_. (1, 0)) 50 (sys_db relay_sys) = Inr v"
    by (auto simp: event_trace_reply_def)
  have "conforms (F_model event_trace_out) (event_trace_reply (\<lambda>_. 0) (\<lambda>_. (1, None)) (\<lambda>_. (1, 0)) 50 (sys_db relay_sys))"
    using replies_conform [OF sample_histories(6)] by blast
  then show ?thesis using v by simp
qed


section \<open>Starts of the service\<close>



text \<open>
  C39. A restart is harmless: a process that starts while the service is in use, whatever state any
  interleaving of requests, passes and workers has reached, runs the statements of models.py through on
  the rows of that state (every CHECK they assert again holds) and changes neither the catalogue nor a row.
\<close>

theorem restart_harmless:
  assumes "init_db now pg = Inr started" and "reachable sys"
    and "pg_catalogue live = pg_catalogue started" and "holds_rows (sys_db sys) live"
  shows "init_db later live = Inr live"
  using assms by (rule live_restart)

theorem restart_harmless_witness:
  "\<exists>live. pg_rows live ''deliveries'' = map (\<lambda>d. row_of (delivery_cells d)) (deliveries (sys_db relay_sys)) \<and>
     init_db 9 live = Inr live"
proof -
  obtain pg where pg: "init_db 0 empty_pg = Inr pg" using init_db_first by blast
  define live where "live = stored_rows (sys_db relay_sys) pg"
  have "init_db 9 live = Inr live"
    by (rule restart_harmless [OF pg sample_histories(6)]) (simp_all add: live_def stored_rows)
  then show ?thesis using stored_rows(2) by (intro exI [of _ live]) (auto simp: live_def holds_rows_def)
qed

text \<open>
  C40. The upgrade to the handshake: destinations stored before it existed end confirmed, with a fresh
  handshake and no challenge, and every column they had keeps its value.
\<close>

theorem legacy_destinations_confirmed:
  assumes "init_db now pg = Inr pg'" and "has_table (pg_catalogue pg) ''destinations''"
    and "\<not> has_column (pg_catalogue pg) ''destinations'' ''confirmation_state''"
    and "has_column (pg_catalogue pg) ''destinations'' c"
  shows "list_all (armed_legacy now) (pg_rows pg' ''destinations'') \<and>
    map (\<lambda>r. r c) (pg_rows pg' ''destinations'') = map (\<lambda>r. r c) (pg_rows pg ''destinations'')"
  using init_db_confirms_legacy(1) [OF assms(1-3)] init_db_keeps_values [OF assms(1,4)] by blast

theorem legacy_destinations_confirmed_witness:
  "\<exists>pg. init_db 5 legacy_pg = Inr pg \<and> list_all (armed_legacy 5) (pg_rows pg ''destinations'') \<and>
     map (\<lambda>r. r ''url'') (pg_rows pg ''destinations'') = [VText ''https://a'']"
proof -
  obtain pg where pg: "init_db 5 legacy_pg = Inr pg" using legacy_starts by blast
  have "map (\<lambda>r. r ''url'') (pg_rows legacy_pg ''destinations'') = [VText ''https://a'']"
    by (simp add: legacy_pg_def legacy_row_def)
  then show ?thesis
    using legacy_destinations_confirmed [OF pg legacy_columns] pg by (intro exI [of _ pg]) simp
qed

end
